(* ===== verification/Prelude.thy ===== *)
theory Prelude
  imports Main "HOL-Library.Word" "HOL-Library.Char_ord" "HOL-Library.Signed_Division"
begin

text \<open>
  Shared vocabulary of the firmware model: machine integer types, the ESP-IDF
  error codes the sources compare against, C strings and the part of the C
  library's \<open>printf\<close> family, \<open>strncpy\<close> and \<open>atoi\<close> the firmware uses, and the
  generic lemmas about them.

  A C string is the \<open>string\<close> of its characters before the terminator. A fixed
  buffer of \<open>n\<close> bytes filled by \<open>snprintf (buf, n, ...)\<close> or by
  \<open>strncpy (buf, s, n - 1)\<close> followed by a terminator holds at most \<open>n - 1\<close>
  characters: \<open>c_trunc n\<close>.
\<close>

unbundle bit_operations_syntax

section \<open>Machine integers and error codes\<close>

text \<open>The result of a signed operation at 32 and at 64 bits; \<open>sdiv\<close> is C's division.\<close>

definition s32 :: "int \<Rightarrow> int" where
  "s32 x = signed_take_bit 31 x"

definition s64 :: "int \<Rightarrow> int" where
  "s64 x = signed_take_bit 63 x"

lemma s32_id: "- 2147483648 \<le> x \<Longrightarrow> x < 2147483648 \<Longrightarrow> s32 x = x"
  unfolding s32_def by (rule signed_take_bit_int_eq_self) simp_all

lemma s32_abs: "\<bar>x\<bar> \<le> m \<Longrightarrow> m < 2147483648 \<Longrightarrow> s32 x = x"
  by (rule s32_id) linarith+

type_synonym byte = "8 word"
type_synonym u16 = "16 word"
type_synonym u32 = "32 word"
type_synonym esp_err_t = int

abbreviation (input) ESP_OK :: esp_err_t where "ESP_OK \<equiv> 0"
abbreviation (input) ESP_FAIL :: esp_err_t where "ESP_FAIL \<equiv> - 1"
abbreviation (input) ESP_ERR_NO_MEM :: esp_err_t where "ESP_ERR_NO_MEM \<equiv> 0x101"
abbreviation (input) ESP_ERR_INVALID_ARG :: esp_err_t where "ESP_ERR_INVALID_ARG \<equiv> 0x102"
abbreviation (input) ESP_ERR_INVALID_STATE :: esp_err_t where "ESP_ERR_INVALID_STATE \<equiv> 0x103"
abbreviation (input) ESP_ERR_NOT_FOUND :: esp_err_t where "ESP_ERR_NOT_FOUND \<equiv> 0x105"
abbreviation (input) ESP_ERR_NOT_SUPPORTED :: esp_err_t where "ESP_ERR_NOT_SUPPORTED \<equiv> 0x106"
abbreviation (input) ESP_ERR_TIMEOUT :: esp_err_t where "ESP_ERR_TIMEOUT \<equiv> 0x107"

section \<open>Proof rule collections\<close>

named_theorems bits_simps "word-level facts that settle masks and shifts"
named_theorems cstr_simps "lengths and shapes of formatted C strings"
named_theorems run_simps "how the operations of the model run"
named_theorems keeps_intro "which state predicates an operation keeps"

section \<open>C strings\<close>

definition c_trunc :: "nat \<Rightarrow> string \<Rightarrow> string" where
  "c_trunc n s = take (n - 1) s"

definition c_string :: "string \<Rightarrow> string" where
  "c_string s = takeWhile (\<lambda>c. c \<noteq> CHR 0x00) s"

definition pad_left :: "nat \<Rightarrow> char \<Rightarrow> string \<Rightarrow> string" where
  "pad_left w c s = replicate (w - length s) c @ s"

definition pad_right :: "nat \<Rightarrow> char \<Rightarrow> string \<Rightarrow> string" where
  "pad_right w c s = s @ replicate (w - length s) c"

definition digit_char :: "nat \<Rightarrow> char" where
  "digit_char d = (if d < 10 then char_of (48 + d) else char_of (55 + d))"

fun radix_str :: "nat \<Rightarrow> nat \<Rightarrow> string" where
  "radix_str b n =
     (if n < b \<or> b < 2 then [digit_char n]
      else radix_str b (n div b) @ [digit_char (n mod b)])"

declare radix_str.simps [simp del]

definition dec_str :: "nat \<Rightarrow> string" where
  "dec_str n = radix_str 10 n"

definition hex_str :: "nat \<Rightarrow> string" where
  "hex_str n = radix_str 16 n"

definition fmt_d :: "int \<Rightarrow> string" where
  "fmt_d i = (if i < 0 then CHR ''-'' # dec_str (nat (- i)) else dec_str (nat i))"

text \<open>\<open>%X\<close> prints the 32-bit pattern of its argument, so an \<open>esp_err_t\<close> of -1 is FFFFFFFF.\<close>

definition fmt_X :: "int \<Rightarrow> string" where
  "fmt_X i = hex_str (nat (i mod 2 ^ 32))"

definition is_digit_char :: "char \<Rightarrow> bool" where
  "is_digit_char c \<longleftrightarrow> 48 \<le> (of_char c :: nat) \<and> (of_char c :: nat) \<le> 57"

definition digit_val :: "char \<Rightarrow> nat" where
  "digit_val c = of_char c - 48"

definition is_space_char :: "char \<Rightarrow> bool" where
  "is_space_char c \<longleftrightarrow> (of_char c :: nat) = 32 \<or> (9 \<le> (of_char c :: nat) \<and> (of_char c :: nat) \<le> 13)"

definition dec_val :: "string \<Rightarrow> nat" where
  "dec_val s = foldl (\<lambda>a c. 10 * a + digit_val c) 0 s"

text \<open>\<open>atoi\<close>: white space, an optional sign, then the longest run of digits.\<close>

definition atoi :: "string \<Rightarrow> int" where
  "atoi s =
     (case dropWhile is_space_char s of
        [] \<Rightarrow> 0
      | c # r \<Rightarrow>
          if c = CHR ''-'' then - int (dec_val (takeWhile is_digit_char r))
          else if c = CHR ''+'' then int (dec_val (takeWhile is_digit_char r))
          else int (dec_val (takeWhile is_digit_char (c # r))))"

subsection \<open>Lengths\<close>

lemma length_c_trunc [cstr_simps]: "length (c_trunc n s) = min (n - 1) (length s)"
  by (simp add: c_trunc_def)

lemma c_trunc_short [cstr_simps]: "length s < n \<Longrightarrow> c_trunc n s = s"
  by (simp add: c_trunc_def)

lemma length_pad_left [cstr_simps]: "length (pad_left w c s) = max w (length s)"
  by (simp add: pad_left_def max_def)

lemma length_pad_right [cstr_simps]: "length (pad_right w c s) = max w (length s)"
  by (simp add: pad_right_def max_def)

lemma c_trunc_pad_full [cstr_simps]:
  "length (c_trunc (Suc w) (pad_right w c s)) = w"
  by (simp add: cstr_simps)

lemma length_radix_str:
  assumes "2 \<le> b" and "n < b ^ k" and "0 < k"
  shows "length (radix_str b n) \<le> k"
  using assms
proof (induction b n arbitrary: k rule: radix_str.induct)
  case (1 b n)
  show ?case
  proof (cases "n < b")
    case True
    with "1.prems" show ?thesis by (subst radix_str.simps) simp
  next
    case False
    with "1.prems" obtain j where k: "k = Suc j" and "0 < j"
      by (metis One_nat_def Suc_pred less_numeral_extra(3) not_gr_zero power_one_right)
    have "n div b < b ^ j"
      using "1.prems" k by (simp add: less_mult_imp_div_less mult.commute)
    with False "1.prems" \<open>0 < j\<close> have "length (radix_str b (n div b)) \<le> j"
      by (intro "1.IH") auto
    with False k "1.prems" show ?thesis by (subst radix_str.simps) simp
  qed
qed

lemma length_dec_str: "n < 10 ^ k \<Longrightarrow> 0 < k \<Longrightarrow> length (dec_str n) \<le> k"
  by (simp add: dec_str_def length_radix_str)

lemma length_hex_str: "n < 16 ^ k \<Longrightarrow> 0 < k \<Longrightarrow> length (hex_str n) \<le> k"
  by (simp add: hex_str_def length_radix_str)

lemma length_fmt_X: "length (fmt_X i) \<le> 8"
proof -
  have "nat (i mod 2 ^ 32) < 16 ^ 8"
    by (simp add: nat_less_iff)
  then show ?thesis by (simp add: fmt_X_def length_hex_str)
qed

subsection \<open>Reading back what \<open>printf\<close> wrote\<close>

lemma digit_val_char: "d < 10 \<Longrightarrow> digit_val (digit_char d) = d"
  by (simp add: digit_val_def digit_char_def)

lemma is_digit_digit_char: "d < 10 \<Longrightarrow> is_digit_char (digit_char d)"
  by (simp add: is_digit_char_def digit_char_def)

lemma dec_val_snoc: "dec_val (s @ [c]) = 10 * dec_val s + digit_val c"
  by (simp add: dec_val_def)

lemma dec_val_dec_str: "dec_val (dec_str n) = n"
proof (induction n rule: less_induct)
  case (less n)
  show ?case
  proof (cases "n < 10")
    case True
    then show ?thesis
      by (simp add: dec_str_def radix_str.simps [of 10 n] dec_val_def digit_val_char)
  next
    case False
    then have step: "dec_str n = dec_str (n div 10) @ [digit_char (n mod 10)]"
      by (simp add: dec_str_def radix_str.simps [of 10 n])
    have "dec_val (dec_str (n div 10)) = n div 10"
      using False by (intro less) auto
    then show ?thesis
      by (simp add: step dec_val_snoc digit_val_char)
  qed
qed

lemma all_digits_dec_str: "list_all is_digit_char (dec_str n)"
proof (induction n rule: less_induct)
  case (less n)
  show ?case
  proof (cases "n < 10")
    case True
    then show ?thesis
      by (simp add: dec_str_def radix_str.simps [of 10 n] is_digit_digit_char)
  next
    case False
    then have "dec_str n = dec_str (n div 10) @ [digit_char (n mod 10)]"
      by (simp add: dec_str_def radix_str.simps [of 10 n])
    with False less [of "n div 10"] show ?thesis
      by (simp add: is_digit_digit_char)
  qed
qed

lemma dec_val_replicate_zero: "dec_val (replicate k (CHR ''0'') @ s) = dec_val s"
  by (induction k) (simp_all add: dec_val_def digit_val_def)

lemma dec_val_pad_left: "dec_val (pad_left w (CHR ''0'') s) = dec_val s"
  by (simp add: pad_left_def dec_val_replicate_zero)

section \<open>Characters as bytes\<close>

definition bytes_of_string :: "string \<Rightarrow> byte list" where
  "bytes_of_string = map (\<lambda>c. word_of_nat (of_char c))"

lemma byte_of_char_inject:
  "(word_of_nat (of_char c) :: byte) = word_of_nat (of_char d) \<longleftrightarrow> c = d"
proof
  assume eq: "(word_of_nat (of_char c) :: byte) = word_of_nat (of_char d)"
  have "unat (word_of_nat (of_char c) :: byte) = of_char c"
    "unat (word_of_nat (of_char d) :: byte) = of_char d"
    using nat_of_char_less_256 [of c] nat_of_char_less_256 [of d]
    by (simp_all add: unat_of_nat)
  with eq have "(of_char c :: nat) = of_char d" by metis
  then show "c = d" by simp
qed simp

lemma length_bytes_of_string [simp]: "length (bytes_of_string s) = length s"
  by (simp add: bytes_of_string_def)

lemma bytes_of_string_inject [simp]: "bytes_of_string s = bytes_of_string t \<longleftrightarrow> s = t"
  unfolding bytes_of_string_def
  by (rule inj_map_eq_map) (simp add: inj_def byte_of_char_inject)

section \<open>Lists\<close>

lemma nth_append_same [simp]: "(xs @ y # ys) ! length xs = y"
  by simp

lemma fold_or_zero_iff:
  fixes f :: "'a \<Rightarrow> 'w::len word"
  shows "fold (\<lambda>i r. r OR f i) xs a = 0 \<longleftrightarrow> a = 0 \<and> (\<forall>i\<in>set xs. f i = 0)"
proof (induction xs arbitrary: a)
  case Nil
  then show ?case by simp
next
  case (Cons x xs)
  have "a OR f x = 0 \<longleftrightarrow> a = 0 \<and> f x = 0"
    by (auto simp: bit_eq_iff bit_or_iff)
  with Cons show ?case by auto
qed

end
