(* ===== verification/Platform.thy ===== *)
theory Platform
  imports Prelude "HOL-Library.State_Monad" "HOL-Library.Sublist"
begin

text \<open>
  What lies below the firmware: FreeRTOS, the ESP-IDF drivers, cJSON and the
  network stack. None of that code is part of the repository, so it is a
  parameter. Every call the firmware makes is appended to the \<open>trace\<close> of the
  state, and its result is read from \<open>ext\<close>, a record of functions of the calls
  made so far and of the call itself. Nothing is assumed about \<open>ext\<close>: a theorem
  that relies on documented behaviour of a library says so in a hypothesis.

  The state of the program is a record that every component extends with its own
  file-level variables, in the order the components are linked. An operation of
  a component is polymorphic in the fields added above it. Operations are terms
  of the library's state monad, so a function body reads as in the source.
  \<open>ESP_LOGx\<close> output is not modelled.

  The heap is the map of live \<open>malloc\<close>ed string blocks. \<open>mem_fault\<close> records that
  the program touched memory it must not (a dead block, a wrongly typed pointer).
\<close>

section \<open>Calls that leave the program\<close>

datatype sem = BusMutex | IoMutex

datatype timer = ActLedTimer | CmdLedTimer | BuzzerTimer | UiTimer | ScrollTimer

datatype i2c_op = I2cStart | I2cWriteByte byte | I2cReadByte | I2cStop

datatype i2c_call =
    I2cParamConfig
  | I2cDriverInstall
  | I2cCmdBegin "i2c_op list" nat
  | I2cWriteDevice byte "byte list" nat
  | I2cReadDevice byte nat nat
  | I2cWriteRead byte "byte list" nat nat

datatype rtos_call =
    SemCreate sem
  | SemDelete sem
  | SemTake sem
  | SemGive sem
  | TaskDelay nat
  | DelayUs nat
  | TaskCreate string
  | TimerCreate timer nat bool
  | TimerStart timer
  | TimerStop timer
  | TimerReset timer
  | TimerChangePeriod timer nat
  | TimerIsActive timer

datatype queue_call =
    QueueCreate nat
  | QueueSend string nat
  | QueueReceive

datatype mem_call =
    Malloc nat
  | Free nat

datatype uart_call =
    UartParamConfig nat nat
  | UartSetPin nat nat nat
  | UartDriverInstall nat nat nat
  | UartSetMode nat
  | UartWrite nat "byte list"
  | UartRead nat nat nat

datatype nvs_call =
    NvsFlashInit
  | NvsFlashErase
  | NvsOpen string bool
  | NvsSetStr int string string
  | NvsGetStr int string nat
  | NvsCommit int
  | NvsClose int

datatype fs_call =
    LittlefsRegister
  | LittlefsInfo
  | FOpen string
  | FTell
  | FRead nat
  | FClose

datatype net_call =
    NetifInit
  | EventLoopCreate
  | GpioIsrInstall
  | NetifNew
  | DhcpcStop
  | StrToIp4 string
  | SetIpInfo u32 u32 u32
  | SetDnsInfo u32
  | SpiBusInit
  | MacNewW5500
  | PhyNewW5500
  | EthDriverInstall
  | ReadMac
  | EthSetMac
  | NetifAttach
  | EthHandlerRegister
  | IpHandlerRegister
  | HandlerUnregister
  | UpdateInputPath
  | EthStart
  | NetifReceive "byte list"
  | EventGroupCreate
  | EventGroupDelete
  | EventGroupWait nat
  | EventGroupSet
  | StartupHandlerRegister
  | StartupHandlerUnregister
  | NetifNext
  | NetifGetIp

datatype time_call =
    SetTz string
  | SntpSetMode
  | SntpSetServer string
  | SntpEnabled
  | SntpStop
  | SntpInit
  | SntpStatus
  | LocalTime
  | GetTimeUs
  | FreeHeap
  | MinFreeHeap
  | TotalHeap
  | AppDesc string

datatype httpd_call =
    SslStart u16
  | SslStop
  | RegisterUri string bool bool
  | RespSendErr nat
  | RespSend500
  | RespSetStatus string
  | RespSetType string
  | RespSend string
  | ReqRecv nat
  | HdrLen string
  | HdrStr string nat
  | WsRecvFrame nat
  | WsFdInfo nat int
  | WsSendAsync nat int string
  | SessClose nat int
  | ReqSockfd

datatype ota_call =
    OtaNextPartition
  | OtaBegin
  | OtaWrite "byte list"
  | OtaEnd
  | OtaSetBoot
  | Restart

datatype call =
    I2c i2c_call
  | Rtos rtos_call
  | Queue queue_call
  | Mem mem_call
  | Uart uart_call
  | Nvs nvs_call
  | Fs fs_call
  | Net net_call
  | Time time_call
  | Httpd httpd_call
  | Ota ota_call

section \<open>cJSON nodes\<close>

text \<open>
  A node as the firmware inspects or builds it: its type tag with \<open>valuestring\<close>
  or \<open>valueint\<close>, and for an object the members added to it, in order.
\<close>

datatype cjson =
    CString "string option"
  | CNumber int
  | CNull
  | COther
  | CObject "(string \<times> cjson) list"

text \<open>\<open>cJSON_AddStringToObject\<close>: a null text cannot be copied, so nothing is added.\<close>

definition cJSON_AddString :: "string \<Rightarrow> string option \<Rightarrow> (string \<times> cjson) list" where
  "cJSON_AddString key v = (case v of Some t \<Rightarrow> [(key, CString (Some t))] | None \<Rightarrow> [])"

fun cJSON_IsString :: "cjson option \<Rightarrow> bool" where
  "cJSON_IsString (Some (CString _)) = True"
| "cJSON_IsString _ = False"

fun cJSON_IsNumber :: "cjson option \<Rightarrow> bool" where
  "cJSON_IsNumber (Some (CNumber _)) = True"
| "cJSON_IsNumber _ = False"

fun valuestring :: "cjson option \<Rightarrow> string option" where
  "valuestring (Some (CString v)) = v"
| "valuestring _ = None"

fun valueint :: "cjson option \<Rightarrow> int" where
  "valueint (Some (CNumber n)) = n"
| "valueint _ = 0"

section \<open>The external parameter and the program state\<close>

text \<open>The fields of C's \<open>struct tm\<close> the firmware prints.\<close>

record tm =
  tm_year :: int
  tm_mon :: nat
  tm_mday :: nat
  tm_wday :: nat
  tm_hour :: nat
  tm_min :: nat
  tm_sec :: nat

record ext_env =
  err_of :: "call list \<Rightarrow> call \<Rightarrow> esp_err_t"
  int_of :: "call list \<Rightarrow> call \<Rightarrow> int"
  bool_of :: "call list \<Rightarrow> call \<Rightarrow> bool"
  word_of :: "call list \<Rightarrow> call \<Rightarrow> u32"
  bytes_of :: "call list \<Rightarrow> call \<Rightarrow> byte list"
  str_of :: "call list \<Rightarrow> call \<Rightarrow> string"
  local_tm :: "call list \<Rightarrow> tm"
  cJSON_Parse :: "string \<Rightarrow> cjson option"
  cJSON_GetObjectItem :: "cjson option \<Rightarrow> string \<Rightarrow> cjson option"
  cJSON_PrintUnformatted :: "cjson \<Rightarrow> string option"
  query_key_value :: "string \<Rightarrow> string \<Rightarrow> nat \<Rightarrow> esp_err_t \<times> string"
  esp_err_to_name :: "esp_err_t \<Rightarrow> string option"

record platform =
  ext :: ext_env
  trace :: "call list"
  heap :: "nat \<Rightarrow> string option"
  next_ptr :: nat
  mem_fault :: bool

type_synonym ('s, 'a) op = "('s, 'a) state"

section \<open>Operations of the monad\<close>

abbreviation ret :: "'a \<Rightarrow> ('s, 'a) op" where
  "ret \<equiv> State_Monad.return"

abbreviation exec :: "('s, 'a) op \<Rightarrow> 's \<Rightarrow> 's" where
  "exec m s \<equiv> snd (run_state m s)"

abbreviation result :: "('s, 'a) op \<Rightarrow> 's \<Rightarrow> 'a" where
  "result m s \<equiv> fst (run_state m s)"

definition gets :: "('s \<Rightarrow> 'a) \<Rightarrow> ('s, 'a) op" where
  "gets f = State (\<lambda>s. (f s, s))"

definition modify :: "('s \<Rightarrow> 's) \<Rightarrow> ('s, unit) op" where
  "modify f = State (\<lambda>s. ((), f s))"

definition ask :: "(ext_env \<Rightarrow> call list \<Rightarrow> call \<Rightarrow> 'a) \<Rightarrow> call \<Rightarrow> ('x platform_scheme, 'a) op" where
  "ask f c = State (\<lambda>s. (f (ext s) (trace s) c, s\<lparr>trace := trace s @ [c]\<rparr>))"

definition call_unit :: "call \<Rightarrow> ('x platform_scheme, unit) op" where
  "call_unit c = ask (\<lambda>_ _ _. ()) c"

definition call_err :: "call \<Rightarrow> ('x platform_scheme, esp_err_t) op" where
  "call_err c = ask err_of c"

definition call_int :: "call \<Rightarrow> ('x platform_scheme, int) op" where
  "call_int c = ask int_of c"

definition call_bool :: "call \<Rightarrow> ('x platform_scheme, bool) op" where
  "call_bool c = ask bool_of c"

definition call_word :: "call \<Rightarrow> ('x platform_scheme, u32) op" where
  "call_word c = ask word_of c"

definition call_bytes :: "call \<Rightarrow> ('x platform_scheme, byte list) op" where
  "call_bytes c = ask bytes_of c"

definition call_err_int :: "call \<Rightarrow> ('x platform_scheme, esp_err_t \<times> int) op" where
  "call_err_int c = ask (\<lambda>e h c. (err_of e h c, int_of e h c)) c"

definition call_err_word :: "call \<Rightarrow> ('x platform_scheme, esp_err_t \<times> u32) op" where
  "call_err_word c = ask (\<lambda>e h c. (err_of e h c, word_of e h c)) c"

definition call_err_bytes :: "call \<Rightarrow> ('x platform_scheme, esp_err_t \<times> byte list) op" where
  "call_err_bytes c = ask (\<lambda>e h c. (err_of e h c, bytes_of e h c)) c"

definition call_err_str :: "call \<Rightarrow> ('x platform_scheme, esp_err_t \<times> string) op" where
  "call_err_str c = ask (\<lambda>e h c. (err_of e h c, str_of e h c)) c"

definition call_str :: "call \<Rightarrow> ('x platform_scheme, string) op" where
  "call_str c = ask str_of c"

definition call_int_bytes :: "call \<Rightarrow> ('x platform_scheme, int \<times> byte list) op" where
  "call_int_bytes c = ask (\<lambda>e h c. (int_of e h c, bytes_of e h c)) c"

definition call_int_str :: "call \<Rightarrow> ('x platform_scheme, int \<times> string) op" where
  "call_int_str c = ask (\<lambda>e h c. (int_of e h c, str_of e h c)) c"

abbreviation vTaskDelay :: "nat \<Rightarrow> ('x platform_scheme, unit) op" where
  "vTaskDelay ms \<equiv> call_unit (Rtos (TaskDelay ms))"

definition whenM :: "bool \<Rightarrow> ('s, unit) op \<Rightarrow> ('s, unit) op" where
  "whenM b m = (if b then m else ret ())"

fun for_each :: "'a list \<Rightarrow> ('a \<Rightarrow> ('s, unit) op) \<Rightarrow> ('s, unit) op" where
  "for_each [] f = ret ()"
| "for_each (x # xs) f = do { f x; for_each xs f }"

text \<open>\<open>if (err != ESP_OK) return err;\<close> and the rest of the function.\<close>

definition unless_ok :: "esp_err_t \<Rightarrow> ('s, esp_err_t) op \<Rightarrow> ('s, esp_err_t) op" where
  "unless_ok err rest = (if err \<noteq> ESP_OK then ret err else rest)"

text \<open>
  An operation that may not return (a loop that can run for ever, a halt, an abort):
  its result is an option.
\<close>

type_synonym ('s, 'a) pop = "'s \<Rightarrow> ('a \<times> 's) option"

definition run_op :: "('s, 'a) op \<Rightarrow> ('s, 'a) pop" where
  "run_op m s = Some (run_state m s)"

definition then_pop :: "('s, 'a) pop \<Rightarrow> ('a \<Rightarrow> ('s, 'b) pop) \<Rightarrow> ('s, 'b) pop" where
  "then_pop p f s = (case p s of None \<Rightarrow> None | Some (a, s') \<Rightarrow> f a s')"

subsection \<open>The C heap\<close>

text \<open>
  \<open>malloc\<close> may fail; when it succeeds the block is new. \<open>malloc_buf n v\<close> allocates
  \<open>n\<close> bytes that are then filled with the string \<open>v\<close>. \<open>free\<close> of a block that is not
  live is a fault.
\<close>

definition malloc_buf :: "nat \<Rightarrow> string \<Rightarrow> ('x platform_scheme, nat option) op" where
  "malloc_buf n v = do {
     ok \<leftarrow> call_bool (Mem (Malloc n));
     if \<not> ok then ret None
     else do {
       p \<leftarrow> gets next_ptr;
       modify (\<lambda>s. s\<lparr>heap := (heap s)(p := Some v), next_ptr := Suc p\<rparr>);
       ret (Some p)
     }
   }"

definition malloc_str :: "string \<Rightarrow> ('x platform_scheme, nat option) op" where
  "malloc_str v = malloc_buf (length v + 1) v"

definition free_str :: "nat \<Rightarrow> ('x platform_scheme, unit) op" where
  "free_str p = do {
     call_unit (Mem (Free p));
     live \<leftarrow> gets (\<lambda>s. heap s p \<noteq> None);
     modify (\<lambda>s. if live then s\<lparr>heap := (heap s)(p := None)\<rparr> else s\<lparr>mem_fault := True\<rparr>)
   }"

definition read_str :: "nat \<Rightarrow> ('x platform_scheme, string) op" where
  "read_str p = do {
     b \<leftarrow> gets (\<lambda>s. heap s p);
     (case b of
        Some v \<Rightarrow> ret v
      | None \<Rightarrow> do { modify (\<lambda>s. s\<lparr>mem_fault := True\<rparr>); ret [] })
   }"

definition heap_wf :: "'x platform_scheme \<Rightarrow> bool" where
  "heap_wf s \<longleftrightarrow> (\<forall>p. heap s p \<noteq> None \<longrightarrow> p < next_ptr s)"

section \<open>Running an operation\<close>

lemma run_gets [run_simps, simp]: "run_state (gets f) s = (f s, s)"
  by (simp add: gets_def)

lemma run_modify [run_simps, simp]: "run_state (modify f) s = ((), f s)"
  by (simp add: modify_def)

lemma run_ask [run_simps]:
  "run_state (ask f c) s = (f (ext s) (trace s) c, s\<lparr>trace := trace s @ [c]\<rparr>)"
  by (simp add: ask_def)

lemmas call_defs =
  call_unit_def call_err_def call_int_def call_bool_def call_word_def call_bytes_def
  call_err_int_def call_err_word_def call_err_bytes_def call_err_str_def call_str_def call_int_bytes_def
  call_int_str_def

lemma run_calls [run_simps, simp]:
  "run_state (call_unit c) s = ((), s\<lparr>trace := trace s @ [c]\<rparr>)"
  "run_state (call_err c) s = (err_of (ext s) (trace s) c, s\<lparr>trace := trace s @ [c]\<rparr>)"
  "run_state (call_int c) s = (int_of (ext s) (trace s) c, s\<lparr>trace := trace s @ [c]\<rparr>)"
  "run_state (call_bool c) s = (bool_of (ext s) (trace s) c, s\<lparr>trace := trace s @ [c]\<rparr>)"
  "run_state (call_word c) s = (word_of (ext s) (trace s) c, s\<lparr>trace := trace s @ [c]\<rparr>)"
  "run_state (call_bytes c) s = (bytes_of (ext s) (trace s) c, s\<lparr>trace := trace s @ [c]\<rparr>)"
  "run_state (call_err_int c) s =
     ((err_of (ext s) (trace s) c, int_of (ext s) (trace s) c), s\<lparr>trace := trace s @ [c]\<rparr>)"
  "run_state (call_err_word c) s =
     ((err_of (ext s) (trace s) c, word_of (ext s) (trace s) c), s\<lparr>trace := trace s @ [c]\<rparr>)"
  "run_state (call_err_bytes c) s =
     ((err_of (ext s) (trace s) c, bytes_of (ext s) (trace s) c), s\<lparr>trace := trace s @ [c]\<rparr>)"
  "run_state (call_err_str c) s =
     ((err_of (ext s) (trace s) c, str_of (ext s) (trace s) c), s\<lparr>trace := trace s @ [c]\<rparr>)"
  "run_state (call_str c) s = (str_of (ext s) (trace s) c, s\<lparr>trace := trace s @ [c]\<rparr>)"
  "run_state (call_int_bytes c) s =
     ((int_of (ext s) (trace s) c, bytes_of (ext s) (trace s) c), s\<lparr>trace := trace s @ [c]\<rparr>)"
  "run_state (call_int_str c) s =
     ((int_of (ext s) (trace s) c, str_of (ext s) (trace s) c), s\<lparr>trace := trace s @ [c]\<rparr>)"
  by (simp_all add: call_defs run_ask)

lemma run_whenM [run_simps, simp]:
  "run_state (whenM b m) s = (if b then run_state m s else ((), s))"
  by (simp add: whenM_def)

lemma run_op_apply [run_simps, simp]: "run_op m s = Some (run_state m s)"
  by (simp add: run_op_def)

lemma then_pop_run [run_simps, simp]: "then_pop (run_op m) f s = f (result m s) (exec m s)"
  by (simp add: then_pop_def case_prod_beta)

lemma then_pop_Some:
  "then_pop p f s = Some r \<longleftrightarrow> (\<exists>a s'. p s = Some (a, s') \<and> f a s' = Some r)"
  by (auto simp: then_pop_def split: option.split)

text \<open>What such an operation keeps when it returns.\<close>

definition keeps_pop :: "('s \<Rightarrow> bool) \<Rightarrow> ('s, 'a) pop \<Rightarrow> bool" where
  "keeps_pop P p \<longleftrightarrow> (\<forall>s a s'. P s \<longrightarrow> p s = Some (a, s') \<longrightarrow> P s')"

lemma run_unless_ok [run_simps, simp]:
  "run_state (unless_ok err m) s = (if err \<noteq> ESP_OK then (err, s) else run_state m s)"
  by (simp add: unless_ok_def)

lemma for_each_append [simp]:
  "for_each (xs @ ys) f = do { for_each xs f; for_each ys f }"
  by (induction xs) simp_all

section \<open>State predicates an operation keeps\<close>

text \<open>
  \<open>keeps P m\<close>: running \<open>m\<close> from a state with \<open>P\<close> ends in a state with \<open>P\<close>.
  \<open>ignores u P\<close>: \<open>P\<close> does not look at the field that \<open>u\<close> updates. A component
  states once which fields its operations write, as a lemma that they keep every
  predicate that ignores those fields; frame conditions and invariants of the
  layers above are instances.
\<close>

definition keeps :: "('s \<Rightarrow> bool) \<Rightarrow> ('s, 'a) op \<Rightarrow> bool" where
  "keeps P m \<longleftrightarrow> (\<forall>s. P s \<longrightarrow> P (exec m s))"

definition ignores :: "(('a \<Rightarrow> 'a) \<Rightarrow> 's \<Rightarrow> 's) \<Rightarrow> ('s \<Rightarrow> bool) \<Rightarrow> bool" where
  "ignores u P \<longleftrightarrow> (\<forall>f s. P (u f s) = P s)"

lemma keepsD: "keeps P m \<Longrightarrow> P s \<Longrightarrow> P (exec m s)"
  by (simp add: keeps_def)

lemma keepsI: "(\<And>s. P s \<Longrightarrow> P (exec m s)) \<Longrightarrow> keeps P m"
  by (simp add: keeps_def)

text \<open>A field kept at every value is unchanged.\<close>

lemma keeps_field: "(\<And>v. keeps (\<lambda>s. f s = v) m) \<Longrightarrow> f (exec m s) = f s"
  by (simp add: keeps_def)

lemma ignoresD: "ignores u P \<Longrightarrow> P (u f s) = P s"
  by (simp add: ignores_def)

lemma keeps_ret [keeps_intro]: "keeps P (ret x)"
  by (simp add: keeps_def)

lemma keeps_bind [keeps_intro]:
  "keeps P m \<Longrightarrow> (\<And>a. keeps P (f a)) \<Longrightarrow> keeps P (m \<bind> f)"
  by (simp add: keeps_def split: prod.splits) (metis snd_conv)

lemma keeps_gets [keeps_intro]: "keeps P (gets f)"
  by (simp add: keeps_def)

lemma keeps_modify [keeps_intro]: "(\<And>s. P s \<Longrightarrow> P (f s)) \<Longrightarrow> keeps P (modify f)"
  by (simp add: keeps_def)

lemma keeps_if [keeps_intro]:
  "(b \<Longrightarrow> keeps P m) \<Longrightarrow> (\<not> b \<Longrightarrow> keeps P n) \<Longrightarrow> keeps P (if b then m else n)"
  by simp

lemma keeps_whenM [keeps_intro]: "(b \<Longrightarrow> keeps P m) \<Longrightarrow> keeps P (whenM b m)"
  by (simp add: whenM_def keeps_ret)

lemma keeps_unless_ok [keeps_intro]: "(err = ESP_OK \<Longrightarrow> keeps P m) \<Longrightarrow> keeps P (unless_ok err m)"
  by (simp add: unless_ok_def keeps_ret)

lemma keeps_for_each [keeps_intro]:
  "(\<And>x. x \<in> set xs \<Longrightarrow> keeps P (f x)) \<Longrightarrow> keeps P (for_each xs f)"
  by (induction xs) (auto intro!: keeps_intro)

lemma keeps_case_option [keeps_intro]:
  "(x = None \<Longrightarrow> keeps P m) \<Longrightarrow> (\<And>a. x = Some a \<Longrightarrow> keeps P (f a)) \<Longrightarrow>
   keeps P (case x of None \<Rightarrow> m | Some a \<Rightarrow> f a)"
  by (cases x) auto

lemma keeps_case_prod [keeps_intro]:
  "(\<And>a b. x = (a, b) \<Longrightarrow> keeps P (f a b)) \<Longrightarrow> keeps P (case x of (a, b) \<Rightarrow> f a b)"
  by (cases x) auto

lemma keeps_run_op [keeps_intro]: "keeps P m \<Longrightarrow> keeps_pop P (run_op m)"
  by (simp add: keeps_def keeps_pop_def) (metis snd_conv)

lemma keeps_then_pop [keeps_intro]:
  "keeps_pop P p \<Longrightarrow> (\<And>a. keeps_pop P (f a)) \<Longrightarrow> keeps_pop P (then_pop p f)"
  unfolding keeps_pop_def then_pop_Some by blast

lemma keeps_popD: "keeps_pop P p \<Longrightarrow> P s \<Longrightarrow> p s = Some (a, s') \<Longrightarrow> P s'"
  by (simp add: keeps_pop_def)

lemma keeps_pop_if [keeps_intro]:
  "(b \<Longrightarrow> keeps_pop P m) \<Longrightarrow> (\<not> b \<Longrightarrow> keeps_pop P n) \<Longrightarrow> keeps_pop P (if b then m else n)"
  by simp

text \<open>
  \<open>absorbs P c\<close>: the call \<open>c\<close> in the trace does not break \<open>P\<close>. \<open>absorbs_on C P\<close>: none
  of the calls in \<open>C\<close> does.
\<close>

definition absorbs :: "('x platform_scheme \<Rightarrow> bool) \<Rightarrow> call \<Rightarrow> bool" where
  "absorbs P c \<longleftrightarrow> (\<forall>s. P s \<longrightarrow> P (s\<lparr>trace := trace s @ [c]\<rparr>))"

definition absorbs_on :: "(call \<Rightarrow> bool) \<Rightarrow> ('x platform_scheme \<Rightarrow> bool) \<Rightarrow> bool" where
  "absorbs_on C P \<longleftrightarrow> (\<forall>c. C c \<longrightarrow> absorbs P c)"

lemma absorbs_onD: "absorbs_on C P \<Longrightarrow> C c \<Longrightarrow> absorbs P c"
  by (simp add: absorbs_on_def)

lemma absorbs_ignores: "ignores trace_update P \<Longrightarrow> absorbs P c"
  by (simp add: absorbs_def ignoresD)

lemma absorbs_on_ignores: "ignores trace_update P \<Longrightarrow> absorbs_on C P"
  by (simp add: absorbs_on_def absorbs_ignores)

lemma keeps_calls [keeps_intro]:
  assumes "absorbs P c"
  shows "keeps P (call_unit c)" "keeps P (call_err c)" "keeps P (call_int c)"
    "keeps P (call_bool c)" "keeps P (call_word c)" "keeps P (call_bytes c)"
    "keeps P (call_err_int c)" "keeps P (call_err_word c)" "keeps P (call_err_bytes c)"
    "keeps P (call_err_str c)" "keeps P (call_str c)" "keeps P (call_int_bytes c)" "keeps P (call_int_str c)"
  using assms by (simp_all add: keeps_def absorbs_def)

lemma ext_ask: "ext (exec (ask f c) s) = ext s"
  by (simp add: run_ask)

text \<open>The trace only grows.\<close>

definition grows :: "('x platform_scheme, 'a) op \<Rightarrow> bool" where
  "grows m \<longleftrightarrow> (\<forall>t. keeps (\<lambda>s. prefix t (trace s)) m)"

lemma growsI: "(\<And>t. keeps (\<lambda>s. prefix t (trace s)) m) \<Longrightarrow> grows m"
  by (simp add: grows_def)

lemma grows_prefix: "grows m \<Longrightarrow> prefix (trace s) (trace (exec m s))"
  by (simp add: grows_def keeps_def)

lemma absorbs_prefix: "absorbs (\<lambda>s. prefix t (trace s)) c"
  by (simp add: absorbs_def)

lemma absorbs_on_prefix: "absorbs_on C (\<lambda>s. prefix t (trace s))"
  by (simp add: absorbs_on_def absorbs_prefix)

lemma absorbs_ext: "absorbs (\<lambda>s. ext s = e) c"
  by (simp add: absorbs_def)

subsection \<open>Heap facts\<close>

lemma heap_wf_malloc [keeps_intro]:
  "keeps heap_wf (malloc_buf n v)" "keeps heap_wf (malloc_str v)"
  by (auto simp: keeps_def malloc_buf_def malloc_str_def heap_wf_def less_Suc_eq)

lemma heap_wf_free [keeps_intro]: "keeps heap_wf (free_str p)"
  by (auto simp: keeps_def free_str_def heap_wf_def)

lemma run_malloc_buf [run_simps]:
  "run_state (malloc_buf n v) s =
     (if bool_of (ext s) (trace s) (Mem (Malloc n))
      then (Some (next_ptr s), s\<lparr>trace := trace s @ [Mem (Malloc n)],
              heap := (heap s)(next_ptr s := Some v), next_ptr := Suc (next_ptr s)\<rparr>)
      else (None, s\<lparr>trace := trace s @ [Mem (Malloc n)]\<rparr>))"
  by (simp add: malloc_buf_def)

lemma run_malloc_str [run_simps]:
  "run_state (malloc_str v) s =
     (if bool_of (ext s) (trace s) (Mem (Malloc (length v + 1)))
      then (Some (next_ptr s), s\<lparr>trace := trace s @ [Mem (Malloc (length v + 1))],
              heap := (heap s)(next_ptr s := Some v), next_ptr := Suc (next_ptr s)\<rparr>)
      else (None, s\<lparr>trace := trace s @ [Mem (Malloc (length v + 1))]\<rparr>))"
  by (simp add: malloc_str_def run_malloc_buf)

lemma run_free_str [run_simps]:
  "run_state (free_str p) s =
     ((), if heap s p \<noteq> None
          then s\<lparr>trace := trace s @ [Mem (Free p)], heap := (heap s)(p := None)\<rparr>
          else s\<lparr>trace := trace s @ [Mem (Free p)], mem_fault := True\<rparr>)"
  by (simp add: free_str_def)

lemma run_read_str [run_simps]:
  "run_state (read_str p) s =
     (case heap s p of Some v \<Rightarrow> (v, s) | None \<Rightarrow> ([], s\<lparr>mem_fault := True\<rparr>))"
  by (simp add: read_str_def split: option.splits)

section \<open>Pre- and postconditions\<close>

text \<open>Where the result decides what holds afterwards; \<open>keeps P m\<close> is the special case
  where it does not.\<close>

definition triple :: "('s \<Rightarrow> bool) \<Rightarrow> ('s, 'a) op \<Rightarrow> ('a \<Rightarrow> 's \<Rightarrow> bool) \<Rightarrow> bool" where
  "triple P m Q \<longleftrightarrow> (\<forall>s. P s \<longrightarrow> Q (result m s) (exec m s))"

lemma tripleD: "triple P m Q \<Longrightarrow> P s \<Longrightarrow> run_state m s = (a, s') \<Longrightarrow> Q a s'"
  unfolding triple_def by (metis fst_conv snd_conv)

lemma triple_ret: "(\<And>s. P s \<Longrightarrow> Q x s) \<Longrightarrow> triple P (ret x) Q"
  by (simp add: triple_def)

lemma triple_bind: "triple P m R \<Longrightarrow> (\<And>a. triple (R a) (f a) Q) \<Longrightarrow> triple P (m \<bind> f) Q"
  by (simp add: triple_def split: prod.splits) (metis fst_conv snd_conv)

lemma triple_keeps: "keeps P m \<Longrightarrow> (\<And>a s. P s \<Longrightarrow> Q a s) \<Longrightarrow> triple P m Q"
  by (simp add: triple_def keeps_def)

lemma triple_bind_keeps: "keeps P m \<Longrightarrow> (\<And>a. triple P (f a) Q) \<Longrightarrow> triple P (m \<bind> f) Q"
  by (rule triple_bind [OF triple_keeps])

lemma triple_if:
  "(b \<Longrightarrow> triple P m Q) \<Longrightarrow> (\<not> b \<Longrightarrow> triple P n Q) \<Longrightarrow> triple P (if b then m else n) Q"
  by simp

lemma triple_case_prod:
  "(\<And>a b. x = (a, b) \<Longrightarrow> triple P (f a b) Q) \<Longrightarrow> triple P (case x of (a, b) \<Rightarrow> f a b) Q"
  by (cases x) auto

end
