(* ===== verification/I2c_Bus.thy ===== *)
theory I2c_Bus
  imports Platform
begin

text \<open>
  \<open>components/i2c_bus\<close>: the bus mutex and the single-byte PCF8574 transactions.
  A transaction is the command link the code builds, handed to
  \<open>i2c_master_cmd_begin\<close> as one call.

  \<open>mutex_mon\<close> reads a trace and tracks which of the two firmware mutexes is held;
  it turns false when a byte is written with the bus free, when a mutex is taken
  twice or given back unheld, or when the expander mutex is taken inside the bus
  mutex (the order that could deadlock).
\<close>

section \<open>State and operations\<close>

record i2c_bus = platform +
  bus_mutex :: bool

definition i2c_bus_init :: "('x i2c_bus_scheme, esp_err_t) op" where
  "i2c_bus_init = do {
     m \<leftarrow> gets bus_mutex;
     whenM (\<not> m) (do {
       h \<leftarrow> call_bool (Rtos (SemCreate BusMutex));
       modify (\<lambda>s. s\<lparr>bus_mutex := h\<rparr>)
     });
     err \<leftarrow> call_err (I2c I2cParamConfig);
     if err \<noteq> ESP_OK then ret err
     else do {
       err \<leftarrow> call_err (I2c I2cDriverInstall);
       if err \<noteq> ESP_OK then ret err else ret ESP_OK
     }
   }"

definition i2c_bus_pcf8574_write_byte :: "byte \<Rightarrow> byte \<Rightarrow> ('x i2c_bus_scheme, esp_err_t) op" where
  "i2c_bus_pcf8574_write_byte addr data =
     call_err (I2c (I2cCmdBegin [I2cStart, I2cWriteByte (push_bit 1 addr OR 0),
                                 I2cWriteByte data, I2cStop] 100))"

definition i2c_bus_pcf8574_read_byte :: "byte \<Rightarrow> ('x i2c_bus_scheme, esp_err_t \<times> byte) op" where
  "i2c_bus_pcf8574_read_byte addr = do {
     (err, w) \<leftarrow> call_err_word (I2c (I2cCmdBegin [I2cStart, I2cWriteByte (push_bit 1 addr OR 1),
                                                 I2cReadByte, I2cStop] 100));
     ret (err, ucast w)
   }"

definition i2c_bus_lock :: "('x i2c_bus_scheme, esp_err_t) op" where
  "i2c_bus_lock = do {
     m \<leftarrow> gets bus_mutex;
     if \<not> m then ret ESP_ERR_INVALID_STATE
     else do {
       ok \<leftarrow> call_bool (Rtos (SemTake BusMutex));
       ret (if ok then ESP_OK else ESP_FAIL)
     }
   }"

definition i2c_bus_unlock :: "('x i2c_bus_scheme, unit) op" where
  "i2c_bus_unlock = do {
     m \<leftarrow> gets bus_mutex;
     whenM m (call_unit (Rtos (SemGive BusMutex)))
   }"

section \<open>How they run\<close>

lemma run_write_byte [run_simps]:
  "run_state (i2c_bus_pcf8574_write_byte a d) s =
     (err_of (ext s) (trace s) (I2c (I2cCmdBegin [I2cStart, I2cWriteByte (push_bit 1 a),
                                 I2cWriteByte d, I2cStop] 100)),
      s\<lparr>trace := trace s @ [I2c (I2cCmdBegin [I2cStart, I2cWriteByte (push_bit 1 a),
                                 I2cWriteByte d, I2cStop] 100)]\<rparr>)"
  by (simp add: i2c_bus_pcf8574_write_byte_def)

lemma run_lock [run_simps]:
  "run_state i2c_bus_lock s =
     (if \<not> bus_mutex s then (ESP_ERR_INVALID_STATE, s)
      else (if bool_of (ext s) (trace s) (Rtos (SemTake BusMutex)) then ESP_OK else ESP_FAIL,
            s\<lparr>trace := trace s @ [Rtos (SemTake BusMutex)]\<rparr>))"
  by (simp add: i2c_bus_lock_def)

lemma run_unlock [run_simps]:
  "run_state i2c_bus_unlock s =
     ((), if bus_mutex s then s\<lparr>trace := trace s @ [Rtos (SemGive BusMutex)]\<rparr> else s)"
  by (simp add: i2c_bus_unlock_def)

section \<open>The mutex discipline\<close>

fun link_writes :: "i2c_op list \<Rightarrow> bool" where
  "link_writes [I2cStart, I2cWriteByte _, I2cWriteByte _, I2cStop] = True"
| "link_writes _ = False"

fun mutex_step :: "bool \<times> bool \<times> bool \<Rightarrow> call \<Rightarrow> bool \<times> bool \<times> bool" where
  "mutex_step (io, bus, ok) (Rtos (SemTake BusMutex)) = (io, True, ok \<and> \<not> bus)"
| "mutex_step (io, bus, ok) (Rtos (SemGive BusMutex)) = (io, False, ok \<and> bus)"
| "mutex_step (io, bus, ok) (Rtos (SemTake IoMutex)) = (True, bus, ok \<and> \<not> io \<and> \<not> bus)"
| "mutex_step (io, bus, ok) (Rtos (SemGive IoMutex)) = (False, bus, ok \<and> io)"
| "mutex_step (io, bus, ok) (I2c (I2cCmdBegin ops n)) = (io, bus, ok \<and> (link_writes ops \<longrightarrow> bus))"
| "mutex_step st _ = st"

text \<open>
  Calls to the operating system and the I2C driver that leave the mutexes (and the
  page carousel's timer, which only the carousel touches) alone.
\<close>

fun hw_neutral :: "call \<Rightarrow> bool" where
  "hw_neutral (Rtos (SemTake _)) = False"
| "hw_neutral (Rtos (SemGive _)) = False"
| "hw_neutral (Rtos (TimerStart ScrollTimer)) = False"
| "hw_neutral (Rtos (TimerStop ScrollTimer)) = False"
| "hw_neutral (Rtos (TimerReset ScrollTimer)) = False"
| "hw_neutral (Rtos _) = True"
| "hw_neutral (I2c (I2cCmdBegin ops _)) = (\<not> link_writes ops)"
| "hw_neutral (I2c _) = True"
| "hw_neutral _ = False"

lemma mutex_step_hw_neutral: "hw_neutral c \<Longrightarrow> mutex_step st c = st"
  by (cases "(st, c)" rule: mutex_step.cases) auto

definition mutex_mon :: "call list \<Rightarrow> bool \<times> bool \<times> bool" where
  "mutex_mon t = foldl mutex_step (False, False, True) t"

lemma mutex_mon_Nil [simp]: "mutex_mon [] = (False, False, True)"
  by (simp add: mutex_mon_def)

lemma mutex_mon_snoc [simp]: "mutex_mon (t @ [c]) = mutex_step (mutex_mon t) c"
  by (simp add: mutex_mon_def)

lemma mutex_mon_append: "mutex_mon (t @ u) = foldl mutex_step (mutex_mon t) u"
  by (simp add: mutex_mon_def)

text \<open>
  \<open>take_ok\<close>: \<open>xSemaphoreTake\<close> with \<open>portMAX_DELAY\<close> waits until it has the mutex and
  then returns \<open>pdPASS\<close>, as FreeRTOS documents.
\<close>

definition take_ok :: "ext_env \<Rightarrow> bool" where
  "take_ok e \<longleftrightarrow> (\<forall>h m. bool_of e h (Rtos (SemTake m)))"

definition bus_inv :: "'x i2c_bus_scheme \<Rightarrow> bool" where
  "bus_inv s \<longleftrightarrow> take_ok (ext s) \<and> bus_mutex s \<and> mutex_mon (trace s) = (False, False, True)"

definition i2c_ok :: "ext_env \<Rightarrow> bool" where
  "i2c_ok e \<longleftrightarrow> (\<forall>h c. err_of e h (I2c c) = ESP_OK)"

lemma absorbs_bus_inv: "absorbs_on hw_neutral bus_inv"
  by (simp add: absorbs_on_def absorbs_def bus_inv_def mutex_step_hw_neutral)

section \<open>Bytes written to a device\<close>

fun pcf_byte :: "byte \<Rightarrow> call \<Rightarrow> byte list" where
  "pcf_byte addr (I2c (I2cCmdBegin [I2cStart, I2cWriteByte a, I2cWriteByte d, I2cStop] _)) =
     (if a = push_bit 1 addr then [d] else [])"
| "pcf_byte addr _ = []"

definition pcf_writes :: "byte \<Rightarrow> call list \<Rightarrow> byte list" where
  "pcf_writes addr t = concat (map (pcf_byte addr) t)"

lemma pcf_writes_Nil [simp]: "pcf_writes a [] = []"
  by (simp add: pcf_writes_def)

lemma pcf_writes_Cons [simp]: "pcf_writes a (c # t) = pcf_byte a c @ pcf_writes a t"
  by (simp add: pcf_writes_def)

lemma pcf_writes_append [simp]: "pcf_writes a (t @ u) = pcf_writes a t @ pcf_writes a u"
  by (simp add: pcf_writes_def)

lemma hw_neutral_no_write: "hw_neutral c \<Longrightarrow> pcf_byte a c = []"
  by (cases "(a, c)" rule: pcf_byte.cases) auto

end
