(* ===== verification/Io_Expander.thy ===== *)
theory Io_Expander
  imports I2c_Bus
begin

text \<open>
  \<open>components/io_expander\<close>: the PCF8574 port expander. The shadow register holds
  the level of all eight pins; every change writes the whole byte, with the
  input pins forced high, under the expander mutex and then the bus mutex.

  The locale \<open>output_pins\<close> is what the indicator code relies on: setting a pin
  changes the level of that pin only.
\<close>

section \<open>State and operations\<close>

record io_expander = i2c_bus +
  port_shadow :: byte
  io_mutex :: bool

abbreviation (input) EXPANDER_ADDR :: byte where "EXPANDER_ADDR \<equiv> 0x20"
abbreviation (input) EXPANDER_INIT_PINS_MASK :: byte where "EXPANDER_INIT_PINS_MASK \<equiv> 0xE0"
abbreviation (input) EXPANDER_PORT_SHADOW :: byte where "EXPANDER_PORT_SHADOW \<equiv> 0xFF"

definition commit_to_hardware :: "('x io_expander_scheme, esp_err_t) op" where
  "commit_to_hardware = do {
     m \<leftarrow> gets io_mutex;
     if \<not> m then ret ESP_ERR_INVALID_STATE
     else do {
       sh \<leftarrow> gets port_shadow;
       i2c_bus_lock;
       err \<leftarrow> i2c_bus_pcf8574_write_byte EXPANDER_ADDR (sh OR EXPANDER_INIT_PINS_MASK);
       i2c_bus_unlock;
       ret err
     }
   }"

definition io_expander_init :: "('x io_expander_scheme, esp_err_t) op" where
  "io_expander_init = do {
     m \<leftarrow> call_bool (Rtos (SemCreate IoMutex));
     modify (\<lambda>s. s\<lparr>io_mutex := m\<rparr>);
     if \<not> m then ret ESP_FAIL
     else do {
       modify (\<lambda>s. s\<lparr>port_shadow := EXPANDER_PORT_SHADOW\<rparr>);
       call_bool (Rtos (SemTake IoMutex));
       err \<leftarrow> commit_to_hardware;
       call_unit (Rtos (SemGive IoMutex));
       if err \<noteq> ESP_OK then do {
         call_unit (Rtos (SemDelete IoMutex));
         modify (\<lambda>s. s\<lparr>io_mutex := False\<rparr>);
         ret err
       }
       else ret ESP_OK
     }
   }"

definition io_expander_set_level :: "nat \<Rightarrow> int \<Rightarrow> ('x io_expander_scheme, esp_err_t) op" where
  "io_expander_set_level pin level = do {
     m \<leftarrow> gets io_mutex;
     if \<not> m then ret ESP_ERR_INVALID_STATE
     else do {
       call_bool (Rtos (SemTake IoMutex));
       modify (\<lambda>s. s\<lparr>port_shadow :=
         (if level \<noteq> 0 then port_shadow s OR push_bit pin 1
          else port_shadow s AND NOT (push_bit pin 1))\<rparr>);
       err \<leftarrow> commit_to_hardware;
       call_unit (Rtos (SemGive IoMutex));
       ret err
     }
   }"

definition io_expander_get_level ::
  "nat \<Rightarrow> bool \<Rightarrow> ('x io_expander_scheme, esp_err_t \<times> byte option) op" where
  "io_expander_get_level pin level_ptr = do {
     m \<leftarrow> gets io_mutex;
     if \<not> m then ret (ESP_ERR_INVALID_STATE, None)
     else if \<not> level_ptr then ret (ESP_ERR_INVALID_ARG, None)
     else do {
       call_bool (Rtos (SemTake IoMutex));
       (err, val) \<leftarrow> i2c_bus_pcf8574_read_byte EXPANDER_ADDR;
       call_unit (Rtos (SemGive IoMutex));
       if err \<noteq> ESP_OK then ret (err, None)
       else ret (ESP_OK, Some (drop_bit pin val AND 1))
     }
   }"

section \<open>How they run\<close>

abbreviation expander_write :: "byte \<Rightarrow> call" where
  "expander_write d \<equiv> I2c (I2cCmdBegin [I2cStart, I2cWriteByte 0x40, I2cWriteByte d, I2cStop] 100)"

definition set_pin :: "nat \<Rightarrow> int \<Rightarrow> byte \<Rightarrow> byte" where
  "set_pin pin level sh =
     (if level \<noteq> 0 then sh OR push_bit pin 1 else sh AND NOT (push_bit pin 1))"

definition set_level_calls :: "bool \<Rightarrow> byte \<Rightarrow> call list" where
  "set_level_calls bus d =
     (if bus then [Rtos (SemTake IoMutex), Rtos (SemTake BusMutex), expander_write d,
                   Rtos (SemGive BusMutex), Rtos (SemGive IoMutex)]
      else [Rtos (SemTake IoMutex), expander_write d, Rtos (SemGive IoMutex)])"

lemma exec_set_level [run_simps]:
  "exec (io_expander_set_level p l) s =
     (if \<not> io_mutex s then s
      else s\<lparr>trace := trace s @ set_level_calls (bus_mutex s) (set_pin p l (port_shadow s) OR 0xE0),
             port_shadow := set_pin p l (port_shadow s)\<rparr>)"
  by (simp add: io_expander_set_level_def commit_to_hardware_def run_simps set_level_calls_def
      set_pin_def)

lemma set_level_keeps:
  assumes "ignores trace_update P" "ignores port_shadow_update P"
  shows "keeps P (io_expander_set_level p l)"
  using assms by (intro keepsI) (simp add: exec_set_level ignoresD)

section \<open>Pins\<close>

definition pin_level :: "'x io_expander_scheme \<Rightarrow> nat \<Rightarrow> bool" where
  "pin_level s p \<longleftrightarrow> bit (port_shadow s) p"

lemma bit_set_pin [bits_simps]:
  "bit (set_pin p l sh) q \<longleftrightarrow> (if q = p \<and> q < 8 then l \<noteq> 0 else bit sh q)"
proof (cases "q < 8")
  case True
  then show ?thesis
    by (auto simp: set_pin_def bit_or_iff bit_and_iff bit_not_iff bit_exp_iff)
next
  case False
  then have "\<not> bit (x :: byte) q" for x by (auto dest: bit_imp_le_length)
  with False show ?thesis by simp
qed

text \<open>
  A set of output pins driven one at a time. \<open>ready\<close>: the driver is initialised.
\<close>

locale output_pins =
  fixes set_level :: "nat \<Rightarrow> int \<Rightarrow> ('s, esp_err_t) op"
    and level :: "'s \<Rightarrow> nat \<Rightarrow> bool"
    and ready :: "'s \<Rightarrow> bool"
    and width :: nat
  assumes ready_set: "ready s \<Longrightarrow> ready (exec (set_level p l) s)"
    and level_set: "ready s \<Longrightarrow> p < width \<Longrightarrow>
          level (exec (set_level p l) s) q = (if q = p then l \<noteq> 0 else level s q)"
begin

text \<open>Driving a list of pins to one level sets those pins and no other.\<close>

lemma ready_drive: "ready s \<Longrightarrow> ready (exec (for_each ps (\<lambda>p. do { set_level p l; ret () })) s)"
proof (induction ps arbitrary: s)
  case Nil
  then show ?case by simp
next
  case (Cons p ps)
  then show ?case
    using Cons.IH [OF ready_set [OF Cons.prems]] by (simp add: case_prod_beta)
qed

lemma level_drive:
  assumes "ready s" "\<forall>p\<in>set ps. p < width"
  shows "level (exec (for_each ps (\<lambda>p. do { set_level p l; ret () })) s) q =
    (if q \<in> set ps then l \<noteq> 0 else level s q)"
  using assms
proof (induction ps arbitrary: s)
  case Nil
  then show ?case by simp
next
  case (Cons p ps)
  have "ready (exec (set_level p l) s)" using Cons.prems(1) by (rule ready_set)
  from Cons.IH [OF this] Cons.prems show ?case
    by (simp add: level_set case_prod_beta)
qed

text \<open>The last write to a pin decides its level.\<close>

lemma level_pulse:
  assumes "ready s" "p < width"
  shows "level (exec (do { set_level p a; set_level p b }) s) q =
    (if q = p then b \<noteq> 0 else level s q)"
  using assms by (simp add: level_set ready_set case_prod_beta)

end

interpretation expander: output_pins io_expander_set_level pin_level io_mutex 8
  by unfold_locales (auto simp: exec_set_level pin_level_def bits_simps)

section \<open>Invariants\<close>

text \<open>
  The byte last sent to the chip is the shadow register with the input pins high,
  and every byte ever sent has them high.
\<close>

definition expander_coherent :: "'x io_expander_scheme \<Rightarrow> bool" where
  "expander_coherent s \<longleftrightarrow>
     pcf_writes EXPANDER_ADDR (trace s) \<noteq> [] \<and>
     last (pcf_writes EXPANDER_ADDR (trace s)) = port_shadow s OR EXPANDER_INIT_PINS_MASK"

definition inputs_high :: "'x io_expander_scheme \<Rightarrow> bool" where
  "inputs_high s \<longleftrightarrow>
     (\<forall>d\<in>set (pcf_writes EXPANDER_ADDR (trace s)). d AND EXPANDER_INIT_PINS_MASK = EXPANDER_INIT_PINS_MASK)"

lemma mask_absorb [bits_simps]: "((d :: byte) OR 0xE0) AND 0xE0 = 0xE0"
  by (simp add: bit.disj_conj_distrib2 word_ao_absorbs)

lemma set_level_calls_writes [simp]:
  "pcf_writes EXPANDER_ADDR (set_level_calls bus d) = [d]"
  by (simp add: set_level_calls_def push_bit_eq_mult)

lemma absorbs_coherent: "absorbs_on hw_neutral expander_coherent"
  by (simp add: absorbs_on_def absorbs_def expander_coherent_def hw_neutral_no_write)

lemma absorbs_inputs_high: "absorbs_on hw_neutral inputs_high"
  by (simp add: absorbs_on_def absorbs_def inputs_high_def hw_neutral_no_write)

lemma coherent_set_level: "io_mutex s \<Longrightarrow> expander_coherent (exec (io_expander_set_level p l) s)"
  by (simp add: exec_set_level expander_coherent_def)

lemma keeps_coherent_set_level: "keeps expander_coherent (io_expander_set_level p l)"
  by (rule keepsI) (simp add: exec_set_level expander_coherent_def)

lemma keeps_inputs_high_set_level: "keeps inputs_high (io_expander_set_level p l)"
  by (rule keepsI) (auto simp: exec_set_level inputs_high_def bits_simps)

lemma keeps_bus_inv_set_level: "keeps bus_inv (io_expander_set_level p l)"
  by (rule keepsI) (simp add: exec_set_level bus_inv_def set_level_calls_def mutex_mon_append)

lemma init_coherent:
  assumes "result io_expander_init s = ESP_OK"
  shows "expander_coherent (exec io_expander_init s)" "io_mutex (exec io_expander_init s)"
    "port_shadow (exec io_expander_init s) = 0xFF"
  using assms
  by (auto simp: io_expander_init_def commit_to_hardware_def run_simps expander_coherent_def
      push_bit_eq_mult split: if_splits)

end
