(* ===== verification/Sys_Ind.thy ===== *)
theory Sys_Ind
  imports Io_Expander
begin

text \<open>
  \<open>components/sys_ind\<close>: the three LEDs, the LCD backlight and the buzzer, all on
  expander pins and all but the backlight active low. The buzzer and the LEDs are
  switched off by FreeRTOS timer callbacks; each callback and one round of the
  heartbeat task are operations of their own.
\<close>

section \<open>State and operations\<close>

record sys_ind = io_expander +
  is_error_state :: bool
  act_led_timer :: bool
  cmd_led_timer :: bool
  buzzer_timer :: bool
  buzzer_beep_counter :: int
  buzzer_state :: bool

abbreviation (input) PCF_PIN_OUT_LED_CMD :: nat where "PCF_PIN_OUT_LED_CMD \<equiv> 0"
abbreviation (input) PCF_PIN_OUT_LED_ETH_ACT :: nat where "PCF_PIN_OUT_LED_ETH_ACT \<equiv> 1"
abbreviation (input) PCF_PIN_OUT_LED_ETH_LINK :: nat where "PCF_PIN_OUT_LED_ETH_LINK \<equiv> 2"
abbreviation (input) PCF_PIN_OUT_LCD_BACKLIGHT :: nat where "PCF_PIN_OUT_LCD_BACKLIGHT \<equiv> 3"
abbreviation (input) PCF_PIN_OUT_BUZZER :: nat where "PCF_PIN_OUT_BUZZER \<equiv> 4"

abbreviation (input) LED_HOLD_TIME_MS :: nat where "LED_HOLD_TIME_MS \<equiv> 100"
abbreviation (input) LED_BLINK_HOLD_TIME_MS :: nat where "LED_BLINK_HOLD_TIME_MS \<equiv> 50"
abbreviation (input) LED_HEARTBEAT_TIME_MS :: nat where "LED_HEARTBEAT_TIME_MS \<equiv> 3000"
abbreviation (input) LED_HEARTBEAT_ERROR_MS :: nat where "LED_HEARTBEAT_ERROR_MS \<equiv> 200"
abbreviation (input) BUZZER_PERIOD_MS :: u32 where "BUZZER_PERIOD_MS \<equiv> 400"
abbreviation (input) CMD_LED_COUNT :: int where "CMD_LED_COUNT \<equiv> 2"
abbreviation (input) ERROR_LED_COUNT :: int where "ERROR_LED_COUNT \<equiv> 3"

definition ALL_LED_PINS :: "nat list" where
  "ALL_LED_PINS = [PCF_PIN_OUT_LED_CMD, PCF_PIN_OUT_LED_ETH_LINK, PCF_PIN_OUT_LED_ETH_ACT]"

definition sys_ind_led_set_state :: "nat \<Rightarrow> bool \<Rightarrow> ('x sys_ind_scheme, unit) op" where
  "sys_ind_led_set_state pin on = do {
     io_expander_set_level pin (if on then 0 else 1);
     ret ()
   }"

definition sys_ind_buzzer_set_state :: "bool \<Rightarrow> ('x sys_ind_scheme, unit) op" where
  "sys_ind_buzzer_set_state on = do {
     io_expander_set_level PCF_PIN_OUT_BUZZER (if on then 0 else 1);
     modify (\<lambda>s. s\<lparr>buzzer_state := on\<rparr>)
   }"

definition turn_off_led_callback :: "nat \<Rightarrow> ('x sys_ind_scheme, unit) op" where
  "turn_off_led_callback pcf_pin = do {
     e \<leftarrow> gets is_error_state;
     if pcf_pin = PCF_PIN_OUT_LED_CMD \<and> e then ret ()
     else sys_ind_led_set_state pcf_pin False
   }"

definition buzzer_callback :: "('x sys_ind_scheme, unit) op" where
  "buzzer_callback = do {
     c \<leftarrow> gets buzzer_beep_counter;
     if c > 0 then do {
       st \<leftarrow> gets buzzer_state;
       sys_ind_buzzer_set_state (\<not> st);
       modify (\<lambda>s. s\<lparr>buzzer_beep_counter := buzzer_beep_counter s - 1\<rparr>)
     }
     else do {
       call_unit (Rtos (TimerStop BuzzerTimer));
       sys_ind_buzzer_set_state False
     }
   }"

text \<open>One round of the \<open>while (1)\<close> loop of the heartbeat task.\<close>

definition sys_ind_led_heartbeat_round :: "('x sys_ind_scheme, unit) op" where
  "sys_ind_led_heartbeat_round = do {
     e \<leftarrow> gets is_error_state;
     if e then do {
       sys_ind_led_set_state PCF_PIN_OUT_LED_CMD True;
       vTaskDelay LED_HEARTBEAT_ERROR_MS;
       sys_ind_led_set_state PCF_PIN_OUT_LED_CMD False;
       vTaskDelay LED_HEARTBEAT_ERROR_MS
     }
     else do {
       active \<leftarrow> call_bool (Rtos (TimerIsActive CmdLedTimer));
       whenM (\<not> active) (do {
         sys_ind_led_set_state PCF_PIN_OUT_LED_CMD True;
         vTaskDelay LED_HOLD_TIME_MS;
         sys_ind_led_set_state PCF_PIN_OUT_LED_CMD False
       });
       vTaskDelay LED_HEARTBEAT_TIME_MS
     }
   }"

definition sys_ind_led_check :: "('x sys_ind_scheme, unit) op" where
  "sys_ind_led_check = do {
     for_each ALL_LED_PINS (\<lambda>p. sys_ind_led_set_state p True);
     vTaskDelay 500;
     for_each ALL_LED_PINS (\<lambda>p. sys_ind_led_set_state p False)
   }"

definition sys_ind_init :: "('x sys_ind_scheme, esp_err_t) op" where
  "sys_ind_init = do {
     a \<leftarrow> call_bool (Rtos (TimerCreate ActLedTimer LED_HOLD_TIME_MS False));
     modify (\<lambda>s. s\<lparr>act_led_timer := a\<rparr>);
     c \<leftarrow> call_bool (Rtos (TimerCreate CmdLedTimer LED_HOLD_TIME_MS False));
     modify (\<lambda>s. s\<lparr>cmd_led_timer := c\<rparr>);
     b \<leftarrow> call_bool (Rtos (TimerCreate BuzzerTimer 100 True));
     modify (\<lambda>s. s\<lparr>buzzer_timer := b\<rparr>);
     if \<not> a \<or> \<not> c \<or> \<not> b then ret ESP_ERR_NO_MEM
     else do {
       sys_ind_led_check;
       res \<leftarrow> call_bool (Rtos (TaskCreate ''led_heartbeat_task''));
       if \<not> res then ret ESP_ERR_NO_MEM else ret ESP_OK
     }
   }"

definition sys_ind_led_eth_set_link :: "bool \<Rightarrow> ('x sys_ind_scheme, unit) op" where
  "sys_ind_led_eth_set_link on = sys_ind_led_set_state PCF_PIN_OUT_LED_ETH_LINK on"

definition sys_ind_led_eth_packet_activity :: "('x sys_ind_scheme, unit) op" where
  "sys_ind_led_eth_packet_activity = do {
     t \<leftarrow> gets act_led_timer;
     whenM t (do {
       sys_ind_led_set_state PCF_PIN_OUT_LED_ETH_ACT True;
       call_unit (Rtos (TimerReset ActLedTimer))
     })
   }"

definition sys_ind_led_io_execution :: "int \<Rightarrow> ('x sys_ind_scheme, unit) op" where
  "sys_ind_led_io_execution count = do {
     call_unit (Rtos (TimerStop CmdLedTimer));
     for_each [0..<nat count] (\<lambda>_. do {
       sys_ind_led_set_state PCF_PIN_OUT_LED_CMD True;
       vTaskDelay LED_BLINK_HOLD_TIME_MS;
       sys_ind_led_set_state PCF_PIN_OUT_LED_CMD False;
       vTaskDelay LED_BLINK_HOLD_TIME_MS
     })
   }"

definition sys_ind_led_io_cmd_execution :: "('x sys_ind_scheme, unit) op" where
  "sys_ind_led_io_cmd_execution = sys_ind_led_io_execution CMD_LED_COUNT"

definition sys_ind_led_io_error_execution :: "('x sys_ind_scheme, unit) op" where
  "sys_ind_led_io_error_execution = sys_ind_led_io_execution ERROR_LED_COUNT"

definition sys_ind_set_error :: "bool \<Rightarrow> ('x sys_ind_scheme, unit) op" where
  "sys_ind_set_error active = modify (\<lambda>s. s\<lparr>is_error_state := active\<rparr>)"

definition sys_ind_lcd_backlight_set :: "bool \<Rightarrow> ('x sys_ind_scheme, unit) op" where
  "sys_ind_lcd_backlight_set on = do {
     io_expander_set_level PCF_PIN_OUT_LCD_BACKLIGHT (if on then 1 else 0);
     ret ()
   }"

definition sys_ind_buzzer_sound :: "int \<Rightarrow> u32 \<Rightarrow> ('x sys_ind_scheme, unit) op" where
  "sys_ind_buzzer_sound count period_ms = do {
     t \<leftarrow> gets buzzer_timer;
     if \<not> t then ret ()
     else do {
       call_unit (Rtos (TimerStop BuzzerTimer));
       modify (\<lambda>s. s\<lparr>buzzer_beep_counter := s32 (s32 (count * 2) - 1)\<rparr>);
       sys_ind_buzzer_set_state True;
       ok \<leftarrow> call_bool (Rtos (TimerChangePeriod BuzzerTimer (unat period_ms)));
       whenM (\<not> ok) (call_unit (Rtos (TimerReset BuzzerTimer)))
     }
   }"

definition sys_ind_fixed_buzzer_sound :: "int \<Rightarrow> ('x sys_ind_scheme, unit) op" where
  "sys_ind_fixed_buzzer_sound count = sys_ind_buzzer_sound count BUZZER_PERIOD_MS"

lemmas sys_ind_defs =
  sys_ind_led_set_state_def sys_ind_buzzer_set_state_def turn_off_led_callback_def
  buzzer_callback_def sys_ind_led_heartbeat_round_def sys_ind_led_check_def sys_ind_init_def
  sys_ind_led_eth_set_link_def sys_ind_led_eth_packet_activity_def sys_ind_led_io_execution_def
  sys_ind_led_io_cmd_execution_def sys_ind_led_io_error_execution_def sys_ind_set_error_def
  sys_ind_lcd_backlight_set_def sys_ind_buzzer_sound_def sys_ind_fixed_buzzer_sound_def

section \<open>What the operations keep\<close>

text \<open>
  What the indicator operations do to the machine they do through
  \<open>io_expander_set_level\<close> and through calls that leave the mutexes alone; of their
  own variables the LED operations write none.
\<close>

lemma sys_ind_led_keeps [keeps_intro]:
  assumes "absorbs_on hw_neutral P" "\<And>p l. keeps P (io_expander_set_level p l)"
  shows "keeps P (sys_ind_led_set_state p on)" "keeps P (turn_off_led_callback p)"
    "keeps P sys_ind_led_heartbeat_round" "keeps P sys_ind_led_check"
    "keeps P (sys_ind_led_eth_set_link on)" "keeps P sys_ind_led_eth_packet_activity"
    "keeps P (sys_ind_led_io_execution n)" "keeps P sys_ind_led_io_cmd_execution"
    "keeps P sys_ind_led_io_error_execution" "keeps P (sys_ind_lcd_backlight_set on)"
  using assms unfolding sys_ind_defs
  by (auto intro!: keeps_intro intro: absorbs_onD)

lemma sys_ind_buzzer_keeps [keeps_intro]:
  assumes "absorbs_on hw_neutral P" "\<And>p l. keeps P (io_expander_set_level p l)"
    "ignores buzzer_state_update P" "ignores buzzer_beep_counter_update P"
  shows "keeps P (sys_ind_buzzer_set_state on)" "keeps P buzzer_callback"
    "keeps P (sys_ind_buzzer_sound n t)" "keeps P (sys_ind_fixed_buzzer_sound n)"
  using assms unfolding sys_ind_defs
  by (auto intro!: keeps_intro intro: absorbs_onD simp: ignoresD)

lemma sys_ind_init_keeps [keeps_intro]:
  assumes "absorbs_on hw_neutral P" "\<And>p l. keeps P (io_expander_set_level p l)"
    "ignores act_led_timer_update P" "ignores cmd_led_timer_update P"
    "ignores buzzer_timer_update P"
  shows "keeps P sys_ind_init"
  using assms unfolding sys_ind_defs
  by (auto intro!: keeps_intro intro: absorbs_onD simp: ignoresD)

lemma sys_ind_set_error_keeps [keeps_intro]:
  "ignores is_error_state_update P \<Longrightarrow> keeps P (sys_ind_set_error b)"
  unfolding sys_ind_defs by (auto intro!: keeps_intro simp: ignoresD)

section \<open>Machine invariants under the indicator operations\<close>

lemmas machine_keeps =
  absorbs_coherent absorbs_inputs_high absorbs_bus_inv
  keeps_coherent_set_level keeps_inputs_high_set_level keeps_bus_inv_set_level

definition ind_fields_free :: "('x sys_ind_scheme \<Rightarrow> bool) \<Rightarrow> bool" where
  "ind_fields_free P \<longleftrightarrow>
     ignores is_error_state_update P \<and> ignores act_led_timer_update P \<and>
     ignores cmd_led_timer_update P \<and> ignores buzzer_timer_update P \<and>
     ignores buzzer_beep_counter_update P \<and> ignores buzzer_state_update P"

lemma machine_ind_fields_free:
  "ind_fields_free expander_coherent" "ind_fields_free inputs_high" "ind_fields_free bus_inv"
  by (simp_all add: ind_fields_free_def ignores_def expander_coherent_def inputs_high_def
      bus_inv_def)

text \<open>The operations other components and the timers call.\<close>

datatype ind_op =
    IndInit
  | IndLink bool
  | IndPacket
  | IndBlink int
  | IndSetError bool
  | IndBacklight bool
  | IndSound int u32
  | IndBuzzerTick
  | IndLedTimeout nat
  | IndHeartbeat

fun run_ind :: "ind_op \<Rightarrow> ('x sys_ind_scheme, unit) op" where
  "run_ind IndInit = do { sys_ind_init; ret () }"
| "run_ind (IndLink b) = sys_ind_led_eth_set_link b"
| "run_ind IndPacket = sys_ind_led_eth_packet_activity"
| "run_ind (IndBlink n) = sys_ind_led_io_execution n"
| "run_ind (IndSetError b) = sys_ind_set_error b"
| "run_ind (IndBacklight b) = sys_ind_lcd_backlight_set b"
| "run_ind (IndSound n t) = sys_ind_buzzer_sound n t"
| "run_ind IndBuzzerTick = buzzer_callback"
| "run_ind (IndLedTimeout p) = turn_off_led_callback p"
| "run_ind IndHeartbeat = sys_ind_led_heartbeat_round"

lemma run_ind_keeps [keeps_intro]:
  assumes "absorbs_on hw_neutral P" "\<And>p l. keeps P (io_expander_set_level p l)"
    and "ind_fields_free P"
  shows "keeps P (run_ind a)"
  using assms unfolding ind_fields_free_def by (cases a) (auto intro!: keeps_intro)

lemma ind_ops_keep_machine:
  assumes "P \<in> {expander_coherent, inputs_high, bus_inv}" and "P s"
  shows "P (exec (for_each as run_ind) s)"
proof (rule keepsD [OF keeps_for_each])
  fix a
  show "keeps P (run_ind a)"
    using assms(1)
    by (elim insertE emptyE) (simp_all add: run_ind_keeps machine_keeps machine_ind_fields_free)
qed (rule assms(2))

section \<open>The buzzer\<close>

text \<open>
  The buzzer as an abstract machine: whether it sounds and how many toggles are
  left; \<open>buzzer_tick\<close> is one expiry of its timer.
\<close>

definition buzzer_view :: "'x sys_ind_scheme \<Rightarrow> bool \<times> int" where
  "buzzer_view s = (buzzer_state s, buzzer_beep_counter s)"

fun buzzer_tick :: "bool \<times> int \<Rightarrow> bool \<times> int" where
  "buzzer_tick (st, c) = (if c > 0 then (\<not> st, c - 1) else (False, c))"

definition buzzer_ticks :: "nat \<Rightarrow> ('x sys_ind_scheme, unit) op" where
  "buzzer_ticks k = for_each [0..<k] (\<lambda>_. buzzer_callback)"

lemma exec_buzzer_set_state [run_simps]:
  "exec (sys_ind_buzzer_set_state on) s =
     (exec (io_expander_set_level 4 (if on then 0 else 1)) s)\<lparr>buzzer_state := on\<rparr>"
  by (simp add: sys_ind_buzzer_set_state_def case_prod_beta)

lemma buzzer_callback_view: "buzzer_view (exec buzzer_callback s) = buzzer_tick (buzzer_view s)"
  by (simp add: buzzer_callback_def buzzer_view_def run_simps case_prod_beta)

lemma buzzer_ticks_Suc: "exec (buzzer_ticks (Suc k)) s = exec buzzer_callback (exec (buzzer_ticks k) s)"
  by (simp add: buzzer_ticks_def case_prod_beta)

lemma buzzer_ticks_view: "buzzer_view (exec (buzzer_ticks k) s) = (buzzer_tick ^^ k) (buzzer_view s)"
proof (induction k)
  case 0
  then show ?case by (simp add: buzzer_ticks_def)
next
  case (Suc k)
  then show ?case by (simp add: buzzer_ticks_Suc buzzer_callback_view)
qed

lemma buzzer_sound_view:
  "buzzer_timer s \<Longrightarrow> 0 < n \<Longrightarrow> n < 2 ^ 30 \<Longrightarrow>
     buzzer_view (exec (sys_ind_buzzer_sound n t) s) = (True, n * 2 - 1)"
  by (simp add: sys_ind_buzzer_sound_def buzzer_view_def run_simps case_prod_beta s32_id)

lemma tick_iterate:
  assumes "int k \<le> 2 * n - 1"
  shows "(buzzer_tick ^^ k) (True, n * 2 - 1) = (even k, 2 * n - 1 - int k)"
  using assms by (induction k) auto

lemma tick_iterate_done: "(buzzer_tick ^^ k) (False, 0) = (False, 0)"
  by (induction k) auto

lemma buzzer_phases:
  assumes "0 < n" "n < 2 ^ 30" "buzzer_timer s"
  shows "buzzer_state (exec (buzzer_ticks k) (exec (sys_ind_buzzer_sound n t) s))
           \<longleftrightarrow> even k \<and> int k < 2 * n"
proof -
  have view: "buzzer_state (exec (buzzer_ticks k) (exec (sys_ind_buzzer_sound n t) s)) =
      fst ((buzzer_tick ^^ k) (True, n * 2 - 1))"
    using assms by (metis buzzer_sound_view buzzer_ticks_view buzzer_view_def fst_conv)
  show ?thesis
  proof (cases "int k \<le> 2 * n - 1")
    case True
    then show ?thesis by (simp add: view tick_iterate)
  next
    case False
    define m where "m = nat (2 * n - 1)"
    have m: "int m = 2 * n - 1" using assms(1) by (simp add: m_def)
    have odd: "odd m" using m by presburger
    obtain j where k: "k = j + m" using False m by (metis add.commute le_Suc_ex less_imp_le_nat
          not_le of_nat_less_iff)
    have "(buzzer_tick ^^ m) (True, n * 2 - 1) = (False, 0)"
      using tick_iterate [of m n] m odd by simp
    then have "fst ((buzzer_tick ^^ k) (True, n * 2 - 1)) = False"
      by (simp add: k funpow_add tick_iterate_done)
    with False show ?thesis by (simp add: view)
  qed
qed

lemma count_even: "length (filter even [0..<2 * n]) = n"
  by (induction n) auto

definition buzzer_pin_ok :: "'x sys_ind_scheme \<Rightarrow> bool" where
  "buzzer_pin_ok s \<longleftrightarrow> io_mutex s \<longrightarrow> (pin_level s 4 \<longleftrightarrow> \<not> buzzer_state s)"

lemma pin_buzzer_set_state:
  "io_mutex s \<Longrightarrow> pin_level (exec (sys_ind_buzzer_set_state on) s) 4 \<longleftrightarrow> \<not> on"
  by (simp add: run_simps pin_level_def bits_simps)

text \<open>The pin follows: it is low, on the chip and in the shadow register, while the buzzer is on.\<close>

definition buzzer_driven :: "'x sys_ind_scheme \<Rightarrow> bool" where
  "buzzer_driven s \<longleftrightarrow> io_mutex s \<and> pin_level s 4 = (\<not> buzzer_state s) \<and>
     bit (last (pcf_writes EXPANDER_ADDR (trace s))) 4 = (\<not> buzzer_state s)"

lemma set_state_driven:
  assumes "io_mutex s"
  shows "buzzer_driven (exec (sys_ind_buzzer_set_state on) s)"
proof -
  have "\<not> bit (0xE0 :: byte) 4" by simp
  then show ?thesis
    using assms by (simp add: buzzer_driven_def run_simps pin_level_def bits_simps bit_or_iff)
qed

lemma buzzer_callback_driven:
  assumes "io_mutex s"
  shows "buzzer_driven (exec buzzer_callback s)"
proof -
  have "buzzer_driven (u\<lparr>buzzer_beep_counter := c\<rparr>) = buzzer_driven u" for u :: "'a sys_ind_scheme" and c
    by (simp add: buzzer_driven_def pin_level_def)
  then show ?thesis using assms by (simp add: buzzer_callback_def case_prod_beta set_state_driven)
qed

lemma buzzer_sound_driven:
  "io_mutex s \<Longrightarrow> buzzer_timer s \<Longrightarrow> buzzer_driven (exec (sys_ind_buzzer_sound n t) s)"
  using set_state_driven [of "s\<lparr>trace := trace s @ [Rtos (TimerStop BuzzerTimer)],
      buzzer_beep_counter := s32 (s32 (n * 2) - 1)\<rparr>" True]
  by (simp add: sys_ind_buzzer_sound_def case_prod_beta buzzer_driven_def pin_level_def)

lemma buzzer_ticks_driven: "buzzer_driven s \<Longrightarrow> buzzer_driven (exec (buzzer_ticks k) s)"
proof (induction k)
  case 0
  then show ?case by (simp add: buzzer_ticks_def)
next
  case (Suc k)
  then have "io_mutex (exec (buzzer_ticks k) s)" by (simp add: buzzer_driven_def)
  then show ?case by (simp add: buzzer_ticks_Suc buzzer_callback_driven)
qed

section \<open>Blinking\<close>

lemma led_set_state_writes:
  assumes "io_mutex s"
  shows "exec (sys_ind_led_set_state p on) s =
     s\<lparr>trace := trace s @ set_level_calls (bus_mutex s)
                  (set_pin p (if on then 0 else 1) (port_shadow s) OR 0xE0),
       port_shadow := set_pin p (if on then 0 else 1) (port_shadow s)\<rparr>"
  using assms by (simp add: sys_ind_led_set_state_def case_prod_beta exec_set_level)

lemma set_pin_idem [bits_simps]:
  "set_pin p a (set_pin p b sh) = set_pin p a sh"
  by (rule bit_word_eqI) (simp add: bits_simps)

end
