(* ===== verification/Lcd_Driver.thy ===== *)
theory Lcd_Driver
  imports I2c_Bus
begin

text \<open>
  \<open>components/lcd_driver\<close>: an HD44780 character display behind a PCF8574
  backpack. A byte goes out as two nibbles, a nibble as three bytes on the
  backpack (data, data with the enable bit, data without it).

  \<open>lcd_decode\<close> is the receiving side as the display's data sheet defines it: a
  nibble is latched on the falling edge of the enable line, two nibbles make a
  byte, and the register-select line tells text from commands. \<open>lcd_screen\<close>
  interprets the received bytes as the display's memory. Both are the
  specification the driver is checked against.
\<close>

section \<open>Operations\<close>

abbreviation (input) LCD_RS_BIT :: byte where "LCD_RS_BIT \<equiv> 0x01"
abbreviation (input) LCD_EN_BIT :: byte where "LCD_EN_BIT \<equiv> 0x04"
abbreviation (input) LCD_BL_BIT :: byte where "LCD_BL_BIT \<equiv> 0x08"
abbreviation (input) LCD_I2C_ADDR :: byte where "LCD_I2C_ADDR \<equiv> 0x27"

definition lcd_driver_write_nibble :: "byte \<Rightarrow> byte \<Rightarrow> ('x i2c_bus_scheme, esp_err_t) op" where
  "lcd_driver_write_nibble nibble mode = do {
     let data = (nibble AND 0xF0) OR mode OR LCD_BL_BIT;
     err \<leftarrow> i2c_bus_lock;
     err \<leftarrow> (if err = ESP_OK then do {
         err \<leftarrow> i2c_bus_pcf8574_write_byte LCD_I2C_ADDR data;
         err \<leftarrow> (if err = ESP_OK then i2c_bus_pcf8574_write_byte LCD_I2C_ADDR (data OR LCD_EN_BIT)
                else ret err);
         err \<leftarrow> (if err = ESP_OK then do {
             call_unit (Rtos (DelayUs 1));
             i2c_bus_pcf8574_write_byte LCD_I2C_ADDR (data AND NOT LCD_EN_BIT)
           }
           else ret err);
         i2c_bus_unlock;
         ret err
       }
       else ret err);
     call_unit (Rtos (DelayUs 20));
     ret err
   }"

definition lcd_driver_send_byte :: "byte \<Rightarrow> byte \<Rightarrow> ('x i2c_bus_scheme, esp_err_t) op" where
  "lcd_driver_send_byte val mode = do {
     err \<leftarrow> lcd_driver_write_nibble (val AND 0xF0) mode;
     if err \<noteq> ESP_OK then ret err
     else lcd_driver_write_nibble (push_bit 4 val AND 0xF0) mode
   }"

definition lcd_driver_cmd :: "byte \<Rightarrow> ('x i2c_bus_scheme, esp_err_t) op" where
  "lcd_driver_cmd cmd = lcd_driver_send_byte cmd 0"

text \<open>The loop shared by \<open>lcd_driver_print\<close> and \<open>lcd_driver_create_char\<close>: stop at the first error.\<close>

fun lcd_send_data :: "byte list \<Rightarrow> ('x i2c_bus_scheme, esp_err_t) op" where
  "lcd_send_data [] = ret ESP_OK"
| "lcd_send_data (b # bs) = do {
     err \<leftarrow> lcd_driver_send_byte b LCD_RS_BIT;
     if err \<noteq> ESP_OK then ret err else lcd_send_data bs
   }"

definition lcd_driver_print :: "string \<Rightarrow> ('x i2c_bus_scheme, esp_err_t) op" where
  "lcd_driver_print str = lcd_send_data (bytes_of_string str)"

definition lcd_driver_clear :: "('x i2c_bus_scheme, esp_err_t) op" where
  "lcd_driver_clear = do {
     err \<leftarrow> lcd_driver_cmd 0x01;
     vTaskDelay 2;
     ret err
   }"

definition lcd_driver_set_cursor :: "byte \<Rightarrow> byte \<Rightarrow> ('x i2c_bus_scheme, esp_err_t) op" where
  "lcd_driver_set_cursor col row =
     (let row_offsets = [0x00, 0x40, 0x14, 0x54 :: byte];
          row = (if row > 1 then 1 else row)
      in lcd_driver_cmd (0x80 OR (col + row_offsets ! unat row)))"

definition lcd_driver_create_char :: "byte \<Rightarrow> byte list \<Rightarrow> ('x i2c_bus_scheme, esp_err_t) op" where
  "lcd_driver_create_char location charmap = do {
     let location = location AND 0x7;
     err \<leftarrow> lcd_driver_cmd (0x40 OR push_bit 3 location);
     if err \<noteq> ESP_OK then ret err
     else lcd_send_data (take 8 charmap)
   }"

definition lcd_driver_init :: "('x i2c_bus_scheme, esp_err_t) op" where
  "lcd_driver_init = do {
     vTaskDelay 50;
     err \<leftarrow> lcd_driver_write_nibble 0x30 0;
     if err \<noteq> ESP_OK then ret err
     else do {
       vTaskDelay 5;
       err \<leftarrow> lcd_driver_write_nibble 0x30 0;
       if err \<noteq> ESP_OK then ret err
       else do {
         vTaskDelay 1;
         err \<leftarrow> lcd_driver_write_nibble 0x30 0;
         if err \<noteq> ESP_OK then ret err
         else do {
           vTaskDelay 1;
           err \<leftarrow> lcd_driver_write_nibble 0x20 0;
           lcd_driver_cmd 0x28;
           lcd_driver_cmd 0x08;
           lcd_driver_clear;
           lcd_driver_cmd 0x06;
           lcd_driver_cmd 0x0C;
           ret ESP_OK
         }
       }
     }
   }"

section \<open>What the operations keep\<close>

lemma lcd_send_data_keeps:
  assumes "\<And>n m. keeps P (lcd_driver_write_nibble n m)"
  shows "keeps P (lcd_send_data bs)"
  using assms by (induction bs) (auto intro!: keeps_intro simp: lcd_driver_send_byte_def)

lemma lcd_keeps [keeps_intro]:
  assumes "absorbs_on hw_neutral P" "\<And>n m. keeps P (lcd_driver_write_nibble n m)"
  shows "keeps P (lcd_driver_send_byte v m)" "keeps P (lcd_driver_cmd v)"
    "keeps P (lcd_driver_print str)" "keeps P lcd_driver_clear"
    "keeps P (lcd_driver_set_cursor col row)" "keeps P (lcd_driver_create_char v bs)"
    "keeps P lcd_driver_init"
  using assms
  unfolding lcd_driver_send_byte_def lcd_driver_cmd_def lcd_driver_print_def lcd_driver_clear_def
    lcd_driver_set_cursor_def lcd_driver_create_char_def lcd_driver_init_def Let_def
  by (auto intro!: keeps_intro lcd_send_data_keeps intro: absorbs_onD)

section \<open>What reaches the backpack\<close>

abbreviation lcd_write :: "byte \<Rightarrow> call" where
  "lcd_write d \<equiv> I2c (I2cCmdBegin [I2cStart, I2cWriteByte 0x4E, I2cWriteByte d, I2cStop] 100)"

definition lcd_ready :: "'x i2c_bus_scheme \<Rightarrow> bool" where
  "lcd_ready s \<longleftrightarrow> i2c_ok (ext s) \<and> take_ok (ext s) \<and> bus_mutex s"

definition nibble_data :: "byte \<Rightarrow> byte \<Rightarrow> byte" where
  "nibble_data n m = (n AND 0xF0) OR m OR 0x08"

definition nibble_calls :: "byte \<Rightarrow> call list" where
  "nibble_calls d =
     [Rtos (SemTake BusMutex), lcd_write d, lcd_write (d OR 4), Rtos (DelayUs 1),
      lcd_write (d AND NOT 4), Rtos (SemGive BusMutex), Rtos (DelayUs 20)]"

definition byte_calls :: "byte \<Rightarrow> byte \<Rightarrow> call list" where
  "byte_calls v m = nibble_calls (nibble_data (v AND 0xF0) m) @
     nibble_calls (nibble_data (push_bit 4 v AND 0xF0) m)"

definition data_calls :: "byte list \<Rightarrow> call list" where
  "data_calls bs = concat (map (\<lambda>b. byte_calls b 1) bs)"

lemma lcd_ready_trace [simp]: "lcd_ready (s\<lparr>trace := t\<rparr>) = lcd_ready s"
  by (simp add: lcd_ready_def)

lemma i2c_ok_err: "i2c_ok e \<Longrightarrow> err_of e h (I2c c) = 0"
  by (simp add: i2c_ok_def)

lemma take_ok_bool: "take_ok e \<Longrightarrow> bool_of e h (Rtos (SemTake m))"
  by (simp add: take_ok_def)

lemma run_write_nibble:
  assumes "lcd_ready s"
  shows "run_state (lcd_driver_write_nibble n m) s =
    (ESP_OK, s\<lparr>trace := trace s @ nibble_calls (nibble_data n m)\<rparr>)"
  using assms
  by (simp add: lcd_driver_write_nibble_def run_simps lcd_ready_def i2c_ok_err take_ok_bool
      nibble_calls_def nibble_data_def Let_def)

lemma run_send_byte:
  assumes "lcd_ready s"
  shows "run_state (lcd_driver_send_byte v m) s =
    (ESP_OK, s\<lparr>trace := trace s @ byte_calls v m\<rparr>)"
  using assms by (simp add: lcd_driver_send_byte_def run_write_nibble byte_calls_def)

lemma run_lcd_cmd:
  "lcd_ready s \<Longrightarrow> run_state (lcd_driver_cmd v) s = (ESP_OK, s\<lparr>trace := trace s @ byte_calls v 0\<rparr>)"
  by (simp add: lcd_driver_cmd_def run_send_byte)

lemma run_send_data:
  assumes "lcd_ready s"
  shows "run_state (lcd_send_data bs) s = (ESP_OK, s\<lparr>trace := trace s @ data_calls bs\<rparr>)"
  using assms
proof (induction bs arbitrary: s)
  case Nil
  then show ?case by (simp add: data_calls_def)
next
  case (Cons b bs)
  have "lcd_ready (s\<lparr>trace := trace s @ byte_calls b 1\<rparr>)" using Cons.prems by simp
  from Cons.IH [OF this] Cons.prems show ?case
    by (simp add: run_send_byte data_calls_def)
qed

lemma run_lcd_print:
  "lcd_ready s \<Longrightarrow> run_state (lcd_driver_print str) s =
     (ESP_OK, s\<lparr>trace := trace s @ data_calls (bytes_of_string str)\<rparr>)"
  by (simp add: lcd_driver_print_def run_send_data)

lemma run_lcd_clear:
  "lcd_ready s \<Longrightarrow> run_state lcd_driver_clear s =
     (ESP_OK, s\<lparr>trace := trace s @ byte_calls 1 0 @ [Rtos (TaskDelay 2)]\<rparr>)"
  by (simp add: lcd_driver_clear_def run_lcd_cmd)

definition cursor_addr :: "byte \<Rightarrow> byte \<Rightarrow> byte" where
  "cursor_addr col row = 0x80 OR (col + (if row = 0 then 0x00 else 0x40))"

lemma run_lcd_set_cursor:
  "lcd_ready s \<Longrightarrow> run_state (lcd_driver_set_cursor col row) s =
     (ESP_OK, s\<lparr>trace := trace s @ byte_calls (cursor_addr col row) 0\<rparr>)"
proof -
  assume r: "lcd_ready s"
  have "row > 1 \<or> row = 0 \<or> row = 1"
    by (metis less_one linorder_less_linear word_less_1 word_neq_0_conv)
  then show ?thesis
    using r by (elim disjE) (auto simp: lcd_driver_set_cursor_def run_lcd_cmd cursor_addr_def)
qed

section \<open>The display's side\<close>

fun latches :: "byte list \<Rightarrow> (bool \<times> byte) list" where
  "latches (x # y # r) =
     (if bit x 2 \<and> \<not> bit y 2 then (bit x 0, x AND 0xF0) # latches (y # r) else latches (y # r))"
| "latches _ = []"

fun join_nibbles :: "(bool \<times> byte) list \<Rightarrow> (bool \<times> byte) list" where
  "join_nibbles ((rs, h) # (_, l) # r) = (rs, h OR drop_bit 4 l) # join_nibbles r"
| "join_nibbles _ = []"

definition lcd_decode :: "byte list \<Rightarrow> (bool \<times> byte) list" where
  "lcd_decode ws = join_nibbles (latches ws)"

text \<open>Between whole bytes: the enable line is low and no single nibble is pending.\<close>

definition lcd_sync :: "byte list \<Rightarrow> bool" where
  "lcd_sync ws \<longleftrightarrow> (ws = [] \<or> \<not> bit (last ws) 2) \<and> even (length (latches ws))"

lemma latches_low: "\<not> bit x 2 \<Longrightarrow> latches (x # ws) = latches ws"
  by (cases ws) simp_all

lemma latches_append: "ws = [] \<or> \<not> bit (last ws) 2 \<Longrightarrow> latches (ws @ vs) = latches ws @ latches vs"
proof (induction ws rule: latches.induct)
  case (1 x y r)
  then show ?case by auto
next
  case "2_1"
  then show ?case by simp
next
  case third: "2_2"
  then show ?case by (simp add: latches_low)
qed

lemma join_nibbles_append:
  "even (length xs) \<Longrightarrow> join_nibbles (xs @ ys) = join_nibbles xs @ join_nibbles ys"
  by (induction xs rule: join_nibbles.induct) auto

lemma lcd_decode_append: "lcd_sync ws \<Longrightarrow> lcd_decode (ws @ vs) = lcd_decode ws @ lcd_decode vs"
  by (simp add: lcd_decode_def lcd_sync_def latches_append join_nibbles_append)

lemma lcd_sync_append: "lcd_sync ws \<Longrightarrow> lcd_sync vs \<Longrightarrow> lcd_sync (ws @ vs)"
  by (auto simp: lcd_sync_def latches_append last_append)

lemma lcd_sync_Nil [simp]: "lcd_sync []"
  by (simp add: lcd_sync_def)

lemma lcd_decode_Nil [simp]: "lcd_decode [] = []"
  by (simp add: lcd_decode_def)

abbreviation lcd_writes :: "call list \<Rightarrow> byte list" where
  "lcd_writes t \<equiv> pcf_writes 0x27 t"

lemma byte_bits: "(n :: nat) < 8 \<Longrightarrow> n \<in> {0, 1, 2, 3, 4, 5, 6, 7}"
  by auto

lemma bit_byte_masks:
  "bit (0xF0 :: byte) n \<longleftrightarrow> n \<in> {4, 5, 6, 7}"
  "bit (0x0F :: byte) n \<longleftrightarrow> n \<in> {0, 1, 2, 3}"
  "bit (- 5 :: byte) n \<longleftrightarrow> n \<in> {0, 1, 3, 4, 5, 6, 7}"
proof -
  have "n < 8 \<Longrightarrow> (bit (0xF0 :: byte) n \<longleftrightarrow> n \<in> {4, 5, 6, 7}) \<and>
      (bit (0x0F :: byte) n \<longleftrightarrow> n \<in> {0, 1, 2, 3}) \<and>
      (bit (- 5 :: byte) n \<longleftrightarrow> n \<in> {0, 1, 3, 4, 5, 6, 7})"
    by (drule byte_bits, elim insertE emptyE) simp_all
  moreover have "\<not> n < 8 \<Longrightarrow> \<not> bit (x :: byte) n" for x
    by (auto dest: bit_imp_le_length)
  ultimately show
    "bit (0xF0 :: byte) n \<longleftrightarrow> n \<in> {4, 5, 6, 7}"
    "bit (0x0F :: byte) n \<longleftrightarrow> n \<in> {0, 1, 2, 3}"
    "bit (- 5 :: byte) n \<longleftrightarrow> n \<in> {0, 1, 3, 4, 5, 6, 7}"
    by (cases "n < 8"; auto)+
qed

lemma nibble_writes: "lcd_writes (nibble_calls d) = [d, d OR 4, d AND NOT 4]"
  by (simp add: nibble_calls_def push_bit_eq_mult)

lemma nibble_latch:
  assumes "m \<in> {0, 1}"
  shows "latches [nibble_data n m, nibble_data n m OR 4, nibble_data n m AND NOT 4] =
    [(m = 1, n AND 0xF0)]"
proof -
  let ?d = "nibble_data n m"
  have low: "\<not> bit ?d 2" "\<not> bit (?d AND NOT 4) 2" "bit (?d OR 4) 2"
    using assms by (auto simp: nibble_data_def bit_or_iff bit_and_iff bit_not_iff bit_byte_masks)
  have rs: "bit (?d OR 4) 0 \<longleftrightarrow> m = 1"
    using assms by (auto simp: nibble_data_def bit_or_iff bit_and_iff bit_byte_masks)
  have hi: "(?d OR 4) AND 0xF0 = n AND 0xF0"
  proof (rule bit_word_eqI)
    fix i assume i: "i < LENGTH(8)"
    then have "i \<in> {0, 1, 2, 3, 4, 5, 6, 7}" by (intro byte_bits) simp
    then show "bit ((?d OR 4) AND 0xF0) i = bit (n AND 0xF0) i"
      using assms by (elim insertE emptyE)
        (auto simp: nibble_data_def bit_or_iff bit_and_iff bit_byte_masks)
  qed
  show ?thesis using low rs hi by simp
qed

lemma nibbles_join: "v AND 0xF0 OR drop_bit 4 (push_bit 4 v) AND 0x0F = (v :: byte)"
proof (rule bit_word_eqI)
  fix i assume "i < LENGTH(8)"
  then have "i \<in> {0, 1, 2, 3, 4, 5, 6, 7}" by (intro byte_bits) simp
  then show "bit (v AND 0xF0 OR drop_bit 4 (push_bit 4 v) AND 0x0F) i = bit v i"
    by (elim insertE emptyE)
      (simp_all add: bit_or_iff bit_and_iff bit_drop_bit_eq bit_push_bit_iff bit_byte_masks)
qed

lemma nibble_low: "m \<in> {0, 1} \<Longrightarrow> \<not> bit (nibble_data n m AND NOT 4) 2"
  by (simp add: bit_and_iff bit_byte_masks)

lemma byte_writes_latches:
  assumes "m \<in> {0, 1}"
  shows "latches (lcd_writes (byte_calls v m)) =
    [(m = 1, (v AND 0xF0) AND 0xF0), (m = 1, (push_bit 4 v AND 0xF0) AND 0xF0)]"
proof -
  let ?a = "nibble_data (v AND 0xF0) m" and ?b = "nibble_data (push_bit 4 v AND 0xF0) m"
  have "latches ([?a, ?a OR 4, ?a AND NOT 4] @ [?b, ?b OR 4, ?b AND NOT 4]) =
      latches [?a, ?a OR 4, ?a AND NOT 4] @ latches [?b, ?b OR 4, ?b AND NOT 4]"
    using nibble_low [OF assms] by (intro latches_append) simp
  then show ?thesis
    unfolding byte_calls_def pcf_writes_append nibble_writes
    by (simp only: nibble_latch [OF assms] append.simps)
qed

lemma byte_writes_decode:
  assumes "m \<in> {0, 1}"
  shows "lcd_decode (lcd_writes (byte_calls v m)) = [(m = 1, v)]"
  by (simp add: lcd_decode_def byte_writes_latches [OF assms] nibbles_join)

lemma byte_writes_sync: "m \<in> {0, 1} \<Longrightarrow> lcd_sync (lcd_writes (byte_calls v m))"
  unfolding lcd_sync_def byte_writes_latches
  using nibble_low [of m] by (simp add: byte_calls_def nibble_writes)

lemma data_writes_sync: "lcd_sync (lcd_writes (data_calls bs))"
proof (induction bs)
  case Nil
  then show ?case by (simp add: data_calls_def)
next
  case (Cons b bs)
  have "lcd_sync (lcd_writes (byte_calls b 1) @ lcd_writes (data_calls bs))"
    by (rule lcd_sync_append [OF byte_writes_sync Cons.IH]) simp
  then show ?case by (simp add: data_calls_def)
qed

lemma data_writes_decode: "lcd_decode (lcd_writes (data_calls bs)) = map (Pair True) bs"
proof (induction bs)
  case Nil
  then show ?case by (simp add: data_calls_def)
next
  case (Cons b bs)
  have "lcd_decode (lcd_writes (byte_calls b 1) @ lcd_writes (data_calls bs)) =
      (True, b) # map (Pair True) bs"
    by (subst lcd_decode_append [OF byte_writes_sync])
      (simp_all add: byte_writes_decode Cons.IH)
  then show ?case by (simp add: data_calls_def)
qed

section \<open>The display's memory\<close>

text \<open>
  The HD44780 as its data sheet describes it, for the commands the driver sends:
  set DDRAM address, set CGRAM address, clear; other commands do not change what
  is shown. Row 0 starts at address 0, row 1 at address 0x40.
\<close>

record lcd =
  ddram :: "nat \<Rightarrow> byte"
  addr :: nat
  cgram_mode :: bool

definition lcd_blank :: lcd where
  "lcd_blank = \<lparr>ddram = (\<lambda>_. 0x20), addr = 0, cgram_mode = False\<rparr>"

fun lcd_apply :: "lcd \<Rightarrow> bool \<times> byte \<Rightarrow> lcd" where
  "lcd_apply l (True, v) =
     (if cgram_mode l then l
      else l\<lparr>ddram := (ddram l)(addr l := v), addr := (addr l + 1) mod 128\<rparr>)"
| "lcd_apply l (False, v) =
     (if bit v 7 then l\<lparr>addr := unat (v AND 0x7F), cgram_mode := False\<rparr>
      else if bit v 6 then l\<lparr>cgram_mode := True\<rparr>
      else if v = 1 then lcd_blank
      else l)"

definition lcd_screen :: "call list \<Rightarrow> lcd" where
  "lcd_screen t = foldl lcd_apply lcd_blank (lcd_decode (lcd_writes t))"

definition lcd_row :: "lcd \<Rightarrow> nat \<Rightarrow> byte list" where
  "lcd_row l r = map (\<lambda>i. ddram l (r * 0x40 + i)) [0..<16]"

definition screen_row :: "call list \<Rightarrow> nat \<Rightarrow> byte list" where
  "screen_row t r = lcd_row (lcd_screen t) r"

abbreviation trace_sync :: "call list \<Rightarrow> bool" where
  "trace_sync t \<equiv> lcd_sync (lcd_writes t)"

definition line_calls :: "nat \<Rightarrow> string \<Rightarrow> call list" where
  "line_calls r str =
     byte_calls (cursor_addr 0 (word_of_nat r)) 0 @ data_calls (bytes_of_string str)"

lemma lcd_screen_append:
  "trace_sync t \<Longrightarrow> lcd_screen (t @ u) = foldl lcd_apply (lcd_screen t) (lcd_decode (lcd_writes u))"
  by (simp add: lcd_screen_def lcd_decode_append)

lemma trace_sync_quiet: "pcf_byte 0x27 c = [] \<Longrightarrow> trace_sync (t @ [c]) = trace_sync t"
  by simp

lemma screen_row_quiet: "pcf_byte 0x27 c = [] \<Longrightarrow> screen_row (t @ [c]) r = screen_row t r"
  by (simp add: screen_row_def lcd_screen_def)

lemma apply_text:
  assumes "\<not> cgram_mode l" "addr l + length bs < 128"
  shows "ddram (foldl lcd_apply l (map (Pair True) bs)) a =
    (if addr l \<le> a \<and> a < addr l + length bs then bs ! (a - addr l) else ddram l a)"
  using assms
proof (induction bs arbitrary: l)
  case Nil
  then show ?case by auto
next
  case (Cons b bs)
  let ?l = "l\<lparr>ddram := (ddram l)(addr l := b), addr := addr l + 1\<rparr>"
  have "lcd_apply l (True, b) = ?l" using Cons.prems by simp
  then have "ddram (foldl lcd_apply l (map (Pair True) (b # bs))) a =
      ddram (foldl lcd_apply ?l (map (Pair True) bs)) a"
    by simp
  also have "\<dots> = (if addr l < a \<and> a \<le> addr l + length bs then bs ! (a - addr l - 1)
      else ((ddram l)(addr l := b)) a)"
    using Cons.prems by (subst Cons.IH) auto
  finally show ?case by (auto simp: nth_Cons')
qed

lemma apply_cursor:
  assumes "r < 2"
  shows "lcd_apply l (False, cursor_addr 0 (word_of_nat r)) =
    l\<lparr>addr := r * 0x40, cgram_mode := False\<rparr>"
proof -
  from assms have "r = 0 \<or> r = 1" by auto
  then show ?thesis by (auto simp: cursor_addr_def)
qed

lemma line_calls_decode:
  "lcd_decode (lcd_writes (line_calls r str)) =
     (False, cursor_addr 0 (word_of_nat r)) # map (Pair True) (bytes_of_string str)"
  unfolding line_calls_def pcf_writes_append
  by (subst lcd_decode_append [OF byte_writes_sync]) (simp_all add: byte_writes_decode data_writes_decode)

lemma trace_sync_line: "trace_sync t \<Longrightarrow> trace_sync (t @ line_calls r str)"
  unfolding line_calls_def pcf_writes_append
  by (intro lcd_sync_append byte_writes_sync data_writes_sync) simp_all

lemma trace_sync_byte: "trace_sync t \<Longrightarrow> m \<in> {0, 1} \<Longrightarrow> trace_sync (t @ byte_calls v m)"
  unfolding pcf_writes_append by (intro lcd_sync_append byte_writes_sync) simp_all

text \<open>Writing a line of sixteen characters replaces exactly that row of the display.\<close>

lemma screen_row_line:
  assumes "trace_sync t" "r < 2" "r' < 2" "length str = 16"
  shows "screen_row (t @ line_calls r str) r' =
    (if r' = r then bytes_of_string str else screen_row t r')"
proof -
  let ?l = "(lcd_screen t)\<lparr>addr := r * 0x40, cgram_mode := False\<rparr>"
  have "lcd_screen (t @ line_calls r str) = foldl lcd_apply ?l (map (Pair True) (bytes_of_string str))"
    using assms by (simp add: lcd_screen_append line_calls_decode apply_cursor del: lcd_apply.simps)
  then have scr: "ddram (lcd_screen (t @ line_calls r str)) a =
     (if r * 0x40 \<le> a \<and> a < r * 0x40 + 16
      then bytes_of_string str ! (a - r * 0x40) else ddram (lcd_screen t) a)" for a
    using assms by (simp add: apply_text)
  show ?thesis
  proof (cases "r' = r")
    case True
    then show ?thesis
      using assms(4) by (intro nth_equalityI) (simp_all add: screen_row_def lcd_row_def scr)
  next
    case False
    with assms(2,3) have "r = 0 \<and> r' = 1 \<or> r = 1 \<and> r' = 0" by auto
    then show ?thesis by (auto simp: screen_row_def lcd_row_def scr)
  qed
qed

lemma screen_row_clear:
  assumes "trace_sync t" "r < 2"
  shows "screen_row (t @ byte_calls 1 0) r = replicate 16 0x20"
proof -
  have "lcd_screen (t @ byte_calls 1 0) = lcd_blank"
    using assms by (simp add: lcd_screen_append byte_writes_decode)
  then show ?thesis
    by (simp add: screen_row_def lcd_row_def lcd_blank_def map_replicate_const)
qed

end
