(* ===== verification/Helper.thy ===== *)
theory Helper
  imports Platform
begin

text \<open>
  \<open>components/helper\<close>: the constant-time comparison used for passwords, the
  uptime formatter and the file reader. Buffers given to the comparison are byte
  lists; reading past the end of one is undefined in C and \<open>None\<close> here, read by read.

  The locale \<open>secure_compare\<close> is the contract the authentication code relies on.
\<close>

section \<open>Operations\<close>

definition helper_read_file_to_buffer :: "string \<Rightarrow> ('x platform_scheme, nat option) op" where
  "helper_read_file_to_buffer path = do {
     f \<leftarrow> call_bool (Fs (FOpen path));
     if \<not> f then ret None
     else do {
       length_l \<leftarrow> call_int (Fs FTell);
       if length_l \<le> 0 then do { call_unit (Fs FClose); ret None }
       else do {
         buffer \<leftarrow> malloc_str (replicate (nat length_l) (CHR 0x00));
         (case buffer of
            None \<Rightarrow> do { call_unit (Fs FClose); ret None }
          | Some p \<Rightarrow> do {
              (n, data) \<leftarrow> call_int_str (Fs (FRead (nat length_l)));
              modify (\<lambda>s. s\<lparr>heap := (heap s)(p := Some (c_string (take (nat length_l) data)))\<rparr>);
              call_unit (Fs FClose);
              ret (Some p)
            })
       }
     }
   }"

text \<open>One read, \<open>p[i]\<close>, and \<open>k\<close> more rounds of the loop from \<open>i\<close>, with \<open>ret\<close> so far.\<close>

definition read_byte :: "byte list \<Rightarrow> nat \<Rightarrow> byte option" where
  "read_byte p i = (if i < length p then Some (p ! i) else None)"

fun memcmp_loop :: "byte list \<Rightarrow> byte list \<Rightarrow> nat \<Rightarrow> nat \<Rightarrow> u32 \<Rightarrow> u32 option" where
  "memcmp_loop p1 p2 i 0 acc = Some acc"
| "memcmp_loop p1 p2 i (Suc k) acc =
     (case (read_byte p1 i, read_byte p2 i) of
        (Some a, Some b) \<Rightarrow> memcmp_loop p1 p2 (Suc i) k (acc OR (ucast a XOR ucast b))
      | _ \<Rightarrow> None)"

definition helper_secure_memcmp :: "byte list \<Rightarrow> byte list \<Rightarrow> nat \<Rightarrow> u32 option" where
  "helper_secure_memcmp p1 p2 n = memcmp_loop p1 p2 0 n 0"

definition helper_format_uptime :: "u32 \<Rightarrow> nat \<Rightarrow> string" where
  "helper_format_uptime total_seconds max_len =
     (let days = total_seconds div 86400;
          hours = (total_seconds mod 86400) div 3600;
          minutes = (total_seconds mod 3600) div 60
      in c_trunc max_len
           (pad_left 3 (CHR ''0'') (dec_str (unat days)) @ '':'' @
            pad_left 2 (CHR ''0'') (dec_str (unat hours)) @ '':'' @
            pad_left 2 (CHR ''0'') (dec_str (unat minutes))))"

section \<open>The comparison\<close>

lemma xor_eq_zero_iff: "(a :: 'w::len word) XOR b = 0 \<longleftrightarrow> a = b"
  by (auto simp: bit_eq_iff bit_xor_iff)

lemma ucast_byte_inject: "(ucast (a :: byte) :: u32) = ucast b \<longleftrightarrow> a = b"
proof
  assume "(ucast a :: u32) = ucast b"
  then have "ucast (ucast a :: u32) = (ucast (ucast b :: u32) :: byte)" by simp
  then show "a = b" by (simp add: bit_eq_iff bit_ucast_iff)
qed simp

text \<open>The loop is defined exactly when every one of its reads is.\<close>

lemma memcmp_loop_defined:
  "memcmp_loop p1 p2 i k acc \<noteq> None \<longleftrightarrow> k = 0 \<or> i + k \<le> length p1 \<and> i + k \<le> length p2"
  by (induction p1 p2 i k acc rule: memcmp_loop.induct) (auto simp: read_byte_def)

lemma memcmp_loop_fold:
  assumes "i + k \<le> length p1" "i + k \<le> length p2"
  shows "memcmp_loop p1 p2 i k acc =
    Some (fold (\<lambda>i r. r OR (ucast (p1 ! i) XOR ucast (p2 ! i))) [i..<i + k] acc)"
  using assms
proof (induction p1 p2 i k acc rule: memcmp_loop.induct)
  case (1 p1 p2 i acc)
  then show ?case by simp
next
  case (2 p1 p2 i k acc)
  moreover have "[i..<i + Suc k] = i # [Suc i..<Suc i + k]" by (simp add: upt_rec)
  ultimately show ?case by (simp add: read_byte_def)
qed

lemma secure_memcmp_defined:
  "helper_secure_memcmp p1 p2 n \<noteq> None \<longleftrightarrow> n \<le> length p1 \<and> n \<le> length p2"
  using memcmp_loop_defined [of p1 p2 0 n 0] by (auto simp: helper_secure_memcmp_def)

lemma secure_memcmp_zero_iff:
  assumes "n \<le> length p1" "n \<le> length p2"
  shows "helper_secure_memcmp p1 p2 n = Some 0 \<longleftrightarrow> take n p1 = take n p2"
proof -
  have "helper_secure_memcmp p1 p2 n = Some 0 \<longleftrightarrow> (\<forall>i\<in>{0..<n}. p1 ! i = p2 ! i)"
    using assms
    by (simp add: helper_secure_memcmp_def memcmp_loop_fold fold_or_zero_iff xor_eq_zero_iff ucast_byte_inject)
  also have "\<dots> \<longleftrightarrow> take n p1 = take n p2"
    using assms by (auto simp: list_eq_iff_nth_eq)
  finally show ?thesis .
qed

locale secure_compare =
  fixes compare :: "byte list \<Rightarrow> byte list \<Rightarrow> nat \<Rightarrow> u32 option"
  assumes compare_in_range: "n \<le> length a \<Longrightarrow> n \<le> length b \<Longrightarrow> compare a b n \<noteq> None"
    and compare_zero: "n \<le> length a \<Longrightarrow> n \<le> length b \<Longrightarrow>
          compare a b n = Some 0 \<longleftrightarrow> take n a = take n b"
begin

lemma compare_strings:
  assumes "length s = length t"
  shows "compare (bytes_of_string s) (bytes_of_string t) (length s) = Some 0 \<longleftrightarrow> s = t"
  using compare_zero [of "length s" "bytes_of_string s" "bytes_of_string t"] assms by simp

text \<open>The test the password handlers make: equal lengths, then a zero comparison.\<close>

lemma password_test:
  "length s = length t \<and> compare (bytes_of_string s) (bytes_of_string t) (length s) = Some 0
   \<longleftrightarrow> s = t"
  using compare_strings by auto

lemma password_test_defined:
  "length s = length t \<Longrightarrow>
   compare (bytes_of_string s) (bytes_of_string t) (length s) \<noteq> None"
  by (rule compare_in_range) simp_all

end

interpretation memcmp: secure_compare helper_secure_memcmp
proof unfold_locales
  fix n :: nat and a b :: "byte list"
  assume "n \<le> length a" "n \<le> length b"
  then show "helper_secure_memcmp a b n \<noteq> None"
    using secure_memcmp_defined [of a b n] by blast
next
  fix n :: nat and a b :: "byte list"
  assume "n \<le> length a" "n \<le> length b"
  then show "(helper_secure_memcmp a b n = Some 0) = (take n a = take n b)"
    by (rule secure_memcmp_zero_iff)
qed

section \<open>Uptime\<close>

text \<open>The three numbers printed, as exact arithmetic on the seconds.\<close>

lemma unat_uptime_fields:
  fixes t :: u32
  shows "unat (t div 86400) = unat t div 86400"
    "unat ((t mod 86400) div 3600) = (unat t mod 86400) div 3600"
    "unat ((t mod 3600) div 60) = (unat t mod 3600) div 60"
  by (simp_all add: unat_div unat_mod)

definition uptime_text :: "nat \<Rightarrow> string" where
  "uptime_text t =
     pad_left 3 (CHR ''0'') (dec_str (t div 86400)) @ '':'' @
     pad_left 2 (CHR ''0'') (dec_str ((t mod 86400) div 3600)) @ '':'' @
     pad_left 2 (CHR ''0'') (dec_str ((t mod 3600) div 60))"

lemma format_uptime_eq:
  "helper_format_uptime t n = c_trunc n (uptime_text (unat t))"
  by (simp add: helper_format_uptime_def uptime_text_def unat_uptime_fields Let_def)

lemma length_uptime_text:
  assumes "t < 2 ^ 32"
  shows "length (uptime_text t) \<le> 11"
proof -
  have "t div 86400 < 10 ^ 5" using assms by simp
  then have d: "length (dec_str (t div 86400)) \<le> 5" by (rule length_dec_str) simp
  have "(t mod 86400) div 3600 < 10 ^ 2" by (simp add: less_mult_imp_div_less)
  then have h: "length (dec_str ((t mod 86400) div 3600)) \<le> 2" by (rule length_dec_str) simp
  have "(t mod 3600) div 60 < 10 ^ 2" by (simp add: less_mult_imp_div_less)
  then have m: "length (dec_str ((t mod 3600) div 60)) \<le> 2" by (rule length_dec_str) simp
  from d h m show ?thesis by (simp add: uptime_text_def cstr_simps)
qed

text \<open>Reading the text back: the fields between the colons.\<close>

definition uptime_minutes :: "string \<Rightarrow> nat" where
  "uptime_minutes s =
     (let d = takeWhile (\<lambda>c. c \<noteq> CHR '':'') s;
          r = drop (Suc (length d)) s;
          h = takeWhile (\<lambda>c. c \<noteq> CHR '':'') r;
          m = drop (Suc (length h)) r
      in dec_val d * 1440 + dec_val h * 60 + dec_val m)"

lemma digits_no_colon: "list_all is_digit_char s \<Longrightarrow> CHR '':'' \<notin> set s"
  by (auto simp: list_all_iff is_digit_char_def)

lemma pad_digits: "list_all is_digit_char (pad_left w (CHR ''0'') (dec_str n))"
  using all_digits_dec_str [of n] by (auto simp: pad_left_def list_all_iff is_digit_char_def)

lemma takeWhile_field:
  assumes "CHR '':'' \<notin> set a"
  shows "takeWhile (\<lambda>c. c \<noteq> CHR '':'') (a @ CHR '':'' # r) = a"
  using assms by (induction a) auto

lemma uptime_arith:
  fixes t :: nat
  shows "t div 86400 * 1440 + t mod 86400 div 3600 * 60 + t mod 3600 div 60 = t div 60"
proof -
  let ?u = "t div 60"
  have a: "t div 86400 = ?u div 1440" using div_mult2_eq [of t 60 1440] by simp
  have b: "t mod 86400 div 3600 = ?u mod 1440 div 60"
    using mod_mult2_eq [of t 60 1440] div_mult2_eq [of "t mod 86400" 60 60] by simp
  have c: "t mod 3600 div 60 = ?u mod 60"
    using mod_mult2_eq [of t 60 60] by simp
  have d: "?u mod 60 = ?u mod 1440 mod 60" by (simp add: mod_mod_cancel)
  have "?u = ?u div 1440 * 1440 + ?u mod 1440" by simp
  also have "?u mod 1440 = ?u mod 1440 div 60 * 60 + ?u mod 1440 mod 60" by simp
  finally show ?thesis by (simp only: a b c d add.assoc)
qed

lemma uptime_minutes_text: "uptime_minutes (uptime_text t) = t div 60"
proof -
  let ?p = "\<lambda>w n. pad_left w (CHR ''0'') (dec_str n)"
  have nc: "CHR '':'' \<notin> set (?p w n)" for w n
    by (rule digits_no_colon) (rule pad_digits)
  have "uptime_minutes (uptime_text t) =
     t div 86400 * 1440 + t mod 86400 div 3600 * 60 + t mod 3600 div 60"
    by (simp add: uptime_minutes_def uptime_text_def takeWhile_field [OF nc] Let_def
        dec_val_pad_left dec_val_dec_str)
  also have "\<dots> = t div 60" by (rule uptime_arith)
  finally show ?thesis .
qed

section \<open>Reading a file\<close>

lemma read_file_keeps [keeps_intro]:
  assumes "\<And>c. absorbs P (Fs c)" "\<And>c. absorbs P (Mem c)"
    and "ignores heap_update P" "ignores next_ptr_update P"
  shows "keeps P (helper_read_file_to_buffer path)"
  using assms unfolding helper_read_file_to_buffer_def malloc_str_def malloc_buf_def
  by (auto intro!: keeps_intro simp: ignoresD)

text \<open>
  The reader either returns nothing and leaves the heap as it was, or returns one
  new block.
\<close>

lemma read_file_heap:
  assumes "heap_wf s"
  shows "case result (helper_read_file_to_buffer path) s of
      None \<Rightarrow> heap (exec (helper_read_file_to_buffer path) s) = heap s
    | Some p \<Rightarrow> heap s p = None \<and>
        (\<exists>v. heap (exec (helper_read_file_to_buffer path) s) = (heap s)(p := Some v))"
  using assms
  by (auto simp: helper_read_file_to_buffer_def run_malloc_str heap_wf_def split: prod.split)

lemma mem_fault_read_file [simp]:
  "mem_fault (exec (helper_read_file_to_buffer path) s) = mem_fault s"
  by (auto simp: helper_read_file_to_buffer_def run_malloc_str split: prod.split)

lemma ext_read_file [simp]: "ext (exec (helper_read_file_to_buffer path) s) = ext s"
  by (auto simp: helper_read_file_to_buffer_def run_malloc_str split: prod.split)

lemma heap_wf_read_file: "heap_wf s \<Longrightarrow> heap_wf (exec (helper_read_file_to_buffer pth) s)"
  by (auto simp: helper_read_file_to_buffer_def run_malloc_str heap_wf_def less_Suc_eq split: prod.split)

end
