(* ===== verification/Ui.thy ===== *)
theory Ui
  imports Sys_Ind Lcd_Driver Helper
begin

text \<open>
  \<open>components/ui\<close>: the two-line screen. The base lines are saved in buffers; an
  error screen or a popup hides them until \<open>ui_restore_screen\<close> or the popup timer
  redraws them. The timer callback is an operation of its own.
\<close>

section \<open>State and operations\<close>

record ui = sys_ind +
  saved_line_0 :: string
  saved_line_1 :: string
  ui_temp_msg_timer :: bool
  is_error_active :: bool
  is_temp_active :: bool

abbreviation (input) PROGRESS_BAR_CHAR :: char where "PROGRESS_BAR_CHAR \<equiv> CHR 0x01"
abbreviation (input) DEGREE_CHAR :: char where "DEGREE_CHAR \<equiv> CHR 0x02"
abbreviation (input) REQ_MESS_DURATION_MS :: u32 where "REQ_MESS_DURATION_MS \<equiv> 2000"

definition lcd_icon_rectangle_full :: "byte list" where
  "lcd_icon_rectangle_full = [0x1F, 0x1F, 0x1F, 0x1F, 0x1F, 0x1F, 0x1F, 0x1F]"

definition lcd_icon_degree :: "byte list" where
  "lcd_icon_degree = [0x06, 0x09, 0x09, 0x06, 0x00, 0x00, 0x00, 0x00]"

text \<open>The pair of calls every screen is drawn with: cursor to the start of a row, then the text.\<close>

definition ui_draw_line :: "nat \<Rightarrow> string \<Rightarrow> ('x ui_scheme, unit) op" where
  "ui_draw_line row str = do {
     lcd_driver_set_cursor 0 (word_of_nat row);
     lcd_driver_print str;
     ret ()
   }"

definition ui_restore_screen :: "('x ui_scheme, unit) op" where
  "ui_restore_screen = do {
     modify (\<lambda>s. s\<lparr>is_error_active := False\<rparr>);
     l0 \<leftarrow> gets saved_line_0;
     ui_draw_line 0 l0;
     l1 \<leftarrow> gets saved_line_1;
     ui_draw_line 1 l1
   }"

definition ui_restore_timer_callback :: "('x ui_scheme, unit) op" where
  "ui_restore_timer_callback = do {
     modify (\<lambda>s. s\<lparr>is_temp_active := False\<rparr>);
     ui_restore_screen
   }"

definition ui_set_text_in_row :: "nat \<Rightarrow> string \<Rightarrow> ('x ui_scheme, unit) op" where
  "ui_set_text_in_row row text = do {
     let line = c_trunc 17 (pad_right 16 (CHR '' '') text);
     modify (\<lambda>s. if row = 0 then s\<lparr>saved_line_0 := line\<rparr> else s\<lparr>saved_line_1 := line\<rparr>);
     e \<leftarrow> gets is_error_active;
     t \<leftarrow> gets is_temp_active;
     if e \<or> t then ret ()
     else ui_draw_line row line
   }"

definition ui_init :: "('x ui_scheme, esp_err_t) op" where
  "ui_init = do {
     err \<leftarrow> lcd_driver_init;
     if err \<noteq> ESP_OK then ret err
     else do {
       err \<leftarrow> lcd_driver_create_char 1 lcd_icon_rectangle_full;
       if err \<noteq> ESP_OK then ret err
       else do {
         err \<leftarrow> lcd_driver_create_char 2 lcd_icon_degree;
         if err \<noteq> ESP_OK then ret err
         else do {
           t \<leftarrow> call_bool (Rtos (TimerCreate UiTimer 2000 False));
           modify (\<lambda>s. s\<lparr>ui_temp_msg_timer := t\<rparr>);
           lcd_driver_clear;
           ret ESP_OK
         }
       }
     }
   }"

definition ui_set_text :: "string \<Rightarrow> string \<Rightarrow> ('x ui_scheme, unit) op" where
  "ui_set_text line0 line1 = do {
     ui_set_text_in_row 0 line0;
     ui_set_text_in_row 1 line1
   }"

definition progress_blocks :: "int \<Rightarrow> int \<Rightarrow> int" where
  "progress_blocks step total_steps =
     (let total = (if total_steps \<le> 0 then 1 else total_steps);
          st = (if step < 0 then 0 else step);
          st = (if st > total then total else st)
      in s32 (st * 16) sdiv total)"

definition ui_show_boot_progress :: "string \<Rightarrow> int \<Rightarrow> int \<Rightarrow> ('x ui_scheme, unit) op" where
  "ui_show_boot_progress task_name step total_steps = do {
     let line0 = c_trunc 17 (pad_right 16 (CHR '' '') task_name);
     let blocks = progress_blocks step total_steps;
     let line1 = map (\<lambda>i. if int i < blocks then PROGRESS_BAR_CHAR else CHR '' '') [0..<16];
     ui_set_text line0 line1
   }"

definition ui_show_error :: "string \<Rightarrow> ('x ui_scheme, unit) op" where
  "ui_show_error msg = do {
     modify (\<lambda>s. s\<lparr>is_error_active := True\<rparr>);
     lcd_driver_clear;
     ui_draw_line 0 ''ERROR!'';
     let buffer = c_trunc 17 (take 16 msg);
     ui_draw_line 1 buffer
   }"

definition ui_show_temp_error :: "string option \<Rightarrow> esp_err_t \<Rightarrow> u32 \<Rightarrow> ('x ui_scheme, unit) op" where
  "ui_show_temp_error text err duration_ms =
     (case text of None \<Rightarrow> ret ()
      | Some tx \<Rightarrow> do {
          modify (\<lambda>s. s\<lparr>is_temp_active := True\<rparr>);
          lcd_driver_clear;
          ui_draw_line 0 (c_trunc 17 (pad_right 16 (CHR '' '') (take 16 tx)));
          ui_draw_line 1 (c_trunc 17 (''ERROR 0x'' @ fmt_X err));
          t \<leftarrow> gets ui_temp_msg_timer;
          whenM t (do {
            call_unit (Rtos (TimerChangePeriod UiTimer (unat duration_ms)));
            call_unit (Rtos (TimerStart UiTimer))
          })
        })"

text \<open>
  \<open>ui_show_critical_error\<close> draws the message and then never returns: \<open>None\<close>.
\<close>

partial_function (option) halt_loop :: "'x platform_scheme \<Rightarrow> 'x platform_scheme option" where
  "halt_loop s = halt_loop (exec (vTaskDelay 1000) s)"

definition ui_critical_screen :: "string \<Rightarrow> esp_err_t \<Rightarrow> ('x ui_scheme, unit) op" where
  "ui_critical_screen msg err =
     ui_set_text (c_trunc 17 (''ERROR 0x'' @ fmt_X err)) (c_trunc 17 (take 16 msg))"

definition ui_show_critical_error :: "string \<Rightarrow> esp_err_t \<Rightarrow> 'x ui_scheme \<Rightarrow> 'x ui_scheme option" where
  "ui_show_critical_error msg err s = halt_loop (exec (ui_critical_screen msg err) s)"

definition hex2 :: "byte \<Rightarrow> string" where
  "hex2 b = pad_left 2 (CHR ''0'') (hex_str (unat b))"

definition ui_show_network_dashboard ::
  "string option \<Rightarrow> byte list option \<Rightarrow> ('x ui_scheme, unit) op" where
  "ui_show_network_dashboard ip mac_addr = do {
     let ip_str = (case ip of None \<Rightarrow> ''0.0.0.0'' | Some i \<Rightarrow> i);
     let ip_len = length ip_str;
     let line0 = (if ip_len \<le> 13 then c_trunc 32 (''IP:'' @ pad_right 13 (CHR '' '') ip_str)
        else c_trunc 32 (replicate ((16 - ip_len) div 2) (CHR '' '') @ ip_str));
     let line1 = (case mac_addr of
          Some m \<Rightarrow> c_trunc 32 (''MAC:'' @ concat (map hex2 (take 6 m)))
        | None \<Rightarrow> ''MAC:??'');
     ui_set_text line0 line1
   }"

definition ui_show_popup :: "string \<Rightarrow> string \<Rightarrow> u32 \<Rightarrow> ('x ui_scheme, unit) op" where
  "ui_show_popup l0 l1 duration_ms = do {
     ui_draw_line 0 l0;
     ui_draw_line 1 l1;
     t \<leftarrow> gets ui_temp_msg_timer;
     whenM t (do {
       modify (\<lambda>s. s\<lparr>is_temp_active := True\<rparr>);
       call_unit (Rtos (TimerChangePeriod UiTimer (unat duration_ms)));
       call_unit (Rtos (TimerStart UiTimer))
     })
   }"

definition temp_message_lines :: "string \<Rightarrow> string \<times> string" where
  "temp_message_lines text =
     (if length text \<le> 16
      then (c_trunc 17 (pad_right 16 (CHR '' '') (take 16 text)), replicate 16 (CHR '' ''))
      else (take 16 text, c_trunc 17 (pad_right 16 (CHR '' '') (take 16 (drop 16 text)))))"

definition ui_show_temp_message :: "string option \<Rightarrow> u32 \<Rightarrow> ('x ui_scheme, unit) op" where
  "ui_show_temp_message text duration_ms = do {
     e \<leftarrow> gets is_error_active;
     (case text of
        None \<Rightarrow> ret ()
      | Some tx \<Rightarrow>
          if e then ret ()
          else case temp_message_lines tx of (l0, l1) \<Rightarrow> ui_show_popup l0 l1 duration_ms)
   }"

definition ui_show_split_temp_message ::
  "string option \<Rightarrow> string option \<Rightarrow> u32 \<Rightarrow> ('x ui_scheme, unit) op" where
  "ui_show_split_temp_message first_row second_row duration_ms = do {
     e \<leftarrow> gets is_error_active;
     (case (first_row, second_row) of
        (Some f, Some r) \<Rightarrow>
          if e then ret ()
          else ui_show_popup (c_trunc 17 (pad_right 16 (CHR '' '') f))
                 (c_trunc 17 (pad_right 16 (CHR '' '') r)) duration_ms
      | _ \<Rightarrow> ret ())
   }"

definition ui_show_temp_cmd_message :: "string \<Rightarrow> u32 \<Rightarrow> ('x ui_scheme, unit) op" where
  "ui_show_temp_cmd_message text duration_ms =
     ui_show_temp_message
       (Some (c_trunc 33 (pad_right 16 (CHR '' '') ''CMD:'' @ text))) duration_ms"

definition ui_show_fixed_temp_cmd_message :: "string \<Rightarrow> ('x ui_scheme, unit) op" where
  "ui_show_fixed_temp_cmd_message text = ui_show_temp_cmd_message text REQ_MESS_DURATION_MS"

lemmas ui_defs =
  ui_draw_line_def
  ui_restore_screen_def ui_restore_timer_callback_def ui_set_text_in_row_def ui_init_def
  ui_set_text_def ui_show_boot_progress_def ui_show_error_def ui_show_temp_error_def
  ui_critical_screen_def ui_show_network_dashboard_def ui_show_popup_def
  ui_show_temp_message_def ui_show_split_temp_message_def ui_show_temp_cmd_message_def
  ui_show_fixed_temp_cmd_message_def

section \<open>What the operations keep\<close>

definition ui_fields_free :: "('x ui_scheme \<Rightarrow> bool) \<Rightarrow> bool" where
  "ui_fields_free P \<longleftrightarrow>
     ignores saved_line_0_update P \<and> ignores saved_line_1_update P \<and>
     ignores ui_temp_msg_timer_update P \<and> ignores is_error_active_update P \<and>
     ignores is_temp_active_update P"

lemma ui_keeps [keeps_intro]:
  assumes "absorbs_on hw_neutral P" "\<And>n m. keeps P (lcd_driver_write_nibble n m)"
    and "ui_fields_free P"
  shows "keeps P ui_restore_screen" "keeps P ui_restore_timer_callback"
    "keeps P (ui_set_text_in_row r tx)" "keeps P ui_init" "keeps P (ui_set_text a b)"
    "keeps P (ui_show_boot_progress tx i n)" "keeps P (ui_show_error tx)"
    "keeps P (ui_show_temp_error txto e d)" "keeps P (ui_critical_screen tx e)"
    "keeps P (ui_show_network_dashboard ip mac)" "keeps P (ui_show_popup a b d)"
    "keeps P (ui_show_temp_message txto d)" "keeps P (ui_show_split_temp_message txto txto' d)"
    "keeps P (ui_show_temp_cmd_message tx d)" "keeps P (ui_show_fixed_temp_cmd_message tx)"
proof -
  note [intro] = absorbs_onD [OF assms(1)]
  have free: "ignores saved_line_0_update P" "ignores saved_line_1_update P"
     "ignores ui_temp_msg_timer_update P" "ignores is_error_active_update P"
     "ignores is_temp_active_update P"
    using assms(3) by (simp_all add: ui_fields_free_def)
  note lcd_ops = lcd_keeps [OF assms(1,2)]
  have draw: "keeps P (ui_draw_line r tx)" for r tx
    unfolding ui_draw_line_def by (auto intro!: keeps_intro lcd_ops)
  note lcd = lcd_ops draw
  show restore: "keeps P ui_restore_screen"
    unfolding ui_restore_screen_def by (auto intro!: keeps_intro lcd simp: free ignoresD)
  then show "keeps P ui_restore_timer_callback"
    unfolding ui_restore_timer_callback_def by (auto intro!: keeps_intro simp: free ignoresD)
  show row: "keeps P (ui_set_text_in_row r tx)" for r tx
    unfolding ui_set_text_in_row_def Let_def by (auto intro!: keeps_intro lcd simp: free ignoresD)
  show "keeps P ui_init"
    unfolding ui_init_def by (auto intro!: keeps_intro lcd simp: free ignoresD)
  show both: "keeps P (ui_set_text a b)" for a b
    unfolding ui_set_text_def by (auto intro!: keeps_intro row)
  show "keeps P (ui_show_boot_progress tx i n)" "keeps P (ui_critical_screen tx e)"
    "keeps P (ui_show_network_dashboard ip mac)"
    unfolding ui_show_boot_progress_def ui_critical_screen_def ui_show_network_dashboard_def Let_def
    by (auto intro!: both)
  show "keeps P (ui_show_error tx)" "keeps P (ui_show_temp_error txto e d)"
    unfolding ui_show_error_def ui_show_temp_error_def Let_def
    by (auto intro!: keeps_intro lcd simp: free ignoresD)
  show popup: "keeps P (ui_show_popup a b d)" for a b d
    unfolding ui_show_popup_def by (auto intro!: keeps_intro lcd simp: free ignoresD)
  show "keeps P (ui_show_temp_message txto d)" "keeps P (ui_show_split_temp_message txto txto' d)"
    "keeps P (ui_show_temp_cmd_message tx d)" "keeps P (ui_show_fixed_temp_cmd_message tx)"
    unfolding ui_show_temp_message_def ui_show_split_temp_message_def ui_show_temp_cmd_message_def
      ui_show_fixed_temp_cmd_message_def
    by (auto intro!: keeps_intro popup split: option.split)
qed

section \<open>The screen\<close>

text \<open>
  \<open>ui_inv\<close>: while neither an error nor a popup is up, the display shows exactly
  the two saved lines. It holds of a working machine: initialised, I2C
  transactions acknowledged, mutexes granted.
\<close>

definition shows_lines :: "call list \<Rightarrow> string \<Rightarrow> string \<Rightarrow> bool" where
  "shows_lines t a b \<longleftrightarrow>
     screen_row t 0 = bytes_of_string a \<and> screen_row t 1 = bytes_of_string b"

definition ui_lines_wf :: "'x ui_scheme \<Rightarrow> bool" where
  "ui_lines_wf s \<longleftrightarrow> length (saved_line_0 s) = 16 \<and> length (saved_line_1 s) = 16"

definition ui_inv :: "'x ui_scheme \<Rightarrow> bool" where
  "ui_inv s \<longleftrightarrow>
     lcd_ready s \<and> trace_sync (trace s) \<and> ui_lines_wf s \<and> ui_temp_msg_timer s \<and>
     (\<not> is_error_active s \<and> \<not> is_temp_active s \<longrightarrow>
      shows_lines (trace s) (saved_line_0 s) (saved_line_1 s))"

lemma exec_draw_line:
  assumes "lcd_ready s"
  shows "exec (ui_draw_line r str) s = s\<lparr>trace := trace s @ line_calls r str\<rparr>"
  using assms
  by (simp add: ui_draw_line_def run_lcd_set_cursor run_lcd_print line_calls_def)

lemma run_draw_line:
  "lcd_ready s \<Longrightarrow> run_state (ui_draw_line r str) s = ((), s\<lparr>trace := trace s @ line_calls r str\<rparr>)"
  by (simp add: prod_eq_iff exec_draw_line)

lemma lcd_ready_ui_fields [simp]:
  "lcd_ready (s\<lparr>saved_line_0 := a\<rparr>) = lcd_ready s"
  "lcd_ready (s\<lparr>saved_line_1 := a\<rparr>) = lcd_ready s"
  "lcd_ready (s\<lparr>is_error_active := b\<rparr>) = lcd_ready s"
  "lcd_ready (s\<lparr>is_temp_active := b\<rparr>) = lcd_ready s"
  "lcd_ready (s\<lparr>ui_temp_msg_timer := b\<rparr>) = lcd_ready s"
  by (simp_all add: lcd_ready_def)

lemma shows_two_lines:
  assumes "trace_sync t" "length a = 16" "length b = 16"
  shows "trace_sync (t @ line_calls 0 a @ line_calls 1 b)"
    "shows_lines (t @ line_calls 0 a @ line_calls 1 b) a b"
proof -
  note sync = trace_sync_line [OF assms(1), of 0 a]
  show "trace_sync (t @ line_calls 0 a @ line_calls 1 b)"
    using trace_sync_line [OF sync, of 1 b] by simp
  show "shows_lines (t @ line_calls 0 a @ line_calls 1 b) a b"
    using screen_row_line [OF sync, of 1 _ b] screen_row_line [OF assms(1), of 0 _ a] assms(2,3)
    by (simp add: shows_lines_def)
qed

lemma length_padded_line [simp]: "length (c_trunc 17 (pad_right 16 c s)) = 16"
  by (simp add: cstr_simps)

lemma exec_restore_screen:
  assumes "lcd_ready s"
  shows "exec ui_restore_screen s =
    s\<lparr>is_error_active := False,
      trace := trace s @ line_calls 0 (saved_line_0 s) @ line_calls 1 (saved_line_1 s)\<rparr>"
  using assms by (simp add: ui_restore_screen_def run_draw_line)

lemma exec_set_text_in_row:
  assumes "lcd_ready s"
  shows "exec (ui_set_text_in_row r tx) s =
    (let line = c_trunc 17 (pad_right 16 (CHR '' '') tx);
         s' = (if r = 0 then s\<lparr>saved_line_0 := line\<rparr> else s\<lparr>saved_line_1 := line\<rparr>)
     in if is_error_active s \<or> is_temp_active s then s'
        else s'\<lparr>trace := trace s @ line_calls r line\<rparr>)"
  using assms by (simp add: ui_set_text_in_row_def run_draw_line Let_def)

lemma ui_inv_set_text_in_row: "r < 2 \<Longrightarrow> keeps ui_inv (ui_set_text_in_row r tx)"
proof (rule keepsI)
  fix s :: "'a ui_scheme"
  assume r: "r < 2" and inv: "ui_inv s"
  then have ready: "lcd_ready s" and sync: "trace_sync (trace s)" by (simp_all add: ui_inv_def)
  let ?line = "c_trunc 17 (pad_right 16 (CHR '' '') tx)"
  have rows: "screen_row (trace s @ line_calls r ?line) r' =
      (if r' = r then bytes_of_string ?line else screen_row (trace s) r')" if "r' < 2" for r'
    using screen_row_line [OF sync r that] by simp
  have "r = 0 \<or> r = 1" using r by auto
  then show "ui_inv (exec (ui_set_text_in_row r tx) s)"
    using inv ready trace_sync_line [OF sync, of r ?line] rows [of 0] rows [of 1]
    by (auto simp: exec_set_text_in_row Let_def ui_inv_def ui_lines_wf_def shows_lines_def)
qed

lemma ui_inv_set_text: "keeps ui_inv (ui_set_text a b)"
  unfolding ui_set_text_def by (intro keeps_bind ui_inv_set_text_in_row) simp_all

lemma ui_inv_restore: "keeps ui_inv ui_restore_screen"
proof (rule keepsI)
  fix s :: "'a ui_scheme"
  assume inv: "ui_inv s"
  then show "ui_inv (exec ui_restore_screen s)"
    using shows_two_lines [of "trace s" "saved_line_0 s" "saved_line_1 s"]
    by (simp add: ui_inv_def exec_restore_screen ui_lines_wf_def)
qed

lemma ui_inv_restore_timer: "keeps ui_inv ui_restore_timer_callback"
proof (rule keepsI)
  fix s :: "'a ui_scheme"
  assume inv: "ui_inv s"
  then show "ui_inv (exec ui_restore_timer_callback s)"
    using shows_two_lines [of "trace s" "saved_line_0 s" "saved_line_1 s"]
    by (simp add: ui_inv_def ui_restore_timer_callback_def exec_restore_screen ui_lines_wf_def)
qed

lemma trace_sync_rtos [simp]: "trace_sync (t @ [Rtos c]) = trace_sync t"
  by simp

lemma ui_inv_popup: "keeps ui_inv (ui_show_popup a b d)"
proof (rule keepsI)
  fix s :: "'a ui_scheme"
  assume inv: "ui_inv s"
  then have "trace_sync (trace s)" by (simp add: ui_inv_def)
  from trace_sync_line [OF trace_sync_line [OF this, of 0 a], of 1 b] inv
  show "ui_inv (exec (ui_show_popup a b d) s)"
    by (simp add: ui_inv_def ui_show_popup_def run_draw_line ui_lines_wf_def)
qed

lemma ui_inv_show_error: "keeps ui_inv (ui_show_error msg)"
proof (rule keepsI)
  fix s :: "'a ui_scheme"
  assume inv: "ui_inv s"
  then have "trace_sync (trace s)" by (simp add: ui_inv_def)
  then have "trace_sync (trace s @ byte_calls 1 0)" by (rule trace_sync_byte) simp
  then have "trace_sync ((trace s @ byte_calls 1 0) @ [Rtos (TaskDelay 2)])" by simp
  from trace_sync_line [OF trace_sync_line [OF this, of 0 "''ERROR!''"], of 1 "c_trunc 17 (take 16 msg)"] inv
  show "ui_inv (exec (ui_show_error msg) s)"
    by (simp add: ui_inv_def ui_show_error_def run_draw_line run_lcd_clear ui_lines_wf_def)
qed

lemma ui_inv_temp_error: "keeps ui_inv (ui_show_temp_error txo e d)"
proof (cases txo)
  case None
  then show ?thesis by (simp add: ui_show_temp_error_def keeps_ret)
next
  case (Some tx)
  show ?thesis
  proof (rule keepsI)
    fix s :: "'a ui_scheme"
    assume inv: "ui_inv s"
    let ?a = "c_trunc 17 (pad_right 16 (CHR '' '') (take 16 tx))"
    let ?b = "c_trunc 17 (''ERROR 0x'' @ fmt_X e)"
    from inv have "trace_sync (trace s)" by (simp add: ui_inv_def)
    then have "trace_sync (trace s @ byte_calls 1 0)" by (rule trace_sync_byte) simp
    then have "trace_sync ((trace s @ byte_calls 1 0) @ [Rtos (TaskDelay 2)])" by simp
    from trace_sync_line [OF trace_sync_line [OF this, of 0 ?a], of 1 ?b] inv
    show "ui_inv (exec (ui_show_temp_error txo e d) s)"
      by (simp add: Some ui_inv_def ui_show_temp_error_def run_draw_line run_lcd_clear ui_lines_wf_def)
  qed
qed

lemma ui_inv_ops [keeps_intro]:
  "keeps ui_inv (ui_show_boot_progress tx i n)" "keeps ui_inv (ui_show_temp_message txo d)"
  "keeps ui_inv (ui_show_split_temp_message txo txo' d)"
  "keeps ui_inv (ui_show_temp_cmd_message tx d)" "keeps ui_inv (ui_show_fixed_temp_cmd_message tx)"
  "keeps ui_inv (ui_show_network_dashboard ip mac)" "keeps ui_inv (ui_critical_screen tx e)"
  unfolding ui_show_boot_progress_def ui_show_temp_message_def ui_show_split_temp_message_def
    ui_show_temp_cmd_message_def ui_show_fixed_temp_cmd_message_def
    ui_show_network_dashboard_def ui_critical_screen_def Let_def
  by (auto intro!: keeps_ret keeps_bind keeps_gets keeps_if ui_inv_popup ui_inv_set_text
      split: option.split prod.split)

end
