(* ===== verification/C_Float.thy ===== *)
theory C_Float
  imports Prelude "HOL-Library.Log_Nat" Complex_Main
begin

text \<open>
  Single precision arithmetic as the sensor code uses it. A finite \<open>float\<close> is the
  rational it stands for; every operation is the exact result rounded to the
  nearest number with a 24-bit significand, ties to even (no intermediate result
  of the firmware leaves the normal range). \<open>%.kf\<close> prints the exact value to \<open>k\<close>
  decimals, ties to even.
\<close>

section \<open>Rounding\<close>

definition round_half_even :: "rat \<Rightarrow> int" where
  "round_half_even x =
     (let d = \<lfloor>x\<rfloor>; r = x - of_int d
      in if r < 1 / 2 \<or> (r = 1 / 2 \<and> even d) then d else d + 1)"

text \<open>The power of two that scales a positive number to a significand in \<open>[2 ^ 23, 2 ^ 24)\<close>.\<close>

definition f32_scale :: "rat \<Rightarrow> int" where
  "f32_scale x =
     (let (p, q) = quotient_of x; j = 24 - bitlen p + bitlen q
      in if x * 2 powi j < 2 ^ 24 then j else j - 1)"

definition f32 :: "rat \<Rightarrow> rat" where
  "f32 x =
     (if x = 0 then 0
      else let j = f32_scale \<bar>x\<bar>
           in sgn x * (of_int (round_half_even (\<bar>x\<bar> * 2 powi j)) / 2 powi j))"

datatype c_float = Finite rat | NonFinite string

definition fmt_fixed :: "nat \<Rightarrow> rat \<Rightarrow> string" where
  "fmt_fixed k x =
     (let m = nat (round_half_even (\<bar>x\<bar> * 10 ^ k))
      in (if x < 0 then ''-'' else '''') @ dec_str (m div 10 ^ k) @
         (if k = 0 then '''' else CHR ''.'' # pad_left k (CHR ''0'') (dec_str (m mod 10 ^ k))))"

fun fmt_float :: "nat \<Rightarrow> c_float \<Rightarrow> string" where
  "fmt_float k (Finite x) = fmt_fixed k x"
| "fmt_float k (NonFinite t) = t"

text \<open>What a \<open>float\<close> object can hold: a finite value below \<open>2 ^ 128\<close>, or \<open>inf\<close> or \<open>nan\<close>.\<close>

fun float_wf :: "c_float \<Rightarrow> bool" where
  "float_wf (Finite x) = (\<bar>x\<bar> < 2 ^ 128)"
| "float_wf (NonFinite t) = (t \<in> {''inf'', ''-inf'', ''nan'', ''-nan''})"

section \<open>Accuracy\<close>

lemma round_half_even_error: "\<bar>of_int (round_half_even x) - x\<bar> \<le> 1 / 2"
proof -
  have "of_int \<lfloor>x\<rfloor> \<le> x" "x < of_int \<lfloor>x\<rfloor> + 1" by linarith+
  then show ?thesis
    by (auto simp: round_half_even_def Let_def abs_le_iff field_simps)
qed

lemma round_half_even_nonneg: "0 \<le> x \<Longrightarrow> 0 \<le> round_half_even x"
  by (auto simp: round_half_even_def Let_def)

lemma bitlen_bounds_rat:
  fixes p :: int
  assumes "0 < p"
  shows "(2 :: rat) powi (bitlen p - 1) \<le> of_int p" "of_int p < (2 :: rat) powi bitlen p"
proof -
  define k where "k = nat (bitlen p - 1)"
  have "1 \<le> bitlen p" using assms by (simp add: bitlen_def floorlog_def)
  then have e: "bitlen p - 1 = int k" "bitlen p = int (Suc k)" by (auto simp: k_def)
  have n: "nat (bitlen p - 1) = k" "nat (bitlen p) = Suc k" by (simp_all only: e nat_int)
  have "2 ^ k \<le> p" "p < 2 ^ Suc k"
    using bitlen_bounds [OF assms] by (simp_all only: n)
  then have b: "(of_int (2 ^ k) :: rat) \<le> of_int p" "(of_int p :: rat) < of_int (2 ^ Suc k)"
    by (simp_all only: of_int_le_iff of_int_less_iff)
  show "(2 :: rat) powi (bitlen p - 1) \<le> of_int p"
    using b(1) unfolding e(1) power_int_of_nat by simp
  show "of_int p < (2 :: rat) powi bitlen p"
    using b(2) unfolding e(2) power_int_of_nat by simp
qed

lemma f32_scale_lower:
  assumes "0 < x"
  shows "2 ^ 23 \<le> x * 2 powi f32_scale x"
proof -
  obtain p q where pq: "quotient_of x = (p, q)" by (cases "quotient_of x")
  have q: "0 < q" using quotient_of_denom_pos [OF pq] .
  have x: "x = of_int p / of_int q" using quotient_of_div [OF pq] .
  have p: "0 < p" using assms x q by (simp add: zero_less_divide_iff)
  define j where "j = 24 - bitlen p + bitlen q"
  have split: "(2 :: rat) powi j = 2 ^ 24 * 2 powi bitlen q / 2 powi bitlen p"
    unfolding j_def by (simp add: power_int_add power_int_diff)
  have lo: "(2 :: rat) powi bitlen p \<le> 2 * of_int p"
    using bitlen_bounds_rat(1) [OF p] by (simp add: power_int_diff)
  have hi: "(of_int q :: rat) < 2 powi bitlen q" using bitlen_bounds_rat(2) [OF q] .
  have "2 ^ 23 * (of_int q * 2 powi bitlen p) \<le> of_int p * (2 ^ 24 * (2 :: rat) powi bitlen q)"
  proof -
    have "of_int q * (2 :: rat) powi bitlen p \<le> 2 powi bitlen q * (2 * of_int p)"
      using lo hi p q by (intro mult_mono) auto
    then show ?thesis by (simp add: ac_simps)
  qed
  then have ge: "2 ^ 23 \<le> x * 2 powi j"
    using p q by (simp add: x split field_simps)
  have half: "x * 2 powi (j - 1) = x * 2 powi j / 2" by (simp add: power_int_diff)
  have "2 ^ 23 \<le> x * 2 powi (j - 1)" if "\<not> x * 2 powi j < 2 ^ 24"
    unfolding half using that by simp
  with ge show ?thesis
    by (simp add: f32_scale_def pq j_def [symmetric])
qed

lemma f32_error: "\<bar>f32 x - x\<bar> \<le> \<bar>x\<bar> / 2 ^ 24"
proof (cases "x = 0")
  case True
  then show ?thesis by (simp add: f32_def)
next
  case False
  define j where "j = f32_scale \<bar>x\<bar>"
  have pos: "0 < (2 :: rat) powi j" by simp
  have lo: "2 ^ 23 \<le> \<bar>x\<bar> * 2 powi j" unfolding j_def using False by (intro f32_scale_lower) simp
  let ?m = "of_int (round_half_even (\<bar>x\<bar> * 2 powi j)) :: rat"
  have f: "f32 x = sgn x * (?m / 2 powi j)" using False by (simp add: f32_def j_def Let_def)
  have xs: "x = sgn x * \<bar>x\<bar>" by (simp add: sgn_if)
  have "f32 x - x = sgn x * (?m / 2 powi j - \<bar>x\<bar>)"
    unfolding f by (subst (3) xs) (simp add: right_diff_distrib)
  then have "\<bar>f32 x - x\<bar> = \<bar>?m / 2 powi j - \<bar>x\<bar>\<bar>"
    using False by (simp add: abs_mult abs_sgn_eq)
  also have "?m / 2 powi j - \<bar>x\<bar> = (?m - \<bar>x\<bar> * 2 powi j) / 2 powi j"
    using pos by (simp add: field_simps)
  also have "\<bar>\<dots>\<bar> \<le> (1 / 2) / 2 powi j"
    using divide_right_mono [OF round_half_even_error [of "\<bar>x\<bar> * 2 powi j"], of "2 powi j"] pos
    by (simp add: abs_divide)
  also have "\<dots> \<le> \<bar>x\<bar> / 2 ^ 24" using lo pos by (simp add: field_simps)
  finally show ?thesis .
qed

lemma f32_near: "\<bar>x\<bar> \<le> c \<Longrightarrow> \<bar>f32 x - x\<bar> \<le> c / 2 ^ 24"
  by (rule order_trans [OF f32_error divide_right_mono]) simp_all

lemma f32_upper: "x \<le> b \<Longrightarrow> \<bar>x\<bar> \<le> c \<Longrightarrow> f32 x \<le> b + c / 2 ^ 24"
  using f32_near [of x c] by linarith

lemma f32_lower: "a \<le> x \<Longrightarrow> \<bar>x\<bar> \<le> c \<Longrightarrow> a - c / 2 ^ 24 \<le> f32 x"
  using f32_near [of x c] by linarith

lemma f32_nonneg: "0 \<le> x \<Longrightarrow> 0 \<le> f32 x"
  by (auto simp: f32_def Let_def round_half_even_nonneg)

section \<open>Printed lengths\<close>

lemma length_fmt_fixed:
  assumes "\<bar>x\<bar> * 10 ^ k + 1 / 2 < 10 ^ (d + k)" "0 < d"
  shows "length (fmt_fixed k x) \<le> d + (if k = 0 then 0 else k + 1) + (if x < 0 then 1 else 0)"
proof -
  define m where "m = nat (round_half_even (\<bar>x\<bar> * 10 ^ k))"
  have "of_int (round_half_even (\<bar>x\<bar> * 10 ^ k)) < (10 :: rat) ^ (d + k)"
    using round_half_even_error [of "\<bar>x\<bar> * 10 ^ k"] assms(1) by linarith
  then have "round_half_even (\<bar>x\<bar> * 10 ^ k) < 10 ^ (d + k)"
    by (metis of_int_less_iff of_int_numeral of_int_power)
  then have "m < 10 ^ (d + k)"
    using round_half_even_nonneg [of "\<bar>x\<bar> * 10 ^ k"] by (simp add: m_def nat_less_iff)
  then have "m div 10 ^ k < 10 ^ d" by (simp add: less_mult_imp_div_less power_add)
  then have i: "length (dec_str (m div 10 ^ k)) \<le> d" using assms(2) by (rule length_dec_str)
  have "m mod 10 ^ k < 10 ^ k" by simp
  then have f: "length (dec_str (m mod 10 ^ k)) \<le> k" if "0 < k" using that by (rule length_dec_str)
  show ?thesis
    using i f by (auto simp: fmt_fixed_def m_def [symmetric] Let_def cstr_simps)
qed

lemma length_fmt_float_wf:
  assumes "float_wf x"
  shows "length (fmt_float 1 x) \<le> 42"
proof (cases x)
  case (Finite r)
  with assms have "\<bar>r\<bar> * 10 ^ 1 + 1 / 2 < 10 ^ (39 + 1)" by simp
  then have "length (fmt_fixed 1 r) \<le> 39 + (if (1::nat) = 0 then 0 else 1 + 1) + (if r < 0 then 1 else 0)"
    by (rule length_fmt_fixed) simp
  with Finite show ?thesis by (simp split: if_splits)
next
  case (NonFinite t)
  with assms show ?thesis by auto
qed

end
