(* ===== verification/Env_Sensor.thy ===== *)
theory Env_Sensor
  imports Ui C_Float
begin

text \<open>
  \<open>components/env_sensor\<close>: the AHT20 and the BMP280. The compensation formulas are
  integer arithmetic at 32 and 64 bits: \<open>s32\<close> and \<open>s64\<close> wrap a result the way the
  machine instruction does (signed overflow is undefined in C; \<open>comp_T_exact\<close> shows
  where there is none). A right shift of a signed number is arithmetic.
\<close>

section \<open>State and operations\<close>

record bmp280_calib =
  dig_T1 :: int
  dig_T2 :: int
  dig_T3 :: int
  dig_P1 :: int
  dig_P2 :: int
  dig_P3 :: int
  dig_P4 :: int
  dig_P5 :: int
  dig_P6 :: int
  dig_P7 :: int
  dig_P8 :: int
  dig_P9 :: int

record env_data =
  temp_aht :: c_float
  hum_aht :: c_float
  temp_bmp :: c_float
  pres_bmp :: c_float

record env_sensor = ui +
  bmp_calib :: bmp280_calib
  t_fine :: int

abbreviation (input) AHT20_ADDR :: byte where "AHT20_ADDR \<equiv> 0x38"
abbreviation (input) BMP280_ADDR :: byte where "BMP280_ADDR \<equiv> 0x77"

definition asr :: "int \<Rightarrow> nat \<Rightarrow> int" where
  "asr x n = x div 2 ^ n"

text \<open>A byte of a receive buffer; the driver fills the whole buffer when it succeeds.\<close>

definition buf_at :: "byte list \<Rightarrow> nat \<Rightarrow> byte" where
  "buf_at b i = (if i < length b then b ! i else 0)"

definition u16_le :: "byte list \<Rightarrow> nat \<Rightarrow> u16" where
  "u16_le data i = push_bit 8 (ucast (buf_at data (i + 1))) OR ucast (buf_at data i)"

definition parse_calib :: "byte list \<Rightarrow> bmp280_calib" where
  "parse_calib data =
     \<lparr>dig_T1 = uint (u16_le data 0), dig_T2 = sint (u16_le data 2), dig_T3 = sint (u16_le data 4),
      dig_P1 = uint (u16_le data 6), dig_P2 = sint (u16_le data 8), dig_P3 = sint (u16_le data 10),
      dig_P4 = sint (u16_le data 12), dig_P5 = sint (u16_le data 14), dig_P6 = sint (u16_le data 16),
      dig_P7 = sint (u16_le data 18), dig_P8 = sint (u16_le data 20), dig_P9 = sint (u16_le data 22)\<rparr>"

definition bmp280_read_calib :: "('x env_sensor_scheme, esp_err_t) op" where
  "bmp280_read_calib = do {
     (err, data) \<leftarrow> call_err_bytes (I2c (I2cWriteRead BMP280_ADDR [0x88] 24 100));
     if err \<noteq> ESP_OK then ret err
     else do {
       modify (\<lambda>s. s\<lparr>bmp_calib := parse_calib data\<rparr>);
       ret ESP_OK
     }
   }"

text \<open>The value left in \<open>t_fine\<close> and the temperature in hundredths of a degree.\<close>

definition comp_T :: "bmp280_calib \<Rightarrow> int \<Rightarrow> int \<times> int" where
  "comp_T c adc_T =
     (let var1 = asr (s32 (s32 (asr adc_T 3 - s32 (dig_T1 c * 2)) * dig_T2 c)) 11;
          d = s32 (asr adc_T 4 - dig_T1 c);
          var2 = asr (s32 (asr (s32 (d * d)) 12 * dig_T3 c)) 14;
          fine = s32 (var1 + var2)
      in (fine, asr (s32 (s32 (fine * 5) + 128)) 8))"

definition bmp280_comp_T :: "int \<Rightarrow> ('x env_sensor_scheme, int) op" where
  "bmp280_comp_T adc_T = do {
     c \<leftarrow> gets bmp_calib;
     let (fine, T) = comp_T c adc_T;
     modify (\<lambda>s. s\<lparr>t_fine := fine\<rparr>);
     ret T
   }"

definition comp_P :: "bmp280_calib \<Rightarrow> int \<Rightarrow> int \<Rightarrow> u32" where
  "comp_P c fine adc_P =
     (let var1 = s64 (fine - 128000);
          var2 = s64 (s64 (var1 * var1) * dig_P6 c);
          var2 = s64 (var2 + s64 (s64 (var1 * dig_P5 c) * 2 ^ 17));
          var2 = s64 (var2 + s64 (dig_P4 c * 2 ^ 35));
          var1 = s64 (asr (s64 (s64 (var1 * var1) * dig_P3 c)) 8 + s64 (s64 (var1 * dig_P2 c) * 2 ^ 12));
          var1 = asr (s64 (s64 (2 ^ 47 + var1) * dig_P1 c)) 33
      in if var1 = 0 then 0
         else let p = s32 (1048576 - adc_P);
                  p = s64 (s64 (s64 (s64 (p * 2 ^ 31) - var2) * 3125) sdiv var1);
                  var1 = asr (s64 (s64 (dig_P9 c * asr p 13) * asr p 13)) 25;
                  var2 = asr (s64 (dig_P8 c * p)) 19;
                  p = s64 (asr (s64 (s64 (p + var1) + var2)) 8 + s64 (dig_P7 c * 2 ^ 4))
              in word_of_int p)"

definition bmp280_comp_P :: "int \<Rightarrow> ('x env_sensor_scheme, u32) op" where
  "bmp280_comp_P adc_P = do {
     c \<leftarrow> gets bmp_calib;
     f \<leftarrow> gets t_fine;
     ret (comp_P c f adc_P)
   }"

definition env_sensors_init :: "('x env_sensor_scheme, esp_err_t) op" where
  "env_sensors_init = do {
     err \<leftarrow> call_err (I2c (I2cWriteDevice AHT20_ADDR [0xBE, 0x08, 0x00] 100));
     if err \<noteq> ESP_OK then ret err
     else do {
       vTaskDelay 100;
       err \<leftarrow> bmp280_read_calib;
       if err \<noteq> ESP_OK then ret err
       else do {
         call_err (I2c (I2cWriteDevice BMP280_ADDR [0xF4, 0x57] 100));
         call_err (I2c (I2cWriteDevice BMP280_ADDR [0xF5, 0x10] 100));
         ret ESP_OK
       }
     }
   }"

text \<open>The raw 20-bit numbers in the two sensors' buffers.\<close>

definition aht_hum_raw :: "byte list \<Rightarrow> u32" where
  "aht_hum_raw b = push_bit 12 (ucast (buf_at b 1)) OR push_bit 4 (ucast (buf_at b 2)) OR
     ucast (drop_bit 4 (buf_at b 3))"

definition aht_temp_raw :: "byte list \<Rightarrow> u32" where
  "aht_temp_raw b = push_bit 16 (ucast (buf_at b 3 AND 0x0F)) OR push_bit 8 (ucast (buf_at b 4)) OR
     ucast (buf_at b 5)"

definition bmp_adc :: "byte list \<Rightarrow> nat \<Rightarrow> int" where
  "bmp_adc b i = uint (push_bit 12 (ucast (buf_at b i)) OR push_bit 4 (ucast (buf_at b (i + 1))) OR
     ucast (drop_bit 4 (buf_at b (i + 2))) :: u32)"

definition hum_of_raw :: "u32 \<Rightarrow> rat" where
  "hum_of_raw raw = f32 (f32 (f32 (of_int (uint raw)) / 1048576) * 100)"

definition temp_of_raw :: "u32 \<Rightarrow> rat" where
  "temp_of_raw raw = f32 (f32 (f32 (f32 (of_int (uint raw)) / 1048576) * 200) - 50)"

text \<open>\<open>data\<close> is the caller's struct as it finds it, \<open>None\<close> for a null pointer.\<close>

definition env_sensors_read_all ::
  "env_data option \<Rightarrow> ('x env_sensor_scheme, esp_err_t \<times> env_data option) op" where
  "env_sensors_read_all data =
     (case data of
        None \<Rightarrow> ret (ESP_ERR_INVALID_ARG, None)
      | Some d \<Rightarrow> do {
          call_err (I2c (I2cWriteDevice AHT20_ADDR [0xAC, 0x33, 0x00] 100));
          vTaskDelay 80;
          (err, aht_buf) \<leftarrow> call_err_bytes (I2c (I2cReadDevice AHT20_ADDR 6 100));
          let d = (if err = ESP_OK \<and> buf_at aht_buf 0 AND 0x80 = 0
            then d\<lparr>hum_aht := Finite (hum_of_raw (aht_hum_raw aht_buf)),
                   temp_aht := Finite (temp_of_raw (aht_temp_raw aht_buf))\<rparr>
            else d\<lparr>hum_aht := Finite 0, temp_aht := Finite 0\<rparr>);
          (err, bmp_buf) \<leftarrow> call_err_bytes (I2c (I2cWriteRead BMP280_ADDR [0xF7] 6 100));
          if err = ESP_OK then do {
            let adc_P = bmp_adc bmp_buf 0;
            let adc_T = bmp_adc bmp_buf 3;
            t_int \<leftarrow> bmp280_comp_T adc_T;
            p_int \<leftarrow> bmp280_comp_P adc_P;
            ret (ESP_OK, Some (d\<lparr>temp_bmp := Finite (f32 (f32 (of_int t_int) / 100)),
                   pres_bmp := Finite (f32 (f32 (f32 (of_int (uint p_int)) / 256) / 100))\<rparr>))
          }
          else ret (ESP_OK, Some d)
        })"

lemmas env_defs =
  bmp280_read_calib_def bmp280_comp_T_def bmp280_comp_P_def env_sensors_init_def
  env_sensors_read_all_def

section \<open>What the operations keep\<close>

lemma env_keeps [keeps_intro]:
  assumes "absorbs_on hw_neutral P" "ignores bmp_calib_update P" "ignores t_fine_update P"
  shows "keeps P env_sensors_init" "keeps P (env_sensors_read_all d)"
  using assms unfolding env_defs Let_def
  by (auto intro!: keeps_intro intro: absorbs_onD simp: ignoresD split: option.split)

section \<open>Temperature compensation\<close>

text \<open>The formula of the data sheet over the integers.\<close>

definition T_fine_exact :: "bmp280_calib \<Rightarrow> int \<Rightarrow> int" where
  "T_fine_exact c adc =
     (adc div 8 - 2 * dig_T1 c) * dig_T2 c div 2048 +
     ((adc div 16 - dig_T1 c) ^ 2 div 4096 * dig_T3 c) div 16384"

text \<open>Calibrations for which no intermediate result leaves 32 bits.\<close>

definition calib_moderate :: "bmp280_calib \<Rightarrow> bool" where
  "calib_moderate c \<longleftrightarrow> 26000 \<le> dig_T1 c \<and> dig_T1 c \<le> 39000 \<and>
     \<bar>dig_T2 c\<bar> \<le> 27000 \<and> \<bar>dig_T3 c\<bar> \<le> 5000"

lemma abs_mult_le: "\<bar>a\<bar> \<le> m \<Longrightarrow> \<bar>b\<bar> \<le> n \<Longrightarrow> \<bar>a * b\<bar> \<le> m * (n :: int)"
  unfolding abs_mult by (rule mult_mono) auto

lemma abs_div_le:
  assumes "0 < k" "\<bar>a\<bar> \<le> m * (k :: int)"
  shows "\<bar>a div k\<bar> \<le> m"
proof -
  have "- m * k \<le> a" "a \<le> m * k" using assms(2) by auto
  from zdiv_mono1 [OF this(1) assms(1)] zdiv_mono1 [OF this(2) assms(1)] assms(1)
  have "(- m) * k div k \<le> a div k" "a div k \<le> m" by simp_all
  moreover have "(- m) * k div k = - m"
    using assms(1) by (intro nonzero_mult_div_cancel_right) simp
  ultimately show ?thesis by linarith
qed

lemma T_fine_small:
  assumes "calib_moderate c" "0 \<le> adc" "adc < 2 ^ 20"
  shows "\<bar>T_fine_exact c adc\<bar> \<le> 1158898"
proof -
  let ?a = "adc div 8 - 2 * dig_T1 c" and ?d = "adc div 16 - dig_T1 c"
  have T: "26000 \<le> dig_T1 c" "dig_T1 c \<le> 39000" "\<bar>dig_T2 c\<bar> \<le> 27000" "\<bar>dig_T3 c\<bar> \<le> 5000"
    using assms(1) by (simp_all add: calib_moderate_def)
  have r: "0 \<le> adc div 8" "adc div 8 < 131072" "0 \<le> adc div 16" "adc div 16 < 65536"
    using assms(2,3) by (auto simp: div_less_iff_less_mult)
  have a: "\<bar>?a\<bar> \<le> 79071" and d: "\<bar>?d\<bar> \<le> 39535" using r T by linarith+
  have "\<bar>?a * dig_T2 c\<bar> \<le> 2134917000" using abs_mult_le [OF a T(3)] by simp
  then have v1: "\<bar>?a * dig_T2 c div 2048\<bar> \<le> 1042441"
    using abs_div_le [of 2048 "?a * dig_T2 c" 1042441] by simp
  define q where "q = ?d ^ 2"
  have "\<bar>q\<bar> \<le> 39535 * 39535" unfolding q_def power2_eq_square by (rule abs_mult_le [OF d d])
  then have "\<bar>q div 4096\<bar> \<le> 381596" using abs_div_le [of 4096 q 381596] by simp
  from abs_mult_le [OF this T(4)]
  have v2: "\<bar>q div 4096 * dig_T3 c div 16384\<bar> \<le> 116456"
    using abs_div_le [of 16384 "q div 4096 * dig_T3 c" 116456] by simp
  have "T_fine_exact c adc = ?a * dig_T2 c div 2048 + q div 4096 * dig_T3 c div 16384"
    unfolding T_fine_exact_def q_def ..
  with v1 v2 show ?thesis by linarith
qed

lemma comp_T_exact:
  assumes "calib_moderate c" "0 \<le> adc" "adc < 2 ^ 20"
  shows "comp_T c adc = (T_fine_exact c adc, (T_fine_exact c adc * 5 + 128) div 256)"
proof -
  let ?a = "adc div 8 - 2 * dig_T1 c" and ?d = "adc div 16 - dig_T1 c"
  have T: "26000 \<le> dig_T1 c" "dig_T1 c \<le> 39000" "\<bar>dig_T2 c\<bar> \<le> 27000" "\<bar>dig_T3 c\<bar> \<le> 5000"
    using assms(1) by (simp_all add: calib_moderate_def)
  have r: "0 \<le> adc div 8" "adc div 8 < 131072" "0 \<le> adc div 16" "adc div 16 < 65536"
    using assms(2,3) by (auto simp: div_less_iff_less_mult)
  have a: "\<bar>?a\<bar> \<le> 79071" and d: "\<bar>?d\<bar> \<le> 39535" using r T by linarith+
  have aT: "\<bar>?a * dig_T2 c\<bar> \<le> 2134917000" using abs_mult_le [OF a T(3)] by simp
  have dd: "\<bar>?d * ?d\<bar> \<le> 1563016225" using abs_mult_le [OF d d] by simp
  have dd0: "0 \<le> ?d * ?d" by simp
  have q: "0 \<le> ?d * ?d div 4096" "?d * ?d div 4096 \<le> 381595"
    using dd dd0 by (auto simp: pos_imp_zdiv_nonneg_iff)
  then have qa: "\<bar>?d * ?d div 4096\<bar> \<le> 381595" by linarith
  have qT: "\<bar>?d * ?d div 4096 * dig_T3 c\<bar> \<le> 1907975000" using abs_mult_le [OF qa T(4)] by simp
  have v1: "\<bar>?a * dig_T2 c div 2048\<bar> \<le> 1042441"
    using abs_div_le [of 2048 "?a * dig_T2 c" 1042441] aT by simp
  have v2: "\<bar>?d * ?d div 4096 * dig_T3 c div 16384\<bar> \<le> 116455"
    using abs_div_le [of 16384 "?d * ?d div 4096 * dig_T3 c" 116455] qT by simp
  have fine: "T_fine_exact c adc =
      ?a * dig_T2 c div 2048 + ?d * ?d div 4096 * dig_T3 c div 16384"
    by (simp add: T_fine_exact_def power2_eq_square)
  have f: "\<bar>T_fine_exact c adc\<bar> \<le> 1158896" 
    unfolding fine using order_trans [OF abs_triangle_ineq add_mono [OF v1 v2]] by simp
  have c1: "s32 (dig_T1 c * 2) = 2 * dig_T1 c" using T by (subst s32_id) auto
  note c2 = s32_abs [OF a] and c3 = s32_abs [OF d] and c4 = s32_abs [OF aT] and c5 = s32_abs [OF dd]
    and c6 = s32_abs [OF qT] and c7 = s32_abs [OF f]
  have f5: "\<bar>T_fine_exact c adc * 5\<bar> \<le> 5794480" using f by linarith
  then have "\<bar>T_fine_exact c adc * 5 + 128\<bar> \<le> 5794608" by linarith
  note c8 = s32_abs [OF f5] s32_abs [OF this]
  show ?thesis
    by (simp add: comp_T_def Let_def asr_def c1 c2 c3 c4 c5 c6 c7 c8 flip: fine)
qed

section \<open>Ranges of the readings\<close>

lemma raw20:
  fixes x y z :: u32
  assumes "\<And>i. bit x i \<Longrightarrow> i < 20" "\<And>i. bit y i \<Longrightarrow> i < 20" "\<And>i. bit z i \<Longrightarrow> i < 20"
  shows "uint (x OR y OR z) < 2 ^ 20"
proof -
  have "take_bit 20 (x OR y OR z) = x OR y OR z"
    by (rule bit_word_eqI) (auto simp: bit_take_bit_iff bit_or_iff dest: assms)
  then have "uint (x OR y OR z) = take_bit 20 (uint (x OR y OR z))"
    by (metis unsigned_take_bit_eq)
  also have "\<dots> < 2 ^ 20" by (rule take_bit_int_less_exp)
  finally show ?thesis .
qed

lemma byte_bit_less: "bit (b :: byte) i \<Longrightarrow> i < 8"
  by (auto dest: bit_imp_le_length)

lemma hum_raw_bound: "uint (aht_hum_raw b) < 2 ^ 20"
  unfolding aht_hum_raw_def or.assoc
  by (rule raw20) (auto simp: bit_push_bit_iff bit_ucast_iff bit_drop_bit_eq dest!: byte_bit_less)

lemma low_nibble_bit: "bit (x AND 0xF :: byte) j \<Longrightarrow> j < 4"
proof -
  assume "bit (x AND 0xF :: byte) j"
  moreover have "(0xF :: byte) = mask 4" by (simp add: mask_eq_exp_minus_1)
  ultimately show ?thesis by (simp add: bit_and_iff bit_mask_iff)
qed

lemma temp_raw_bound: "uint (aht_temp_raw b) < 2 ^ 20"
  unfolding aht_temp_raw_def or.assoc
proof (rule raw20)
  fix i assume "bit (push_bit 16 (ucast (buf_at b 3 AND 0xF)) :: u32) i"
  then have "16 \<le> i" "bit (buf_at b 3 AND 0xF) (i - 16)"
    by (simp_all only: bit_push_bit_iff bit_ucast_iff)
  from low_nibble_bit [OF this(2)] this(1) show "i < 20" by arith
qed (auto simp: bit_push_bit_iff bit_ucast_iff dest!: byte_bit_less)

lemma bmp_adc_bound: "0 \<le> bmp_adc b i" "bmp_adc b i < 2 ^ 20"
proof -
  show "0 \<le> bmp_adc b i" by (simp add: bmp_adc_def)
  show "bmp_adc b i < 2 ^ 20" unfolding bmp_adc_def or.assoc
    by (rule raw20) (auto simp: bit_push_bit_iff bit_ucast_iff bit_drop_bit_eq dest!: byte_bit_less)
qed

lemma ratio_range:
  assumes "0 \<le> n" "n < 2 ^ 20"
  shows "0 \<le> f32 (f32 (of_int n) / 1048576)" "f32 (f32 (of_int n) / 1048576) \<le> 1000001 / 1000000"
proof -
  let ?x = "of_int n :: rat"
  have x: "0 \<le> ?x" "?x \<le> 1048576" using assms by auto
  have y: "0 \<le> f32 ?x" using x(1) by (rule f32_nonneg)
  have "f32 ?x \<le> 1048576 + 1048576 / 2 ^ 24" by (rule f32_upper) (use x in auto)
  then have z: "f32 ?x / 1048576 \<le> 1 + 1 / 2 ^ 24" by simp
  have z0: "0 \<le> f32 ?x / 1048576" using y by simp
  show "0 \<le> f32 (f32 ?x / 1048576)" using z0 by (rule f32_nonneg)
  have "f32 (f32 ?x / 1048576) \<le> (1 + 1 / 2 ^ 24) + (1 + 1 / 2 ^ 24) / 2 ^ 24"
    by (rule f32_upper) (use z z0 in auto)
  also have "\<dots> \<le> 1000001 / 1000000" by simp
  finally show "f32 (f32 ?x / 1048576) \<le> 1000001 / 1000000" .
qed

lemma hum_range:
  assumes "uint raw < 2 ^ 20"
  shows "0 \<le> hum_of_raw raw" "hum_of_raw raw \<le> 100 + 1 / 1000"
proof -
  let ?r = "f32 (f32 (of_int (uint raw)) / 1048576) * 100"
  have r: "0 \<le> ?r" "?r \<le> 100 + 1 / 10000" using ratio_range [OF _ assms] by simp_all
  show "0 \<le> hum_of_raw raw" unfolding hum_of_raw_def using r(1) by (rule f32_nonneg)
  have "f32 ?r \<le> (100 + 1 / 10000) + (100 + 1 / 10000) / 2 ^ 24"
    by (rule f32_upper) (use r in auto)
  then show "hum_of_raw raw \<le> 100 + 1 / 1000" unfolding hum_of_raw_def by simp
qed

lemma temp_range:
  assumes "uint raw < 2 ^ 20"
  shows "- 50 - 1 / 1000 \<le> temp_of_raw raw" "temp_of_raw raw \<le> 150 + 1 / 1000"
proof -
  let ?r = "f32 (f32 (of_int (uint raw)) / 1048576) * 200"
  have r: "0 \<le> ?r" "?r \<le> 200 + 1 / 5000" using ratio_range [OF _ assms] by simp_all
  have q0: "0 \<le> f32 ?r" using r(1) by (rule f32_nonneg)
  have "f32 ?r \<le> (200 + 1 / 5000) + (200 + 1 / 5000) / 2 ^ 24"
    by (rule f32_upper) (use r in auto)
  then have q1: "f32 ?r - 50 \<le> 150 + 1 / 4000" by simp
  have q2: "- 50 \<le> f32 ?r - 50" using q0 by simp
  have q3: "\<bar>f32 ?r - 50\<bar> \<le> 151" using q1 q2 by (simp add: abs_le_iff)
  have "- 50 - 151 / 2 ^ 24 \<le> f32 (f32 ?r - 50)" "f32 (f32 ?r - 50) \<le> (150 + 1 / 4000) + 151 / 2 ^ 24"
    using f32_lower [OF q2 q3] f32_upper [OF q1 q3] by blast+
  then show "- 50 - 1 / 1000 \<le> temp_of_raw raw" "temp_of_raw raw \<le> 150 + 1 / 1000"
    unfolding temp_of_raw_def by simp_all
qed

text \<open>
  The AHT20's part of a reading is in the sensor's range. The BMP280's numbers are
  bounded by the arithmetic: by the 32 bits of the compensated results for any
  calibration, and for a calibration around the data sheet's the temperature is
  within 227 degrees.
\<close>

definition aht_in_range :: "env_data \<Rightarrow> bool" where
  "aht_in_range d \<longleftrightarrow>
     (\<exists>h t. hum_aht d = Finite h \<and> temp_aht d = Finite t \<and>
        0 \<le> h \<and> h \<le> 100 + 1 / 1000 \<and> - 50 - 1 / 1000 \<le> t \<and> t \<le> 150 + 1 / 1000)"

definition bmp_in_range :: "bmp280_calib \<Rightarrow> env_data \<Rightarrow> bool" where
  "bmp_in_range c d \<longleftrightarrow>
     (\<exists>p t. pres_bmp d = Finite p \<and> temp_bmp d = Finite t \<and> 0 \<le> p \<and> p \<le> 167773 \<and>
        \<bar>t\<bar> \<le> (if calib_moderate c then 227 else 83887))"

text \<open>What the text of a reading relies on: the pressure is some value of its type.\<close>

definition reading_printable :: "env_data \<Rightarrow> bool" where
  "reading_printable d \<longleftrightarrow> aht_in_range d \<and> float_wf (pres_bmp d)"

lemma pres_range:
  fixes p :: u32
  shows "0 \<le> f32 (f32 (f32 (of_int (uint p)) / 256) / 100)"
    "f32 (f32 (f32 (of_int (uint p)) / 256) / 100) \<le> 167773"
proof -
  let ?x = "of_int (uint p) :: rat"
  have "(of_int (uint p) :: rat) < of_int (2 ^ 32)"
    using uint_lt2p [of p] by (simp only: of_int_less_iff) simp
  then have x: "0 \<le> ?x" "?x \<le> 2 ^ 32" by (simp_all only: of_int_0_le_iff uint_ge_0) simp
  have a: "0 \<le> f32 ?x" "f32 ?x \<le> 2 ^ 32 + 256"
    using f32_nonneg [OF x(1)] f32_upper [of ?x "2 ^ 32" "2 ^ 32"] x by auto
  have b: "0 \<le> f32 ?x / 256" "f32 ?x / 256 \<le> 2 ^ 24 + 1" using a by auto
  have c: "0 \<le> f32 (f32 ?x / 256)" "f32 (f32 ?x / 256) \<le> 2 ^ 24 + 3"
    using f32_nonneg [OF b(1)] f32_upper [of "f32 ?x / 256" "2 ^ 24 + 1" "2 ^ 25"] b by auto
  have d: "0 \<le> f32 (f32 ?x / 256) / 100" "f32 (f32 ?x / 256) / 100 \<le> 167772 + 1 / 2" using c by auto
  show "0 \<le> f32 (f32 (f32 ?x / 256) / 100)" "f32 (f32 (f32 ?x / 256) / 100) \<le> 167773"
    using f32_nonneg [OF d(1)] f32_upper [of "f32 (f32 ?x / 256) / 100" "167772 + 1 / 2" "2 ^ 18"] d by auto
qed

lemma hundredth_range:
  assumes "\<bar>t\<bar> \<le> m" "m \<le> 2 ^ 23"
  shows "\<bar>f32 (f32 (of_int t) / 100)\<bar> \<le> of_int m / 100 + 1 / 50"
proof -
  let ?x = "of_int t :: rat" and ?m = "of_int m :: rat"
  have "\<bar>?x\<bar> = of_int \<bar>t\<bar>" by simp
  also have "\<dots> \<le> ?m" using assms(1) by (simp only: of_int_le_iff)
  finally have x: "\<bar>?x\<bar> \<le> ?m" .
  have "(of_int m :: rat) \<le> of_int (2 ^ 23)" using assms(2) by (simp only: of_int_le_iff)
  then have m: "?m \<le> 2 ^ 23" by simp
  have "\<bar>f32 ?x - ?x\<bar> \<le> 1 / 2" using f32_near [OF x] m by simp
  then have y: "\<bar>f32 ?x\<bar> \<le> ?m + 1 / 2" using x by linarith
  then have z: "\<bar>f32 ?x / 100\<bar> \<le> (?m + 1 / 2) / 100" by (simp add: abs_divide)
  have "\<bar>f32 (f32 ?x / 100) - f32 ?x / 100\<bar> \<le> (?m + 1 / 2) / 100 / 2 ^ 24" by (rule f32_near [OF z])
  also have "\<dots> \<le> 1 / 100" using m by simp
  finally have e: "\<bar>f32 (f32 ?x / 100) - f32 ?x / 100\<bar> \<le> 1 / 100" .
  have "\<bar>f32 (f32 ?x / 100)\<bar> = \<bar>(f32 (f32 ?x / 100) - f32 ?x / 100) + f32 ?x / 100\<bar>" by simp
  also have "\<dots> \<le> 1 / 100 + (?m + 1 / 2) / 100"
    by (rule order_trans [OF abs_triangle_ineq add_mono [OF e z]])
  also have "\<dots> \<le> ?m / 100 + 1 / 50" by (simp add: add_divide_distrib)
  finally show ?thesis .
qed

text \<open>The compensated temperature in hundredths of a degree.\<close>

lemma comp_T_bound:
  assumes "0 \<le> adc" "adc < 2 ^ 20"
  shows "\<bar>snd (comp_T c adc)\<bar> \<le> (if calib_moderate c then 22636 else 2 ^ 23)"
proof (cases "calib_moderate c")
  case True
  have "\<bar>T_fine_exact c adc * 5 + 128\<bar> \<le> 22636 * 256"
    using T_fine_small [OF True assms] by linarith
  from abs_div_le [OF _ this] True show ?thesis by (simp add: comp_T_exact [OF True assms])
next
  case False
  have "\<bar>s32 x\<bar> \<le> 2 ^ 23 * 2 ^ 8" for x
    using signed_take_bit_int_greater_eq_minus_exp [of 31 x] signed_take_bit_int_less_exp [of 31 x]
    by (simp add: s32_def)
  from abs_div_le [OF _ this] False show ?thesis by (simp add: comp_T_def Let_def asr_def)
qed

definition aht_calls :: "call list" where
  "aht_calls = [I2c (I2cWriteDevice 0x38 [0xAC, 0x33, 0x00] 100), Rtos (TaskDelay 80),
     I2c (I2cReadDevice 0x38 6 100)]"

text \<open>When the transfer from the BMP280 fails, its two fields are the caller's.\<close>

lemma read_all_ok:
  "\<exists>d. result (env_sensors_read_all (Some d0)) s = (ESP_OK, Some d) \<and> aht_in_range d \<and>
    (if err_of (ext s) (trace s @ aht_calls) (I2c (I2cWriteRead 0x77 [0xF7] 6 100)) = ESP_OK
     then bmp_in_range (bmp_calib s) d
     else temp_bmp d = temp_bmp d0 \<and> pres_bmp d = pres_bmp d0)"
proof -
  have T: "\<bar>f32 (f32 (of_int (snd (comp_T c (bmp_adc b i)))) / 100)\<bar> \<le> (if calib_moderate c then 227 else 83887)"
    for c b i
    using hundredth_range [OF comp_T_bound [OF bmp_adc_bound, of c b i]] by (auto split: if_splits)
  show ?thesis
    using hum_range [OF hum_raw_bound] temp_range [OF temp_raw_bound] pres_range T
    by (simp add: env_sensors_read_all_def bmp280_comp_T_def bmp280_comp_P_def aht_in_range_def
        bmp_in_range_def aht_calls_def Let_def case_prod_beta)
qed

lemma bmp_printable:
  assumes "aht_in_range d" "bmp_in_range c d"
  shows "reading_printable d"
  using assms by (auto simp: reading_printable_def bmp_in_range_def)

end
