(* ===== verification/Machine.thy ===== *)
theory Machine
  imports Ui
begin

text \<open>
  State predicates that everything above the screen keeps. The components from
  here on touch the hardware only through the indicator and screen operations, so
  one predicate class, \<open>app_pred\<close>, serves for all of them; what a component calls
  besides is a further assumption of its lemma. \<open>machine_inv\<close> (bus discipline,
  expander in step with its shadow register, inputs high) and \<open>ui_inv\<close> (the display
  shows the saved lines) are instances, and so is every frame condition
  (\<open>app_pred_frame\<close>).
\<close>

text \<open>Calls that touch neither a mutex nor the bus; and the calls of the components up to the screen.\<close>

fun neutral :: "call \<Rightarrow> bool" where
  "neutral (Rtos (SemTake _)) = False"
| "neutral (Rtos (SemGive _)) = False"
| "neutral (I2c (I2cCmdBegin ops _)) = (\<not> link_writes ops)"
| "neutral _ = True"

fun scroll_call :: "call \<Rightarrow> bool" where
  "scroll_call (Rtos (TimerStart ScrollTimer)) = True"
| "scroll_call (Rtos (TimerReset ScrollTimer)) = True"
| "scroll_call (Rtos (TimerStop ScrollTimer)) = True"
| "scroll_call _ = False"

fun low_call :: "call \<Rightarrow> bool" where
  "low_call (Rtos c) = (\<not> scroll_call (Rtos c))"
| "low_call (I2c _) = True"
| "low_call _ = False"

lemma neutral_hw: "hw_neutral c \<Longrightarrow> neutral c"
  by (cases c rule: hw_neutral.cases) auto

lemma low_call_hw: "hw_neutral c \<Longrightarrow> low_call c"
  by (cases c rule: hw_neutral.cases) auto

lemma absorbs_on_hw: "absorbs_on neutral P \<Longrightarrow> absorbs_on hw_neutral P"
  using neutral_hw by (auto simp: absorbs_on_def)

lemma mutex_step_neutral: "neutral c \<Longrightarrow> mutex_step st c = st"
  by (cases "(st, c)" rule: mutex_step.cases) auto

lemma neutral_no_write: "neutral c \<Longrightarrow> pcf_byte a c = []"
  by (cases "(a, c)" rule: pcf_byte.cases) auto

section \<open>The class\<close>

definition app_pred :: "('x ui_scheme \<Rightarrow> bool) \<Rightarrow> bool" where
  "app_pred P \<longleftrightarrow>
     absorbs_on hw_neutral P \<and> (\<forall>p l. keeps P (io_expander_set_level p l)) \<and> ind_fields_free P \<and>
     (\<forall>a b. keeps P (ui_set_text a b)) \<and> keeps P ui_restore_screen \<and>
     keeps P ui_restore_timer_callback \<and> (\<forall>m. keeps P (ui_show_error m)) \<and>
     (\<forall>t e d. keeps P (ui_show_temp_error t e d)) \<and> (\<forall>a b d. keeps P (ui_show_popup a b d))"

lemma app_pred_hw: "app_pred P \<Longrightarrow> absorbs_on hw_neutral P"
  by (simp add: app_pred_def)

lemma app_pred_absorbs: "app_pred P \<Longrightarrow> hw_neutral c \<Longrightarrow> absorbs P c"
  by (rule absorbs_onD [OF app_pred_hw])

lemma app_pred_set_level: "app_pred P \<Longrightarrow> keeps P (io_expander_set_level p l)"
  by (simp add: app_pred_def)

lemma app_pred_ui [keeps_intro]:
  assumes "app_pred P"
  shows "keeps P (ui_set_text a b)" "keeps P ui_restore_screen" "keeps P ui_restore_timer_callback"
    "keeps P (ui_show_error m)" "keeps P (ui_show_temp_error txo e d)" "keeps P (ui_show_popup a b d)"
    "keeps P (ui_show_boot_progress tx i n)" "keeps P (ui_show_temp_message txo d)"
    "keeps P (ui_show_split_temp_message txo txo' d)"
    "keeps P (ui_show_temp_cmd_message tx d)" "keeps P (ui_show_fixed_temp_cmd_message tx)"
    "keeps P (ui_show_network_dashboard ip mac)" "keeps P (ui_critical_screen tx e)"
proof -
  show base: "keeps P (ui_set_text a b)" "keeps P ui_restore_screen" "keeps P ui_restore_timer_callback"
    "keeps P (ui_show_error m)" "keeps P (ui_show_temp_error txo e d)" "keeps P (ui_show_popup a b d)"
    for a b m txo e d
    using assms by (simp_all add: app_pred_def)
  show "keeps P (ui_show_boot_progress tx i n)" "keeps P (ui_show_temp_message txo d)"
    "keeps P (ui_show_split_temp_message txo txo' d)"
    "keeps P (ui_show_temp_cmd_message tx d)" "keeps P (ui_show_fixed_temp_cmd_message tx)"
    "keeps P (ui_show_network_dashboard ip mac)" "keeps P (ui_critical_screen tx e)"
    unfolding ui_show_boot_progress_def ui_show_temp_message_def ui_show_split_temp_message_def
      ui_show_temp_cmd_message_def ui_show_fixed_temp_cmd_message_def
      ui_show_network_dashboard_def ui_critical_screen_def Let_def
    by (auto intro!: keeps_intro base split: option.split prod.split)
qed

lemma app_pred_ind [keeps_intro]:
  assumes "app_pred P"
  shows "keeps P (sys_ind_led_eth_set_link on)" "keeps P sys_ind_led_eth_packet_activity"
    "keeps P (sys_ind_led_io_execution n)" "keeps P sys_ind_led_io_cmd_execution"
    "keeps P sys_ind_led_io_error_execution" "keeps P (sys_ind_lcd_backlight_set on)"
    "keeps P (sys_ind_set_error b)" "keeps P (sys_ind_buzzer_sound k w)"
    "keeps P (sys_ind_fixed_buzzer_sound k)"
  using assms app_pred_hw [OF assms] unfolding app_pred_def ind_fields_free_def
  by (auto intro!: keeps_intro)

text \<open>A predicate that absorbs the lower components' calls and ignores their variables.\<close>

lemma app_pred_frame:
  assumes "absorbs_on low_call P" "ignores port_shadow_update P" "ui_fields_free P" "ind_fields_free P"
  shows "app_pred P"
proof -
  note [intro] = absorbs_onD [OF assms(1)]
  have hw: "absorbs_on hw_neutral P"
    using assms(1) low_call_hw by (auto simp: absorbs_on_def)
  have commit: "keeps P commit_to_hardware"
    unfolding commit_to_hardware_def i2c_bus_lock_def i2c_bus_unlock_def i2c_bus_pcf8574_write_byte_def
    by (auto intro!: keeps_intro)
  have pin: "keeps P (io_expander_set_level p l)" for p l
    unfolding io_expander_set_level_def using assms(2)
    by (auto intro!: keeps_intro commit simp: ignoresD)
  have nibble: "keeps P (lcd_driver_write_nibble n m)" for n m
    unfolding lcd_driver_write_nibble_def i2c_bus_lock_def i2c_bus_unlock_def
      i2c_bus_pcf8574_write_byte_def Let_def
    by (auto intro!: keeps_intro)
  show ?thesis
    unfolding app_pred_def using assms(4) hw pin ui_keeps [OF hw nibble assms(3)] by simp
qed

section \<open>The instances\<close>

definition machine_inv :: "'x ui_scheme \<Rightarrow> bool" where
  "machine_inv s \<longleftrightarrow> bus_inv s \<and> inputs_high s \<and> expander_coherent s"

lemma exec_write_nibble:
  assumes "bus_inv s"
  shows "\<exists>t. exec (lcd_driver_write_nibble n m) s = s\<lparr>trace := trace s @ t\<rparr> \<and>
     pcf_writes 0x20 t = [] \<and> foldl mutex_step (False, False, True) t = (False, False, True)"
  using assms
  by (auto simp: bus_inv_def lcd_driver_write_nibble_def run_simps take_ok_bool Let_def
      push_bit_eq_mult)

lemma keeps_machine_nibble: "keeps machine_inv (lcd_driver_write_nibble n m)"
proof (rule keepsI)
  fix s :: "'a ui_scheme"
  assume inv: "machine_inv s"
  then have bus: "bus_inv s" by (simp add: machine_inv_def)
  from exec_write_nibble [OF bus, of n m] obtain t where
    t: "exec (lcd_driver_write_nibble n m) s = s\<lparr>trace := trace s @ t\<rparr>" "pcf_writes 0x20 t = []"
      "foldl mutex_step (False, False, True) t = (False, False, True)" by blast
  from inv t show "machine_inv (exec (lcd_driver_write_nibble n m) s)"
    by (simp add: machine_inv_def bus_inv_def inputs_high_def expander_coherent_def mutex_mon_append)
qed

lemma machine_free: "ui_fields_free machine_inv" "ind_fields_free machine_inv"
  by (simp_all add: ui_fields_free_def ind_fields_free_def ignores_def machine_inv_def bus_inv_def
      inputs_high_def expander_coherent_def)

lemma absorbs_machine: "absorbs_on neutral machine_inv"
  by (simp add: absorbs_on_def absorbs_def machine_inv_def bus_inv_def inputs_high_def
      expander_coherent_def mutex_step_neutral neutral_no_write)

lemma keeps_machine_set_level: "keeps machine_inv (io_expander_set_level p l)"
  using keeps_bus_inv_set_level [of p l] keeps_inputs_high_set_level [of p l]
    keeps_coherent_set_level [of p l]
  by (auto simp: keeps_def machine_inv_def)

lemma app_pred_machine: "app_pred machine_inv"
  unfolding app_pred_def
  using absorbs_machine keeps_machine_set_level machine_free
  by (auto intro!: ui_keeps keeps_machine_nibble absorbs_on_hw)

lemma absorbs_ui_inv: "absorbs_on neutral ui_inv"
  by (auto simp: absorbs_on_def absorbs_def ui_inv_def ui_lines_wf_def shows_lines_def
      screen_row_quiet neutral_no_write)

lemma set_level_calls_lcd [simp]: "pcf_writes 0x27 (set_level_calls bus d) = []"
  by (simp add: set_level_calls_def push_bit_eq_mult)

lemma keeps_ui_inv_set_level: "keeps ui_inv (io_expander_set_level p l)"
  by (rule keepsI)
    (simp add: exec_set_level ui_inv_def ui_lines_wf_def shows_lines_def lcd_ready_def
      screen_row_def lcd_screen_def)

lemma ui_inv_ind_free: "ind_fields_free ui_inv"
  by (simp add: ind_fields_free_def ignores_def ui_inv_def ui_lines_wf_def shows_lines_def lcd_ready_def)

lemma app_pred_ui_inv: "app_pred ui_inv"
  unfolding app_pred_def
  using absorbs_ui_inv keeps_ui_inv_set_level ui_inv_ind_free
  by (auto intro: absorbs_on_hw ui_inv_set_text ui_inv_restore ui_inv_restore_timer ui_inv_show_error
      ui_inv_temp_error ui_inv_popup)

end
