(* ===== verification/Ntp_Service.thy ===== *)
theory Ntp_Service
  imports Platform
begin

text \<open>
  \<open>components/ntp_service\<close>: setting the time zone, starting SNTP, the bounded wait
  for the first synchronisation, and the date and time texts.
\<close>

section \<open>Operations\<close>

abbreviation (input) NTP_SYNC_TIMEOUT_MS :: nat where "NTP_SYNC_TIMEOUT_MS \<equiv> 10000"
abbreviation (input) SNTP_SYNC_STATUS_RESET :: int where "SNTP_SYNC_STATUS_RESET \<equiv> 0"

text \<open>
  \<open>strftime\<close> for the two formats used. A text that does not fit leaves the buffer
  undefined in C; \<open>length_date_text\<close> and \<open>length_time_text\<close> show that it fits.
\<close>

definition day_name :: "nat \<Rightarrow> string" where
  "day_name d = (if d < 7
     then [''Sun'', ''Mon'', ''Tue'', ''Wed'', ''Thu'', ''Fri'', ''Sat''] ! d else ''?'')"

definition two_digits :: "nat \<Rightarrow> string" where
  "two_digits n = pad_left 2 (CHR ''0'') (dec_str n)"

definition strftime_date :: "tm \<Rightarrow> string" where
  "strftime_date t =
     day_name (tm_wday t) @ '' '' @ two_digits (tm_mday t) @ ''.'' @ two_digits (tm_mon t + 1) @
     ''.'' @ fmt_d (tm_year t + 1900)"

definition strftime_time :: "tm \<Rightarrow> string" where
  "strftime_time t =
     two_digits (tm_hour t) @ '':'' @ two_digits (tm_min t) @ '':'' @ two_digits (tm_sec t)"

text \<open>
  A buffer argument is its size, \<open>None\<close> for a null pointer; the result carries what
  was written to each, \<open>None\<close> when nothing was.
\<close>

definition ntp_service_get_time_and_date_strs ::
  "nat option \<Rightarrow> nat option \<Rightarrow> ('x platform_scheme, bool \<times> string option \<times> string option) op" where
  "ntp_service_get_time_and_date_strs date_buffer time_buffer = do {
     call_unit (Time LocalTime);
     timeinfo \<leftarrow> gets (\<lambda>s. local_tm (ext s) (trace s));
     if tm_year timeinfo < 2020 - 1900 then ret (False, None, None)
     else
       ret (True,
         (case date_buffer of
            Some n \<Rightarrow> if n > 0 then Some (c_trunc n (strftime_date timeinfo)) else None
          | None \<Rightarrow> None),
         (case time_buffer of
            Some n \<Rightarrow> if n > 0 then Some (c_trunc n (strftime_time timeinfo)) else None
          | None \<Rightarrow> None))
   }"

text \<open>The wait loop, from the value of \<open>retry\<close>; it returns the final \<open>retry\<close>.\<close>

function ntp_sync_wait :: "nat \<Rightarrow> nat \<Rightarrow> ('x platform_scheme, nat) op" where
  "ntp_sync_wait retry_count retry = do {
     st \<leftarrow> call_int (Time SntpStatus);
     if st = SNTP_SYNC_STATUS_RESET then
       if Suc retry < retry_count then do {
         vTaskDelay 100;
         ntp_sync_wait retry_count (Suc retry)
       }
       else ret (Suc retry)
     else ret retry
   }"
  by pat_completeness auto
termination by (relation "measure (\<lambda>(n, r). n - r)") auto

declare ntp_sync_wait.simps [simp del]

definition ntp_service_init ::
  "string option \<Rightarrow> string option \<Rightarrow> ('x platform_scheme, esp_err_t) op" where
  "ntp_service_init server timezone =
     (case (server, timezone) of
        (Some srv, Some tz) \<Rightarrow> do {
          r \<leftarrow> call_int (Time (SetTz tz));
          if r \<noteq> 0 then ret ESP_FAIL
          else do {
            call_unit (Time SntpSetMode);
            call_unit (Time (SntpSetServer srv));
            en \<leftarrow> call_bool (Time SntpEnabled);
            whenM en (call_unit (Time SntpStop));
            call_unit (Time SntpInit);
            let retry_count = NTP_SYNC_TIMEOUT_MS div 100;
            retry \<leftarrow> ntp_sync_wait retry_count 0;
            if retry = retry_count then ret ESP_ERR_TIMEOUT
            else do {
              ntp_service_get_time_and_date_strs (Some 32) (Some 32);
              ret ESP_OK
            }
          }
        }
      | _ \<Rightarrow> ret ESP_ERR_INVALID_ARG)"

section \<open>What the operations keep\<close>

lemma ntp_wait_keeps:
  assumes "\<And>c. absorbs P (Time c)" "\<And>n. absorbs P (Rtos (TaskDelay n))"
  shows "keeps P (ntp_sync_wait n r)"
proof (induction n r rule: ntp_sync_wait.induct)
  case (1 n r)
  then show ?case
    using assms by (subst ntp_sync_wait.simps) (auto intro!: keeps_intro)
qed

lemma ntp_keeps [keeps_intro]:
  assumes "\<And>c. absorbs P (Time c)" "\<And>n. absorbs P (Rtos (TaskDelay n))"
  shows "keeps P (ntp_service_get_time_and_date_strs d t)" "keeps P (ntp_service_init srv tz)"
  using assms unfolding ntp_service_get_time_and_date_strs_def ntp_service_init_def
  by (auto intro!: keeps_intro ntp_wait_keeps split: option.split)

section \<open>The wait\<close>

text \<open>The status the poll after \<open>k\<close> rounds of the loop reads.\<close>

definition poll_trace :: "call list \<Rightarrow> nat \<Rightarrow> call list" where
  "poll_trace t k = t @ concat (replicate k [Time SntpStatus, Rtos (TaskDelay 100)])"

definition poll_status :: "'x platform_scheme \<Rightarrow> nat \<Rightarrow> int" where
  "poll_status s k = int_of (ext s) (poll_trace (trace s) k) (Time SntpStatus)"

lemma poll_trace_Suc:
  "poll_trace t (Suc k) = poll_trace (t @ [Time SntpStatus, Rtos (TaskDelay 100)]) k"
  by (simp add: poll_trace_def)

lemma poll_status_step:
  "poll_status (s\<lparr>trace := trace s @ [Time SntpStatus, Rtos (TaskDelay 100)]\<rparr>) k = poll_status s (Suc k)"
  by (simp add: poll_status_def poll_trace_Suc)

lemma run_ntp_wait:
  assumes "r < n"
  shows "run_state (ntp_sync_wait n r) s =
    (if \<forall>k<n - r. poll_status s k = SNTP_SYNC_STATUS_RESET
     then (n, s\<lparr>trace := poll_trace (trace s) (n - r - 1) @ [Time SntpStatus]\<rparr>)
     else (let k = LEAST k. poll_status s k \<noteq> SNTP_SYNC_STATUS_RESET
           in (r + k, s\<lparr>trace := poll_trace (trace s) k @ [Time SntpStatus]\<rparr>)))"
  using assms
proof (induction n r arbitrary: s rule: ntp_sync_wait.induct)
  case (1 n r)
  have p0: "poll_status s 0 = int_of (ext s) (trace s) (Time SntpStatus)"
    by (simp add: poll_status_def poll_trace_def)
  show ?case
  proof (cases "poll_status s 0 = SNTP_SYNC_STATUS_RESET")
    case False
    then have "(LEAST k. poll_status s k \<noteq> SNTP_SYNC_STATUS_RESET) = 0"
      by (intro Least_eq_0) simp
    moreover have "\<not> (\<forall>k<n - r. poll_status s k = SNTP_SYNC_STATUS_RESET)"
      using False "1.prems" by (auto intro!: exI [of _ 0])
    ultimately show ?thesis
      using False p0 by (subst ntp_sync_wait.simps) (auto simp: poll_trace_def)
  next
    case reset: True
    show ?thesis
    proof (cases "Suc r < n")
      case False
      with "1.prems" have "n = Suc r" by simp
      with reset p0 show ?thesis
        by (subst ntp_sync_wait.simps) (auto simp: poll_trace_def)
    next
      case True
      let ?s = "s\<lparr>trace := trace s @ [Time SntpStatus, Rtos (TaskDelay 100)]\<rparr>"
      have IH: "run_state (ntp_sync_wait n (Suc r)) ?s =
        (if \<forall>k<n - Suc r. poll_status ?s k = SNTP_SYNC_STATUS_RESET
         then (n, ?s\<lparr>trace := poll_trace (trace ?s) (n - Suc r - 1) @ [Time SntpStatus]\<rparr>)
         else (let k = LEAST k. poll_status ?s k \<noteq> SNTP_SYNC_STATUS_RESET
           in (Suc r + k, ?s\<lparr>trace := poll_trace (trace ?s) k @ [Time SntpStatus]\<rparr>)))"
        by (rule "1.IH" [OF refl True True])
      have step: "run_state (ntp_sync_wait n r) s = run_state (ntp_sync_wait n (Suc r)) ?s"
        using reset True p0 by (subst ntp_sync_wait.simps) simp
      have all: "(\<forall>k<n - Suc r. poll_status s (Suc k) = SNTP_SYNC_STATUS_RESET) \<longleftrightarrow>
          (\<forall>k<n - r. poll_status s k = SNTP_SYNC_STATUS_RESET)"
        using reset True by (auto simp: less_Suc_eq_0_disj Suc_diff_Suc [symmetric])
      have least: "(LEAST k. poll_status s k \<noteq> SNTP_SYNC_STATUS_RESET) =
          Suc (LEAST k. poll_status s (Suc k) \<noteq> SNTP_SYNC_STATUS_RESET)"
        if "\<not> (\<forall>k<n - Suc r. poll_status s (Suc k) = SNTP_SYNC_STATUS_RESET)"
        using that reset by (auto intro!: Least_Suc)
      have tr: "poll_trace (trace ?s) (n - Suc r - 1) = poll_trace (trace s) (n - r - 1)"
        using True poll_trace_Suc [of "trace s" "n - Suc r - 1"] by (simp add: Suc_diff_Suc)
      show ?thesis
        unfolding step IH poll_status_step
        using all least tr by (auto simp: Let_def poll_trace_Suc)
    qed
  qed
qed

section \<open>The texts\<close>

lemma length_two_digits: "n < 100 \<Longrightarrow> length (two_digits n) = 2"
  using length_dec_str [of n 2] by (simp add: two_digits_def cstr_simps)

definition tm_wf :: "tm \<Rightarrow> bool" where
  "tm_wf t \<longleftrightarrow> tm_wday t < 7 \<and> 1 \<le> tm_mday t \<and> tm_mday t \<le> 31 \<and> tm_mon t < 12 \<and>
     tm_hour t < 24 \<and> tm_min t < 60 \<and> tm_sec t < 61 \<and> tm_year t < 8100"

lemma length_day_name: "d < 7 \<Longrightarrow> length (day_name d) = 3"
  by (auto simp: day_name_def less_Suc_eq numeral_eq_Suc)

lemma length_date_text:
  assumes "tm_wf t" "2020 - 1900 \<le> tm_year t"
  shows "length (strftime_date t) \<le> 14"
proof -
  have "nat (tm_year t + 1900) < 10 ^ 4"
    using assms by (simp add: tm_wf_def nat_less_iff)
  then have "length (fmt_d (tm_year t + 1900)) \<le> 4"
    using assms by (simp add: length_dec_str fmt_d_def)
  then show ?thesis
    using assms by (simp add: strftime_date_def tm_wf_def length_day_name length_two_digits)
qed

lemma length_time_text: "tm_wf t \<Longrightarrow> length (strftime_time t) = 8"
  by (simp add: strftime_time_def tm_wf_def length_two_digits)

end
