(* ===== verification/Eth_W5500.thy ===== *)
theory Eth_W5500
  imports Platform
begin

text \<open>
  \<open>components/eth_w5500\<close>: bringing up the Ethernet chip, the event and packet
  handlers that call back into the application, the wait for a link and the
  address query. The callbacks are operations of the whole program's state; the
  context block that carries them is a heap block, and the handlers get the
  callbacks it was filled with.
\<close>

section \<open>Data\<close>

record eth_config =
  eth_ip :: "string option"
  eth_gateway :: string
  eth_netmask :: string
  eth_dns :: "string option"

record 's eth_callbacks =
  on_link_state_changed :: "(bool \<Rightarrow> ('s, unit) op) option"
  on_packet_received :: "('s, unit) op option"

text \<open>The event base and id a handler is called with.\<close>

datatype net_event = EthConnected | EthDisconnected | EthOther | IpEthGotIp | IpOther

abbreviation (input) ESP_ERR_ESP_NETIF_DHCP_ALREADY_STOPPED :: esp_err_t where
  "ESP_ERR_ESP_NETIF_DHCP_ALREADY_STOPPED \<equiv> 0x5005"
abbreviation (input) ETH_INIT_WAIT_FOR_LINK_MS :: nat where "ETH_INIT_WAIT_FOR_LINK_MS \<equiv> 2500"
abbreviation (input) ETH_INIT_LINK_CHECK_INTERVAL_MS :: nat where
  "ETH_INIT_LINK_CHECK_INTERVAL_MS \<equiv> 1000"

section \<open>Operations\<close>

text \<open>\<open>ctx\<close> is \<open>None\<close> for a null context.\<close>

definition eth_event_handler :: "'s eth_callbacks option \<Rightarrow> net_event \<Rightarrow> ('s, unit) op" where
  "eth_event_handler ctx event =
     (case event of
        EthConnected \<Rightarrow>
          (case Option.bind ctx on_link_state_changed of Some cb \<Rightarrow> cb True | None \<Rightarrow> ret ())
      | EthDisconnected \<Rightarrow>
          (case Option.bind ctx on_link_state_changed of Some cb \<Rightarrow> cb False | None \<Rightarrow> ret ())
      | _ \<Rightarrow> ret ())"

definition pkt_eth_input_proxy ::
  "('x platform_scheme) eth_callbacks option \<Rightarrow> byte list \<Rightarrow> ('x platform_scheme, esp_err_t) op" where
  "pkt_eth_input_proxy ctx buffer =
     (case ctx of
        Some c \<Rightarrow> do {
          (case on_packet_received c of Some cb \<Rightarrow> cb | None \<Rightarrow> ret ());
          call_err (Net (NetifReceive buffer))
        }
      | None \<Rightarrow> ret ESP_FAIL)"

definition set_static_ip :: "eth_config option \<Rightarrow> ('x platform_scheme, esp_err_t) op" where
  "set_static_ip cfg =
     (case Option.bind cfg (\<lambda>c. map_option (Pair c) (eth_ip c)) of
        None \<Rightarrow> ret ESP_OK
      | Some (c, ip) \<Rightarrow>
          if ip = [] then ret ESP_OK
          else do {
            err \<leftarrow> call_err (Net DhcpcStop);
            if err \<noteq> ESP_OK \<and> err \<noteq> ESP_ERR_ESP_NETIF_DHCP_ALREADY_STOPPED then ret err
            else do {
              ip4 \<leftarrow> call_word (Net (StrToIp4 ip));
              gw \<leftarrow> call_word (Net (StrToIp4 (eth_gateway c)));
              netmask \<leftarrow> call_word (Net (StrToIp4 (eth_netmask c)));
              err \<leftarrow> call_err (Net (SetIpInfo ip4 gw netmask));
              unless_ok err (do {
                let dns_addr = (case eth_dns c of
                    Some d \<Rightarrow> if d \<noteq> [] then d else ''1.1.1.1''
                  | None \<Rightarrow> ''1.1.1.1'');
                dns \<leftarrow> call_word (Net (StrToIp4 dns_addr));
                err \<leftarrow> call_err (Net (SetDnsInfo dns));
                unless_ok err (ret ESP_OK)
              })
            }
          })"

definition eth_startup_event_handler :: "net_event \<Rightarrow> ('x platform_scheme, unit) op" where
  "eth_startup_event_handler event = whenM (event = EthConnected) (call_unit (Net EventGroupSet))"

definition eth_w5500_wait_for_link :: "nat \<Rightarrow> ('x platform_scheme, esp_err_t) op" where
  "eth_w5500_wait_for_link timeout_ms = do {
     call_unit (Net EventGroupCreate);
     err \<leftarrow> call_err (Net StartupHandlerRegister);
     if err \<noteq> ESP_OK then do { call_unit (Net EventGroupDelete); ret err }
     else do {
       bits \<leftarrow> call_word (Net (EventGroupWait timeout_ms));
       call_unit (Net StartupHandlerUnregister);
       call_unit (Net EventGroupDelete);
       ret (if bit bits 0 then ESP_OK else ESP_ERR_TIMEOUT)
     }
   }"

text \<open>\<open>if (err != ESP_OK) { free(ctx); return err; }\<close>\<close>

definition or_free :: "nat \<Rightarrow> esp_err_t \<Rightarrow> ('x platform_scheme, esp_err_t) op \<Rightarrow>
    ('x platform_scheme, esp_err_t) op" where
  "or_free ctx err rest = (if err \<noteq> ESP_OK then do { free_str ctx; ret err } else rest)"

text \<open>
  From reading the MAC on, an error returns without freeing the context. The
  block's twelve bytes are the two callbacks and the interface pointer.
\<close>

definition eth_w5500_attach :: "('x platform_scheme, esp_err_t) op" where
  "eth_w5500_attach = do {
     err \<leftarrow> call_err (Net ReadMac);
     unless_ok err (do {
       err \<leftarrow> call_err (Net EthSetMac);
       unless_ok err (do {
         err \<leftarrow> call_err (Net NetifAttach);
         unless_ok err (do {
           err \<leftarrow> call_err (Net EthHandlerRegister);
           unless_ok err (do {
             err \<leftarrow> call_err (Net IpHandlerRegister);
             unless_ok err (do {
               err \<leftarrow> call_err (Net UpdateInputPath);
               unless_ok err (do {
                 err \<leftarrow> call_err (Net EthStart);
                 unless_ok err (ret ESP_OK)
               })
             })
           })
         })
       })
     })
   }"

definition eth_w5500_init :: "eth_config option \<Rightarrow> ('x platform_scheme, esp_err_t) op" where
  "eth_w5500_init config = do {
     ctx \<leftarrow> malloc_str (replicate 11 (CHR 0x00));
     (case ctx of
        None \<Rightarrow> ret ESP_ERR_NO_MEM
      | Some ctx \<Rightarrow> do {
          call_unit (Net NetifNew);
          err \<leftarrow> set_static_ip config;
          or_free ctx err (do {
            err \<leftarrow> call_err (Net SpiBusInit);
            or_free ctx err (do {
              mac \<leftarrow> call_bool (Net MacNewW5500);
              or_free ctx (if mac then ESP_OK else ESP_FAIL) (do {
                phy \<leftarrow> call_bool (Net PhyNewW5500);
                or_free ctx (if phy then ESP_OK else ESP_FAIL) (do {
                  err \<leftarrow> call_err (Net EthDriverInstall);
                  or_free ctx err eth_w5500_attach
                })
              })
            })
          })
        })
   }"

text \<open>The loop may run for ever; then the result is \<open>None\<close>.\<close>

partial_function (option) link_wait_loop ::
  "(bool \<Rightarrow> ('x platform_scheme, unit) op) option \<Rightarrow> 'x platform_scheme \<Rightarrow> 'x platform_scheme option" where
  "link_wait_loop wait_cb s =
     (if result (eth_w5500_wait_for_link ETH_INIT_LINK_CHECK_INTERVAL_MS) s \<noteq> ESP_OK
      then link_wait_loop wait_cb
             (exec (do { (case wait_cb of Some cb \<Rightarrow> cb False | None \<Rightarrow> ret ()); vTaskDelay 100 })
                (exec (eth_w5500_wait_for_link ETH_INIT_LINK_CHECK_INTERVAL_MS) s))
      else Some (exec (eth_w5500_wait_for_link ETH_INIT_LINK_CHECK_INTERVAL_MS) s))"

definition eth_w5500_force_link_blocking ::
  "(bool \<Rightarrow> ('x platform_scheme, unit) op) option \<Rightarrow> 'x platform_scheme \<Rightarrow> 'x platform_scheme option" where
  "eth_w5500_force_link_blocking wait_cb s =
     (case run_state (eth_w5500_wait_for_link ETH_INIT_WAIT_FOR_LINK_MS) s of
        (err, s1) \<Rightarrow>
          let linked = exec (case wait_cb of Some cb \<Rightarrow> cb True | None \<Rightarrow> ret ())
          in if err = ESP_OK then Some (linked s1)
             else map_option linked (link_wait_loop wait_cb s1))"

definition ip_text :: "u32 \<Rightarrow> string" where
  "ip_text a =
     (let b = (\<lambda>i. dec_str (unat (drop_bit (8 * i) a AND 0xFF)))
      in b 0 @ ''.'' @ b 1 @ ''.'' @ b 2 @ ''.'' @ b 3)"

text \<open>
  \<open>out_mac\<close> is the caller's buffer, kept when the MAC cannot be read. A null argument
  makes the function do nothing.
\<close>

definition eth_w5500_network_info ::
  "bool \<Rightarrow> byte list option \<Rightarrow> ('x platform_scheme, (string \<times> byte list) option) op" where
  "eth_w5500_network_info out_ip out_mac =
     (case out_mac of
        None \<Rightarrow> ret None
      | Some old \<Rightarrow>
          if \<not> out_ip then ret None
          else do {
            (err, mac) \<leftarrow> call_err_bytes (Net ReadMac);
            let mac = (if err = ESP_OK then mac else old);
            netif \<leftarrow> call_bool (Net NetifNext);
            addr \<leftarrow> (if netif then call_word (Net NetifGetIp) else ret 0);
            ret (Some (if addr \<noteq> 0 then ip_text addr else ''0.0.0.0'', mac))
          })"

lemmas eth_defs =
  eth_event_handler_def pkt_eth_input_proxy_def set_static_ip_def eth_startup_event_handler_def
  eth_w5500_wait_for_link_def or_free_def eth_w5500_attach_def eth_w5500_init_def
  eth_w5500_network_info_def

section \<open>What the operations keep\<close>

lemma eth_keeps [keeps_intro]:
  assumes "\<And>c. absorbs P (Net c)"
  shows "keeps P (set_static_ip cfg)" "keeps P (eth_w5500_wait_for_link n)"
    "keeps P eth_w5500_attach" "keeps P (eth_w5500_network_info b m)"
    "keeps P (eth_startup_event_handler ev)"
  using assms unfolding eth_defs Let_def
  by (auto intro!: keeps_intro split: option.split)

section \<open>The link wait\<close>

text \<open>One failed round of the loop, and its \<open>k\<close>-fold repetition.\<close>

definition link_round ::
  "(bool \<Rightarrow> ('x platform_scheme, unit) op) option \<Rightarrow> 'x platform_scheme \<Rightarrow> 'x platform_scheme" where
  "link_round wait_cb s =
     exec (do { (case wait_cb of Some cb \<Rightarrow> cb False | None \<Rightarrow> ret ()); vTaskDelay 100 })
       (exec (eth_w5500_wait_for_link 1000) s)"

definition link_seen :: "'x platform_scheme \<Rightarrow> bool" where
  "link_seen s \<longleftrightarrow> result (eth_w5500_wait_for_link 1000) s = ESP_OK"

lemma link_wait_loop_step:
  "link_wait_loop cb s =
     (if link_seen s then Some (exec (eth_w5500_wait_for_link 1000) s)
      else link_wait_loop cb (link_round cb s))"
  by (subst link_wait_loop.simps) (simp add: link_seen_def link_round_def)

lemma link_wait_loop_rounds:
  assumes "\<forall>j<k. \<not> link_seen ((link_round cb ^^ j) s)"
  shows "link_wait_loop cb s = link_wait_loop cb ((link_round cb ^^ k) s)"
  using assms
proof (induction k)
  case 0
  then show ?case by simp
next
  case (Suc k)
  then have "link_wait_loop cb s = link_wait_loop cb ((link_round cb ^^ k) s)" by simp
  also have "\<dots> = link_wait_loop cb ((link_round cb ^^ Suc k) s)"
    using Suc.prems by (subst link_wait_loop_step) simp
  finally show ?case .
qed

text \<open>If the loop returns, a check succeeded after finitely many failed ones.\<close>

lemma link_wait_loop_returns:
  "link_wait_loop cb s = Some s' \<Longrightarrow>
   \<exists>k. link_seen ((link_round cb ^^ k) s) \<and>
       s' = exec (eth_w5500_wait_for_link 1000) ((link_round cb ^^ k) s)"
proof (induction rule: link_wait_loop.raw_induct [rotated 1, consumes 1])
  case (1 loop cb s s')
  show ?case
  proof (cases "link_seen s")
    case True
    with 1(2) show ?thesis by (auto simp: link_seen_def intro!: exI [of _ 0])
  next
    case False
    with 1(2) have "loop cb (link_round cb s) = Some s'"
      by (simp add: link_seen_def link_round_def)
    from 1(1) [OF this] obtain k where k: "link_seen ((link_round cb ^^ k) (link_round cb s))"
      "s' = exec (eth_w5500_wait_for_link 1000) ((link_round cb ^^ k) (link_round cb s))"
      by blast
    then show ?thesis by (intro exI [of _ "Suc k"]) (simp add: funpow_Suc_right del: funpow.simps)
  qed
qed

text \<open>The value of the loop: the state after the first check that succeeds.\<close>

lemma link_wait_loop_value:
  "link_wait_loop cb s = Some s' \<longleftrightarrow>
    (\<exists>k. (\<forall>j<k. \<not> link_seen ((link_round cb ^^ j) s)) \<and> link_seen ((link_round cb ^^ k) s) \<and>
       s' = exec (eth_w5500_wait_for_link 1000) ((link_round cb ^^ k) s))"
proof
  assume loop: "link_wait_loop cb s = Some s'"
  then have ex: "\<exists>k. link_seen ((link_round cb ^^ k) s)" using link_wait_loop_returns by blast
  define k where "k = (LEAST k. link_seen ((link_round cb ^^ k) s))"
  have "link_seen ((link_round cb ^^ k) s)" unfolding k_def using ex by (rule LeastI_ex)
  moreover have least: "\<forall>j<k. \<not> link_seen ((link_round cb ^^ j) s)"
    unfolding k_def using not_less_Least by blast
  ultimately show "\<exists>k. (\<forall>j<k. \<not> link_seen ((link_round cb ^^ j) s)) \<and> link_seen ((link_round cb ^^ k) s) \<and>
       s' = exec (eth_w5500_wait_for_link 1000) ((link_round cb ^^ k) s)"
    using loop link_wait_loop_rounds [OF least] link_wait_loop_step by (metis option.inject)
next
  assume "\<exists>k. (\<forall>j<k. \<not> link_seen ((link_round cb ^^ j) s)) \<and> link_seen ((link_round cb ^^ k) s) \<and>
       s' = exec (eth_w5500_wait_for_link 1000) ((link_round cb ^^ k) s)"
  then show "link_wait_loop cb s = Some s'" using link_wait_loop_rounds link_wait_loop_step by metis
qed

section \<open>The wait in terms of the network\<close>

text \<open>
  A wait of \<open>ms\<close> sees the link when its handler could be registered and bit 0 of the
  event group, which the handler sets when the cable is connected, was set in time.
  \<open>wait_calls\<close> is what the wait does to the system.
\<close>

definition link_up :: "ext_env \<Rightarrow> call list \<Rightarrow> nat \<Rightarrow> bool" where
  "link_up e t ms \<longleftrightarrow>
     err_of e (t @ [Net EventGroupCreate]) (Net StartupHandlerRegister) = 0 \<and>
     bit (word_of e (t @ [Net EventGroupCreate, Net StartupHandlerRegister]) (Net (EventGroupWait ms))) 0"

definition wait_calls :: "ext_env \<Rightarrow> call list \<Rightarrow> nat \<Rightarrow> call list" where
  "wait_calls e t ms =
     [Net EventGroupCreate, Net StartupHandlerRegister] @
     (if err_of e (t @ [Net EventGroupCreate]) (Net StartupHandlerRegister) = 0
      then [Net (EventGroupWait ms), Net StartupHandlerUnregister] else []) @
     [Net EventGroupDelete]"

definition waited :: "nat \<Rightarrow> 'x platform_scheme \<Rightarrow> 'x platform_scheme" where
  "waited ms s = s\<lparr>trace := trace s @ wait_calls (ext s) (trace s) ms\<rparr>"

text \<open>The device after the first wait and \<open>k\<close> more that did not see the link.\<close>

primrec unlinked_rounds ::
  "(bool \<Rightarrow> ('x platform_scheme, unit) op) \<Rightarrow> 'x platform_scheme \<Rightarrow> nat \<Rightarrow> 'x platform_scheme" where
  "unlinked_rounds cb s 0 = waited 2500 s"
| "unlinked_rounds cb s (Suc k) =
     (let u = exec (cb False) (waited 1000 (unlinked_rounds cb s k))
      in u\<lparr>trace := trace u @ [Rtos (TaskDelay 100)]\<rparr>)"

lemma exec_wait: "exec (eth_w5500_wait_for_link ms) s = waited ms s"
  by (simp add: eth_w5500_wait_for_link_def waited_def wait_calls_def)

lemma wait_ok_iff: "result (eth_w5500_wait_for_link ms) s = ESP_OK \<longleftrightarrow> link_up (ext s) (trace s) ms"
  by (simp add: eth_w5500_wait_for_link_def link_up_def)

lemma unlinked_rounds_link_round:
  "(link_round (Some cb) ^^ k) (waited 2500 s) = unlinked_rounds cb s k"
  by (induction k) (simp_all add: link_round_def exec_wait Let_def case_prod_beta)

lemma force_link_value:
  "eth_w5500_force_link_blocking (Some cb) s = Some s' \<longleftrightarrow>
    (if link_up (ext s) (trace s) 2500 then s' = exec (cb True) (waited 2500 s)
     else (\<exists>k. (\<forall>j<k. \<not> link_up (ext (unlinked_rounds cb s j)) (trace (unlinked_rounds cb s j)) 1000) \<and>
       link_up (ext (unlinked_rounds cb s k)) (trace (unlinked_rounds cb s k)) 1000 \<and>
       s' = exec (cb True) (waited 1000 (unlinked_rounds cb s k))))"
  by (auto simp: eth_w5500_force_link_blocking_def wait_ok_iff exec_wait link_wait_loop_value
      unlinked_rounds_link_round link_seen_def case_prod_beta Let_def)

section \<open>The context block\<close>

lemma heap_net_ops [simp]:
  "heap (exec (set_static_ip cfg) s) = heap s" "heap (exec eth_w5500_attach s) = heap s"
  by (rule keeps_field, rule eth_keeps, simp add: absorbs_def)+

lemma length_ip_text: "length (ip_text a) \<le> 15"
proof -
  have "unat (x AND 0xFF) < 10 ^ 3" for x :: u32
  proof -
    have "x AND 0xFF = take_bit 8 x" by (simp add: take_bit_eq_mask mask_eq_exp_minus_1)
    then have "unat (x AND 0xFF) = take_bit 8 (unat x)" by (simp add: unsigned_take_bit_eq)
    also have "\<dots> < 2 ^ 8" by (rule take_bit_nat_less_exp)
    finally show ?thesis by simp
  qed
  then have "length (dec_str (unat (drop_bit (8 * i) a AND 0xFF))) \<le> 3" for i
    by (rule length_dec_str) simp
  from this [of 0] this [of 1] this [of 2] this [of 3] show ?thesis
    by (simp add: ip_text_def Let_def)
qed

end
