(* ===== verification/Ui_Manager.thy ===== *)
theory Ui_Manager
  imports Env_Sensor Machine Ntp_Service Eth_W5500
begin

text \<open>
  \<open>components/ui_manager\<close>: the carousel of six pages. In auto mode a periodic timer
  turns the page; a button turns it by hand or switches the mode; \<open>suspend\<close> leaves
  the screen to a long task. The timer callback is an operation of its own.
\<close>

section \<open>Pages\<close>

datatype ui_page =
  PAGE_SYSTEM | PAGE_CLOCK | PAGE_NETWORK | PAGE_ENV | PAGE_RESOURCES | PAGE_FIRMWARE_VERSION

fun page_index :: "ui_page \<Rightarrow> nat" where
  "page_index PAGE_SYSTEM = 0"
| "page_index PAGE_CLOCK = 1"
| "page_index PAGE_NETWORK = 2"
| "page_index PAGE_ENV = 3"
| "page_index PAGE_RESOURCES = 4"
| "page_index PAGE_FIRMWARE_VERSION = 5"

definition page_of :: "nat \<Rightarrow> ui_page" where
  "page_of n = [PAGE_SYSTEM, PAGE_CLOCK, PAGE_NETWORK, PAGE_ENV, PAGE_RESOURCES,
     PAGE_FIRMWARE_VERSION] ! n"

text \<open>\<open>(current_page + 1) % PAGE_COUNT\<close>\<close>

definition next_page :: "ui_page \<Rightarrow> ui_page" where
  "next_page p = page_of ((page_index p + 1) mod 6)"

lemma page_index_less: "page_index p < 6"
  by (cases p) simp_all

lemma page_index_inject [simp]: "page_index p = page_index q \<longleftrightarrow> p = q"
  by (cases p; cases q) simp_all

instantiation ui_page :: linorder
begin

definition "p \<le> q \<longleftrightarrow> page_index p \<le> page_index q"

definition "p < q \<longleftrightarrow> page_index p < page_index q"

instance
  by standard (auto simp: less_eq_ui_page_def less_ui_page_def)

end

lemma page_index_page_of: "n < 6 \<Longrightarrow> page_index (page_of n) = n"
  by (auto simp: page_of_def less_Suc_eq numeral_eq_Suc)

lemma page_index_next: "page_index (next_page p) = (page_index p + 1) mod 6"
  by (simp add: next_page_def page_index_page_of)

lemma page_index_rounds: "page_index ((next_page ^^ k) p) = (page_index p + k) mod 6"
  by (induction k) (simp_all add: page_index_next page_index_less mod_Suc_eq)

section \<open>State and operations\<close>

record ui_manager = env_sensor +
  current_page :: ui_page
  auto_mode :: bool
  is_suspended :: bool
  auto_scroll_timer :: bool
  page_mac_buf :: "byte list"
  stack_env :: "call list \<Rightarrow> env_data"

text \<open>
  \<open>stack_env\<close> is what an uninitialised \<open>env_data_t\<close> on the stack holds, at the point
  of the execution given by the trace; it is a parameter.
\<close>

definition uptime_seconds :: "('x platform_scheme, u32) op" where
  "uptime_seconds = do {
     us \<leftarrow> call_int (Time GetTimeUs);
     ret (word_of_int (us sdiv 1000000))
   }"

definition render_system_page :: "('x ui_manager_scheme, unit) op" where
  "render_system_page = do {
     sec \<leftarrow> uptime_seconds;
     let time_buf = helper_format_uptime sec 12;
     ui_set_text ''System: ACTIVE'' (c_trunc 17 (''UP: '' @ time_buf))
   }"

definition render_clock_page :: "('x ui_manager_scheme, unit) op" where
  "render_clock_page = do {
     (ok, d, t) \<leftarrow> ntp_service_get_time_and_date_strs (Some 17) (Some 17);
     (case (ok, d, t) of
        (True, Some d, Some t) \<Rightarrow> ui_set_text d t
      | _ \<Rightarrow> ui_set_text ''NTP syncing...'' ''Please wait'')
   }"

definition render_network_page :: "('x ui_manager_scheme, unit) op" where
  "render_network_page = do {
     mac \<leftarrow> gets page_mac_buf;
     r \<leftarrow> eth_w5500_network_info True (Some mac);
     (case r of
        None \<Rightarrow> ret ()
      | Some (ip, mac) \<Rightarrow> do {
          modify (\<lambda>s. s\<lparr>page_mac_buf := mac\<rparr>);
          ui_show_network_dashboard (Some ip) (Some mac)
        })
   }"

definition env_lines :: "env_data \<Rightarrow> string \<times> string" where
  "env_lines d =
     (c_trunc 17 (''T:'' @ fmt_float 1 (temp_aht d) @ [DEGREE_CHAR] @ ''C H:'' @
        fmt_float 0 (hum_aht d) @ ''%''),
      c_trunc 17 (''P:'' @ fmt_float 1 (pres_bmp d) @ ''hPa''))"

definition render_env_page :: "('x ui_manager_scheme, unit) op" where
  "render_env_page = do {
     d0 \<leftarrow> gets (\<lambda>s. stack_env s (trace s));
     (err, data) \<leftarrow> env_sensors_read_all (Some d0);
     (case (err = ESP_OK, data) of
        (True, Some d) \<Rightarrow> (case env_lines d of (l0, l1) \<Rightarrow> ui_set_text l0 l1)
      | _ \<Rightarrow> ui_set_text (c_trunc 17 (''T:--'' @ [DEGREE_CHAR] @ ''C H:--%'')) (c_trunc 17 ''P:----hPa''))
   }"

definition render_resources_page :: "('x ui_manager_scheme, unit) op" where
  "render_resources_page = do {
     free_bytes \<leftarrow> call_word (Time FreeHeap);
     total_bytes \<leftarrow> call_word (Time TotalHeap);
     min_free_bytes \<leftarrow> call_word (Time MinFreeHeap);
     let used_kb = (total_bytes - free_bytes) div 1024;
     let total_kb = total_bytes div 1024;
     let min_free_kb = min_free_bytes div 1024;
     ui_set_text
       (c_trunc 32 (''RAM: '' @ dec_str (unat used_kb) @ ''/'' @ dec_str (unat total_kb) @ ''KB''))
       (c_trunc 32 (''Min free: '' @ dec_str (unat min_free_kb) @ ''KB''))
   }"

definition render_firmware_version_page :: "('x ui_manager_scheme, unit) op" where
  "render_firmware_version_page = do {
     version \<leftarrow> call_str (Time (AppDesc ''version''));
     ui_set_text ''Firmware ver:'' version
   }"

definition render_current_page :: "('x ui_manager_scheme, unit) op" where
  "render_current_page = do {
     p \<leftarrow> gets current_page;
     (case p of
        PAGE_SYSTEM \<Rightarrow> render_system_page
      | PAGE_NETWORK \<Rightarrow> render_network_page
      | PAGE_CLOCK \<Rightarrow> render_clock_page
      | PAGE_ENV \<Rightarrow> render_env_page
      | PAGE_RESOURCES \<Rightarrow> render_resources_page
      | PAGE_FIRMWARE_VERSION \<Rightarrow> render_firmware_version_page)
   }"

definition turn_page :: "('x ui_manager_scheme, unit) op" where
  "turn_page = do {
     modify (\<lambda>s. s\<lparr>current_page := next_page (current_page s)\<rparr>);
     render_current_page
   }"

definition auto_scroll_callback :: "('x ui_manager_scheme, unit) op" where
  "auto_scroll_callback = do {
     a \<leftarrow> gets auto_mode;
     sus \<leftarrow> gets is_suspended;
     whenM (a \<and> \<not> sus) turn_page
   }"

definition ui_manager_init :: "('x ui_manager_scheme, esp_err_t) op" where
  "ui_manager_init = do {
     t \<leftarrow> call_bool (Rtos (TimerCreate ScrollTimer 5000 True));
     modify (\<lambda>s. s\<lparr>auto_scroll_timer := t\<rparr>);
     if \<not> t then ret ESP_ERR_NO_MEM
     else do {
       call_unit (Rtos (TimerStart ScrollTimer));
       render_current_page;
       ret ESP_OK
     }
   }"

definition ui_manager_switch_mode :: "('x ui_manager_scheme, unit) op" where
  "ui_manager_switch_mode = do {
     sus \<leftarrow> gets is_suspended;
     t \<leftarrow> gets auto_scroll_timer;
     if sus \<or> \<not> t then ret ()
     else do {
       modify (\<lambda>s. s\<lparr>auto_mode := \<not> auto_mode s\<rparr>);
       a \<leftarrow> gets auto_mode;
       if a then do {
         ui_show_temp_message (Some ''MODE: AUTO'') 1000;
         call_unit (Rtos (TimerStart ScrollTimer))
       }
       else do {
         ui_show_temp_message (Some ''MODE: MANUAL'') 1000;
         call_unit (Rtos (TimerStop ScrollTimer))
       }
     }
   }"

definition ui_manager_manual_mode :: "('x ui_manager_scheme, unit) op" where
  "ui_manager_manual_mode = do {
     sus \<leftarrow> gets is_suspended;
     t \<leftarrow> gets auto_scroll_timer;
     if sus \<or> \<not> t then ret ()
     else do {
       turn_page;
       a \<leftarrow> gets auto_mode;
       whenM a (call_unit (Rtos (TimerReset ScrollTimer)))
     }
   }"

definition ui_manager_suspend :: "('x ui_manager_scheme, unit) op" where
  "ui_manager_suspend = do {
     modify (\<lambda>s. s\<lparr>is_suspended := True\<rparr>);
     t \<leftarrow> gets auto_scroll_timer;
     whenM t (call_unit (Rtos (TimerStop ScrollTimer)))
   }"

definition ui_manager_resume :: "('x ui_manager_scheme, unit) op" where
  "ui_manager_resume = do {
     modify (\<lambda>s. s\<lparr>is_suspended := False\<rparr>);
     a \<leftarrow> gets auto_mode;
     t \<leftarrow> gets auto_scroll_timer;
     whenM (a \<and> t) (call_unit (Rtos (TimerStart ScrollTimer)));
     render_current_page
   }"

lemmas render_defs =
  uptime_seconds_def render_system_page_def render_clock_page_def render_network_page_def
  render_env_page_def render_resources_page_def render_firmware_version_page_def
  render_current_page_def

lemmas ui_manager_defs =
  turn_page_def auto_scroll_callback_def ui_manager_init_def ui_manager_switch_mode_def
  ui_manager_manual_mode_def ui_manager_suspend_def ui_manager_resume_def

section \<open>What the operations keep\<close>

definition manager_fields_free :: "('x ui_manager_scheme \<Rightarrow> bool) \<Rightarrow> bool" where
  "manager_fields_free P \<longleftrightarrow>
     ignores current_page_update P \<and> ignores auto_mode_update P \<and> ignores is_suspended_update P \<and>
     ignores auto_scroll_timer_update P"

definition render_fields_free :: "('x ui_manager_scheme \<Rightarrow> bool) \<Rightarrow> bool" where
  "render_fields_free P \<longleftrightarrow>
     ignores bmp_calib_update P \<and> ignores t_fine_update P \<and> ignores page_mac_buf_update P"

lemma render_keeps [keeps_intro]:
  assumes "app_pred P" "render_fields_free P" "\<And>c. absorbs P (Time c)" "\<And>c. absorbs P (Net c)"
  shows "keeps P render_current_page"
proof -
  note [intro] = app_pred_absorbs [OF assms(1)]
  note [intro!] = app_pred_ui [OF assms(1)] app_pred_hw [OF assms(1)] assms(3,4)
  note free = assms(2) [unfolded render_fields_free_def]
  have "keeps P render_system_page" "keeps P render_resources_page"
    "keeps P render_firmware_version_page"
    unfolding render_defs Let_def by (auto intro!: keeps_intro)
  moreover have "keeps P render_clock_page"
    unfolding render_defs Let_def
    by (auto intro!: keeps_bind ntp_keeps keeps_case_prod split: bool.split option.split)
  moreover have "keeps P render_network_page"
    unfolding render_defs
    by (auto intro!: keeps_bind keeps_gets keeps_ret keeps_modify eth_keeps keeps_case_option
        keeps_case_prod simp: free ignoresD)
  moreover have "keeps P render_env_page"
    unfolding render_defs
    by (auto intro!: keeps_bind keeps_gets env_keeps keeps_case_prod simp: free
        split: bool.split option.split prod.split)
  ultimately show ?thesis
    unfolding render_current_page_def
    by (auto intro!: keeps_bind keeps_gets split: ui_page.split)
qed

lemma ui_manager_keeps [keeps_intro]:
  assumes "app_pred P" "render_fields_free P" "manager_fields_free P"
    and "\<And>c. absorbs P (Time c)" "\<And>c. absorbs P (Net c)" "\<And>c. scroll_call c \<Longrightarrow> absorbs P c"
  shows "keeps P auto_scroll_callback" "keeps P ui_manager_init" "keeps P ui_manager_switch_mode"
    "keeps P ui_manager_manual_mode" "keeps P ui_manager_suspend" "keeps P ui_manager_resume"
proof -
  note [intro] = app_pred_absorbs [OF assms(1)] assms(6)
  note [intro!] = app_pred_ui [OF assms(1)] render_keeps [OF assms(1,2,4,5)]
  note free = assms(3) [unfolded manager_fields_free_def]
  show "keeps P auto_scroll_callback" "keeps P ui_manager_init" "keeps P ui_manager_switch_mode"
    "keeps P ui_manager_manual_mode" "keeps P ui_manager_suspend" "keeps P ui_manager_resume"
    unfolding ui_manager_defs by (auto intro!: keeps_intro simp: free ignoresD)
qed

section \<open>The scroll timer\<close>

text \<open>Whether the periodic timer is armed, from the calls made to it.\<close>

fun scroll_step :: "bool \<Rightarrow> call \<Rightarrow> bool" where
  "scroll_step r (Rtos (TimerStart ScrollTimer)) = True"
| "scroll_step r (Rtos (TimerReset ScrollTimer)) = True"
| "scroll_step r (Rtos (TimerStop ScrollTimer)) = False"
| "scroll_step r _ = r"

definition scroll_running :: "call list \<Rightarrow> bool" where
  "scroll_running t = foldl scroll_step False t"

lemma scroll_running_snoc [simp]: "scroll_running (t @ [c]) = scroll_step (scroll_running t) c"
  by (simp add: scroll_running_def)

lemma scroll_running_append: "scroll_running (t @ u) = foldl scroll_step (scroll_running t) u"
  by (simp add: scroll_running_def)

lemma scroll_step_other: "\<not> scroll_call c \<Longrightarrow> scroll_step r c = r"
  by (cases "(r, c)" rule: scroll_step.cases) auto

text \<open>
  The timer is armed exactly in auto mode and not suspended, once it exists.
\<close>

definition scroll_inv :: "'x ui_manager_scheme \<Rightarrow> bool" where
  "scroll_inv s \<longleftrightarrow>
     (auto_scroll_timer s \<longrightarrow> (scroll_running (trace s) \<longleftrightarrow> auto_mode s \<and> \<not> is_suspended s))"

text \<open>Rendering a page leaves the timer and the mode variables alone.\<close>

lemma render_frame:
  fixes s :: "'x ui_manager_scheme"
  defines "s' \<equiv> exec render_current_page s"
  shows "scroll_running (trace s') = scroll_running (trace s)" "auto_mode s' = auto_mode s"
    "is_suspended s' = is_suspended s" "auto_scroll_timer s' = auto_scroll_timer s"
    "current_page s' = current_page s"
proof -
  define P where "P = (\<lambda>s' :: 'x ui_manager_scheme. scroll_running (trace s') = scroll_running (trace s) \<and>
    auto_mode s' = auto_mode s \<and> is_suspended s' = is_suspended s \<and>
    auto_scroll_timer s' = auto_scroll_timer s \<and> current_page s' = current_page s)"
  have low: "\<not> scroll_call c" if "low_call c" for c using that by (cases c) auto
  have "app_pred P"
    by (rule app_pred_frame)
      (auto simp: P_def absorbs_on_def absorbs_def scroll_step_other low ignores_def
        ui_fields_free_def ind_fields_free_def)
  then have "keeps P render_current_page"
    by (rule render_keeps) (auto simp: P_def absorbs_def render_fields_free_def ignores_def)
  then have "P s'" unfolding s'_def by (rule keepsD) (simp add: P_def)
  then show "scroll_running (trace s') = scroll_running (trace s)" "auto_mode s' = auto_mode s"
    "is_suspended s' = is_suspended s" "auto_scroll_timer s' = auto_scroll_timer s"
    "current_page s' = current_page s"
    by (simp_all add: P_def)
qed

lemma temp_message_frame:
  fixes s :: "'x ui_manager_scheme"
  shows "auto_mode (exec (ui_show_temp_message tx d) s) = auto_mode s"
    "is_suspended (exec (ui_show_temp_message tx d) s) = is_suspended s"
    "auto_scroll_timer (exec (ui_show_temp_message tx d) s) = auto_scroll_timer s"
proof -
  let ?s = "exec (ui_show_temp_message tx d) s"
  define P where "P = (\<lambda>s' :: 'x ui_manager_scheme. auto_mode s' = auto_mode s \<and>
    is_suspended s' = is_suspended s \<and> auto_scroll_timer s' = auto_scroll_timer s)"
  have "app_pred P"
    by (rule app_pred_frame)
      (auto simp: P_def absorbs_on_def absorbs_def ignores_def ui_fields_free_def ind_fields_free_def)
  then have "keeps P (ui_show_temp_message tx d)" by (rule app_pred_ui)
  then have "P ?s" by (rule keepsD) (simp add: P_def)
  then show "auto_mode ?s = auto_mode s" "is_suspended ?s = is_suspended s"
    "auto_scroll_timer ?s = auto_scroll_timer s"
    by (simp_all add: P_def)
qed

lemma turn_page_frame:
  fixes s :: "'x ui_manager_scheme"
  defines "s' \<equiv> exec turn_page s"
  shows "scroll_running (trace s') = scroll_running (trace s)" "auto_mode s' = auto_mode s"
    "is_suspended s' = is_suspended s" "auto_scroll_timer s' = auto_scroll_timer s"
    "current_page s' = next_page (current_page s)"
  using render_frame [of "s\<lparr>current_page := next_page (current_page s)\<rparr>"]
  by (simp_all add: s'_def turn_page_def)

lemma scroll_inv_auto: "keeps scroll_inv auto_scroll_callback"
  by (rule keepsI) (simp add: auto_scroll_callback_def scroll_inv_def turn_page_frame)

lemma scroll_inv_manual: "keeps scroll_inv ui_manager_manual_mode"
  by (rule keepsI)
    (auto simp: ui_manager_manual_mode_def scroll_inv_def turn_page_frame case_prod_beta)

lemma scroll_inv_switch: "keeps scroll_inv ui_manager_switch_mode"
  by (rule keepsI)
    (auto simp: ui_manager_switch_mode_def scroll_inv_def temp_message_frame case_prod_beta)

lemma scroll_inv_suspend: "keeps scroll_inv ui_manager_suspend"
  by (rule keepsI) (auto simp: ui_manager_suspend_def scroll_inv_def)

lemma scroll_inv_resume: "keeps scroll_inv ui_manager_resume"
  by (rule keepsI) (auto simp: ui_manager_resume_def scroll_inv_def render_frame)

lemma scroll_inv_init: "auto_mode s \<Longrightarrow> \<not> is_suspended s \<Longrightarrow> scroll_inv (exec ui_manager_init s)"
  by (auto simp: ui_manager_init_def scroll_inv_def render_frame case_prod_beta scroll_running_append)

section \<open>Suspension\<close>

text \<open>While suspended, neither the timer nor the two menu buttons change anything.\<close>

lemma suspended_inert:
  assumes "is_suspended s"
  shows "exec auto_scroll_callback s = s" "exec ui_manager_switch_mode s = s"
    "exec ui_manager_manual_mode s = s"
  using assms by (simp_all add: ui_manager_defs)

end
