(* ===== verification/Nvs_Manager.thy ===== *)
theory Nvs_Manager
  imports Platform
begin

text \<open>
  \<open>components/nvs_manager\<close>: string values in the flash key-value store. The store
  itself is ESP-IDF code; \<open>nvs_view\<close> is its documented content, read off the calls
  made so far: which namespace each handle was opened for, and the last value set
  under each key. \<open>nvs_law\<close> is the documented behaviour of \<open>nvs_get_str\<close> on it.

  The locale \<open>kv_store\<close> is the contract the password code relies on.
\<close>

section \<open>Operations\<close>

abbreviation (input) ESP_ERR_NVS_NOT_FOUND :: esp_err_t where "ESP_ERR_NVS_NOT_FOUND \<equiv> 0x1102"
abbreviation (input) ESP_ERR_NVS_INVALID_LENGTH :: esp_err_t where
  "ESP_ERR_NVS_INVALID_LENGTH \<equiv> 0x110C"
abbreviation (input) ESP_ERR_NVS_NO_FREE_PAGES :: esp_err_t where
  "ESP_ERR_NVS_NO_FREE_PAGES \<equiv> 0x110D"
abbreviation (input) ESP_ERR_NVS_NEW_VERSION_FOUND :: esp_err_t where
  "ESP_ERR_NVS_NEW_VERSION_FOUND \<equiv> 0x1110"

abbreviation AUTH_NVS_NS :: string where "AUTH_NVS_NS \<equiv> ''auth_storage''"
abbreviation AUTH_NVS_KEY :: string where "AUTH_NVS_KEY \<equiv> ''server_pass''"
abbreviation AUTH_NVS_DEFAULT_KEY :: string where "AUTH_NVS_DEFAULT_KEY \<equiv> ''def_server_pass''"

record nvs_entry =
  nvs_key :: "string option"
  nvs_value :: "string option"

text \<open>\<open>None\<close>: \<open>ESP_ERROR_CHECK\<close> aborted because the erase failed.\<close>

definition nvs_manager_init :: "('x platform_scheme, esp_err_t option) op" where
  "nvs_manager_init = do {
     r \<leftarrow> call_err (Nvs NvsFlashInit);
     if r = ESP_ERR_NVS_NO_FREE_PAGES \<or> r = ESP_ERR_NVS_NEW_VERSION_FOUND then do {
       er \<leftarrow> call_err (Nvs NvsFlashErase);
       if er \<noteq> ESP_OK then ret None
       else do {
         r \<leftarrow> call_err (Nvs NvsFlashInit);
         ret (Some r)
       }
     }
     else ret (Some r)
   }"

fun nvs_save_loop :: "int \<Rightarrow> nvs_entry list \<Rightarrow> ('x platform_scheme, esp_err_t) op" where
  "nvs_save_loop handle [] = ret ESP_OK"
| "nvs_save_loop handle (e # es) =
     (case (nvs_key e, nvs_value e) of
        (Some k, Some v) \<Rightarrow> do {
          err \<leftarrow> call_err (Nvs (NvsSetStr handle k v));
          if err \<noteq> ESP_OK then ret err else nvs_save_loop handle es
        }
      | _ \<Rightarrow> nvs_save_loop handle es)"

definition nvs_manager_save_strings_batch ::
  "string \<Rightarrow> nvs_entry list option \<Rightarrow> ('x platform_scheme, esp_err_t) op" where
  "nvs_manager_save_strings_batch ns entries =
     (case entries of
        None \<Rightarrow> ret ESP_ERR_INVALID_ARG
      | Some [] \<Rightarrow> ret ESP_ERR_INVALID_ARG
      | Some es \<Rightarrow> do {
          (err, handle) \<leftarrow> call_err_int (Nvs (NvsOpen ns True));
          if err \<noteq> ESP_OK then ret err
          else do {
            err \<leftarrow> nvs_save_loop handle es;
            err \<leftarrow> (if err = ESP_OK then call_err (Nvs (NvsCommit handle)) else ret err);
            call_unit (Nvs (NvsClose handle));
            ret err
          }
        })"

definition nvs_manager_save_str ::
  "string \<Rightarrow> string \<Rightarrow> string \<Rightarrow> ('x platform_scheme, esp_err_t) op" where
  "nvs_manager_save_str ns key val = do {
     (err, handle) \<leftarrow> call_err_int (Nvs (NvsOpen ns True));
     if err \<noteq> ESP_OK then ret err
     else do {
       err \<leftarrow> call_err (Nvs (NvsSetStr handle key val));
       if err \<noteq> ESP_OK then ret err
       else do {
         err \<leftarrow> call_err (Nvs (NvsCommit handle));
         call_unit (Nvs (NvsClose handle));
         ret err
       }
     }
   }"

definition nvs_manager_load_str ::
  "string \<Rightarrow> string \<Rightarrow> nat \<Rightarrow> ('x platform_scheme, esp_err_t \<times> string) op" where
  "nvs_manager_load_str ns key max_len =
     (if max_len = 0 then ret (ESP_ERR_INVALID_ARG, [])
      else do {
        (err, handle) \<leftarrow> call_err_int (Nvs (NvsOpen ns False));
        if err \<noteq> ESP_OK then ret (err, [])
        else do {
          (err, out_buf) \<leftarrow> call_err_str (Nvs (NvsGetStr handle key max_len));
          call_unit (Nvs (NvsClose handle));
          ret (err, out_buf)
        }
      })"

section \<open>What the operations keep\<close>

lemma nvs_loop_keeps: "(\<And>c. absorbs P (Nvs c)) \<Longrightarrow> keeps P (nvs_save_loop h es)"
  by (induction es) (auto intro!: keeps_intro split: option.split)

lemma nvs_keeps [keeps_intro]:
  assumes "\<And>c. absorbs P (Nvs c)"
  shows "keeps P (nvs_manager_save_str ns k v)" "keeps P (nvs_manager_load_str ns k n)"
    "keeps P nvs_manager_init" "keeps P (nvs_manager_save_strings_batch ns es)"
  using assms
  unfolding nvs_manager_save_str_def nvs_manager_load_str_def nvs_manager_init_def
    nvs_manager_save_strings_batch_def
  by (auto intro!: keeps_intro nvs_loop_keeps split: option.split list.split)

section \<open>The store's documented content\<close>

type_synonym nvs_state = "(int \<Rightarrow> string option) \<times> (string \<times> string \<Rightarrow> string option)"

fun nvs_step :: "ext_env \<Rightarrow> call list \<Rightarrow> nvs_state \<Rightarrow> call \<Rightarrow> nvs_state" where
  "nvs_step e t (hs, db) (Nvs (NvsOpen ns rw)) =
     (if err_of e t (Nvs (NvsOpen ns rw)) = ESP_OK
      then (hs(int_of e t (Nvs (NvsOpen ns rw)) := Some ns), db) else (hs, db))"
| "nvs_step e t (hs, db) (Nvs (NvsSetStr h k v)) =
     (if err_of e t (Nvs (NvsSetStr h k v)) = ESP_OK
      then (case hs h of Some ns \<Rightarrow> (hs, db((ns, k) := Some v)) | None \<Rightarrow> (hs, db))
      else (hs, db))"
| "nvs_step e t (hs, db) (Nvs NvsFlashErase) = (hs, \<lambda>_. None)"
| "nvs_step e t st _ = st"

fun nvs_view_rev :: "ext_env \<Rightarrow> nvs_state \<Rightarrow> call list \<Rightarrow> nvs_state" where
  "nvs_view_rev e db0 [] = db0"
| "nvs_view_rev e db0 (c # r) = nvs_step e (rev r) (nvs_view_rev e db0 r) c"

text \<open>\<open>flash0\<close> is what the flash held at power-up.\<close>

definition nvs_view :: "ext_env \<Rightarrow> (string \<times> string \<Rightarrow> string option) \<Rightarrow> call list \<Rightarrow> nvs_state" where
  "nvs_view e flash0 t = nvs_view_rev e (\<lambda>_. None, flash0) (rev t)"

lemma nvs_view_snoc [simp]: "nvs_view e f (t @ [c]) = nvs_step e t (nvs_view e f t) c"
  by (simp add: nvs_view_def)

definition stored ::
  "(string \<times> string \<Rightarrow> string option) \<Rightarrow> 'x platform_scheme \<Rightarrow> string \<Rightarrow> string \<Rightarrow> string option" where
  "stored f s ns k = snd (nvs_view (ext s) f (trace s)) (ns, k)"

text \<open>
  \<open>nvs_get_str\<close> as documented: the value last set, if the buffer can hold it with its
  terminator; otherwise an error.
\<close>

definition nvs_law :: "(string \<times> string \<Rightarrow> string option) \<Rightarrow> ext_env \<Rightarrow> bool" where
  "nvs_law f e \<longleftrightarrow> (\<forall>t h k n ns.
     fst (nvs_view e f t) h = Some ns \<longrightarrow>
     (case snd (nvs_view e f t) (ns, k) of
        None \<Rightarrow> err_of e t (Nvs (NvsGetStr h k n)) = ESP_ERR_NVS_NOT_FOUND
      | Some v \<Rightarrow>
          if length v < n
          then err_of e t (Nvs (NvsGetStr h k n)) = ESP_OK \<and> str_of e t (Nvs (NvsGetStr h k n)) = v
          else err_of e t (Nvs (NvsGetStr h k n)) = ESP_ERR_NVS_INVALID_LENGTH))"

lemma nvs_lawD:
  assumes "nvs_law f e" "fst (nvs_view e f t) h = Some ns"
  shows "snd (nvs_view e f t) (ns, k) = None \<Longrightarrow>
      err_of e t (Nvs (NvsGetStr h k n)) = ESP_ERR_NVS_NOT_FOUND"
    and "snd (nvs_view e f t) (ns, k) = Some v \<Longrightarrow> length v < n \<Longrightarrow>
      err_of e t (Nvs (NvsGetStr h k n)) = ESP_OK \<and> str_of e t (Nvs (NvsGetStr h k n)) = v"
    and "snd (nvs_view e f t) (ns, k) = Some v \<Longrightarrow> n \<le> length v \<Longrightarrow>
      err_of e t (Nvs (NvsGetStr h k n)) = ESP_ERR_NVS_INVALID_LENGTH"
  using assms unfolding nvs_law_def by (force split: option.splits)+

fun nvs_run :: "ext_env \<Rightarrow> call list \<Rightarrow> nvs_state \<Rightarrow> call list \<Rightarrow> nvs_state" where
  "nvs_run e t st [] = st"
| "nvs_run e t st (c # cs) = nvs_run e (t @ [c]) (nvs_step e t st c) cs"

lemma nvs_view_append: "nvs_view e f (t @ cs) = nvs_run e t (nvs_view e f t) cs"
proof (induction cs arbitrary: t)
  case Nil
  then show ?case by simp
next
  case (Cons c cs)
  from Cons.IH [of "t @ [c]"] show ?case by simp
qed

text \<open>Only calls to the store itself change what it holds.\<close>

fun nvs_quiet :: "call \<Rightarrow> bool" where
  "nvs_quiet (Nvs _) = False"
| "nvs_quiet _ = True"

lemma nvs_step_quiet: "nvs_quiet c \<Longrightarrow> nvs_step e t st c = st"
  by (cases "(e, t, st, c)" rule: nvs_step.cases) auto

lemma absorbs_stored: "absorbs_on nvs_quiet (\<lambda>s. ext s = e \<and> stored f s ns k = v)"
  by (auto simp: absorbs_on_def absorbs_def stored_def nvs_step_quiet)

locale kv_store =
  fixes save :: "string \<Rightarrow> string \<Rightarrow> string \<Rightarrow> ('s, esp_err_t) op"
    and load :: "string \<Rightarrow> string \<Rightarrow> nat \<Rightarrow> ('s, esp_err_t \<times> string) op"
    and content :: "'s \<Rightarrow> string \<Rightarrow> string \<Rightarrow> string option"
    and lawful :: "'s \<Rightarrow> bool"
  assumes save_content: "result (save ns k v) s = ESP_OK \<Longrightarrow> content (exec (save ns k v) s) ns k = Some v"
    and save_frame: "(ns', k') \<noteq> (ns, k) \<Longrightarrow>
          content (exec (save ns k v) s) ns' k' = content s ns' k'"
    and load_content: "lawful s \<Longrightarrow> result (load ns k n) s = (ESP_OK, v) \<Longrightarrow> content s ns k = Some v"
    and load_frame: "content (exec (load ns k n) s) = content s"
    and lawful_save: "lawful (exec (save ns k v) s) = lawful s"
    and lawful_load: "lawful (exec (load ns k n) s) = lawful s"
begin

text \<open>A value loaded after a successful save is the value saved.\<close>

lemma load_after_save:
  assumes "lawful s" "result (save ns k v) s = ESP_OK"
    and "result (load ns k n) (exec (save ns k v) s) = (ESP_OK, w)"
  shows "w = v"
  using save_content [OF assms(2)] load_content [OF _ assms(3)] assms(1) by (simp add: lawful_save)

text \<open>Copying one key to another, as the two password resets do.\<close>

lemma copy_content:
  assumes "lawful s" "result (load ns k n) s = (ESP_OK, v)"
    and "result (save ns k' v) (exec (load ns k n) s) = ESP_OK"
  shows "content (exec (save ns k' v) (exec (load ns k n) s)) ns k' = content s ns k"
  using load_content [OF assms(1,2)] save_content [OF assms(3)] by simp

end

lemma run_save_str:
  "run_state (nvs_manager_save_str ns k v) s =
    (let t = trace s; opn = Nvs (NvsOpen ns True); h = int_of (ext s) t opn;
         c1 = Nvs (NvsSetStr h k v); c2 = Nvs (NvsCommit h)
     in if err_of (ext s) t opn \<noteq> ESP_OK then (err_of (ext s) t opn, s\<lparr>trace := t @ [opn]\<rparr>)
        else if err_of (ext s) (t @ [opn]) c1 \<noteq> ESP_OK
        then (err_of (ext s) (t @ [opn]) c1, s\<lparr>trace := t @ [opn, c1]\<rparr>)
        else (err_of (ext s) (t @ [opn, c1]) c2, s\<lparr>trace := t @ [opn, c1, c2, Nvs (NvsClose h)]\<rparr>))"
  by (simp add: nvs_manager_save_str_def Let_def)

lemma run_load_str:
  assumes "0 < n"
  shows "run_state (nvs_manager_load_str ns k n) s =
    (let t = trace s; opn = Nvs (NvsOpen ns False); h = int_of (ext s) t opn; c1 = Nvs (NvsGetStr h k n)
     in if err_of (ext s) t opn \<noteq> ESP_OK then ((err_of (ext s) t opn, []), s\<lparr>trace := t @ [opn]\<rparr>)
        else ((err_of (ext s) (t @ [opn]) c1, str_of (ext s) (t @ [opn]) c1),
              s\<lparr>trace := t @ [opn, c1, Nvs (NvsClose h)]\<rparr>))"
  using assms by (simp add: nvs_manager_load_str_def Let_def)

lemma stored_save:
  "stored f (exec (nvs_manager_save_str ns k v) s) ns' k' =
    (if err_of (ext s) (trace s) (Nvs (NvsOpen ns True)) = ESP_OK \<and>
        err_of (ext s) (trace s @ [Nvs (NvsOpen ns True)])
          (Nvs (NvsSetStr (int_of (ext s) (trace s) (Nvs (NvsOpen ns True))) k v)) = ESP_OK \<and>
        (ns', k') = (ns, k)
     then Some v else stored f s ns' k')"
  by (cases "nvs_view (ext s) f (trace s)")
    (auto simp: stored_def run_save_str Let_def nvs_view_append)

lemma save_str_ok:
  assumes "result (nvs_manager_save_str ns k v) s = ESP_OK"
  shows "err_of (ext s) (trace s) (Nvs (NvsOpen ns True)) = ESP_OK"
    "err_of (ext s) (trace s @ [Nvs (NvsOpen ns True)])
       (Nvs (NvsSetStr (int_of (ext s) (trace s) (Nvs (NvsOpen ns True))) k v)) = ESP_OK"
  using assms by (auto simp: run_save_str Let_def split: if_splits)

lemma stored_load: "stored f (exec (nvs_manager_load_str ns k n) s) = stored f s"
proof (cases "n = 0")
  case True
  then show ?thesis by (simp add: nvs_manager_load_str_def)
next
  case False
  then show ?thesis
    by (cases "nvs_view (ext s) f (trace s)")
      (auto simp: stored_def run_load_str Let_def nvs_view_append fun_eq_iff)
qed

lemma load_str_stored:
  assumes law: "nvs_law f (ext s)" and r: "result (nvs_manager_load_str ns k n) s = (ESP_OK, v)"
  shows "stored f s ns k = Some v"
proof -
  let ?o = "Nvs (NvsOpen ns False)"
  let ?h = "int_of (ext s) (trace s) ?o"
  have n: "0 < n" using r by (cases "n = 0") (auto simp: nvs_manager_load_str_def)
  from r have opn: "err_of (ext s) (trace s) ?o = ESP_OK"
    and get: "err_of (ext s) (trace s @ [?o]) (Nvs (NvsGetStr ?h k n)) = ESP_OK"
      "str_of (ext s) (trace s @ [?o]) (Nvs (NvsGetStr ?h k n)) = v"
    by (auto simp: run_load_str [OF n] Let_def split: if_splits)
  have h: "fst (nvs_view (ext s) f (trace s @ [?o])) ?h = Some ns"
    and db: "snd (nvs_view (ext s) f (trace s @ [?o])) = snd (nvs_view (ext s) f (trace s))"
    using opn by (cases "nvs_view (ext s) f (trace s)"; simp)+
  show ?thesis
  proof (cases "snd (nvs_view (ext s) f (trace s)) (ns, k)")
    case None
    with nvs_lawD(1) [OF law h, of k n] get db show ?thesis by simp
  next
    case (Some w)
    with nvs_lawD(2,3) [OF law h, of k w n] get db show ?thesis
      by (cases "length w < n") (auto simp: stored_def)
  qed
qed

lemma load_str_iff:
  assumes "nvs_law f (ext s)" "0 < n"
  shows "result (nvs_manager_load_str ns k n) s = (ESP_OK, v) \<longleftrightarrow>
    err_of (ext s) (trace s) (Nvs (NvsOpen ns False)) = ESP_OK \<and> stored f s ns k = Some v \<and> length v < n"
proof -
  let ?o = "Nvs (NvsOpen ns False)"
  let ?h = "int_of (ext s) (trace s) ?o"
  show ?thesis
  proof (cases "err_of (ext s) (trace s) ?o = ESP_OK")
    case False
    then show ?thesis using assms(2) by (simp add: run_load_str Let_def)
  next
    case True
    then have h: "fst (nvs_view (ext s) f (trace s @ [?o])) ?h = Some ns"
      and db: "snd (nvs_view (ext s) f (trace s @ [?o])) (ns, k) = stored f s ns k"
      by (cases "nvs_view (ext s) f (trace s)"; simp add: stored_def)+
    show ?thesis
      using True assms(2) nvs_lawD(1) [OF assms(1) h, of k n] nvs_lawD(2,3) [OF assms(1) h, of k "the (stored f s ns k)" n] db
      by (cases "stored f s ns k"; cases "length (the (stored f s ns k)) < n")
        (auto simp: run_load_str Let_def)
  qed
qed

lemma ext_nvs [simp]:
  "ext (exec (nvs_manager_save_str ns k v) s) = ext s"
  "ext (exec (nvs_manager_load_str ns k n) s) = ext s"
  by (rule keepsD [of "\<lambda>s'. ext s' = ext s"], rule nvs_keeps, rule absorbs_ext, simp)+

interpretation nvs: kv_store nvs_manager_save_str nvs_manager_load_str "stored f"
    "\<lambda>s. nvs_law f (ext s)" for f
proof (unfold_locales, goal_cases)
  case (1 ns k v s)
  then show ?case using save_str_ok [OF 1] by (simp add: stored_save)
next
  case (2 ns' k' ns k v s)
  then show ?case by (auto simp: stored_save)
next
  case (3 s ns k n v)
  then show ?case by (rule load_str_stored)
qed (simp_all add: stored_load)

end
