(* ===== verification/Io_Button.thy ===== *)
theory Io_Button
  imports Ui_Manager Nvs_Manager
begin

text \<open>
  \<open>components/io_button\<close> and \<open>components/io_input\<close>: the three buttons, what each does
  on each kind of press, and the task that samples the expander every 50 ms and
  measures how long a button is held. One round of the task is an operation.
\<close>

section \<open>Handlers\<close>

datatype io_input_action = BTN_CLICK_SHORT | BTN_CLICK_LONG | BTN_CLICK_FACTORY

record io_button = ui_manager +
  lcd_backlight_off :: bool

definition on_reset_btn_click :: "io_input_action \<Rightarrow> ('x io_button_scheme, unit) op" where
  "on_reset_btn_click action =
     (if action = BTN_CLICK_LONG then do {
        (err, default_password) \<leftarrow> nvs_manager_load_str AUTH_NVS_NS AUTH_NVS_DEFAULT_KEY 64;
        if err \<noteq> ESP_OK then ret ()
        else do {
          err \<leftarrow> nvs_manager_save_str AUTH_NVS_NS AUTH_NVS_KEY default_password;
          if err \<noteq> ESP_OK then ret ()
          else ui_show_fixed_temp_cmd_message ''Password reset''
        }
      }
      else ret ())"

definition on_menu_btn_click :: "io_input_action \<Rightarrow> ('x io_button_scheme, unit) op" where
  "on_menu_btn_click action =
     (if action = BTN_CLICK_LONG then ui_manager_switch_mode
      else if action = BTN_CLICK_SHORT then ui_manager_manual_mode
      else ret ())"

definition on_lcd_toggle_backlight :: "io_input_action \<Rightarrow> ('x io_button_scheme, unit) op" where
  "on_lcd_toggle_backlight action =
     (if action = BTN_CLICK_SHORT then do {
        off \<leftarrow> gets lcd_backlight_off;
        sys_ind_lcd_backlight_set off;
        modify (\<lambda>s. s\<lparr>lcd_backlight_off := \<not> lcd_backlight_off s\<rparr>)
      }
      else ret ())"

section \<open>The registry\<close>

text \<open>The function pointers of the table, and what calling one runs.\<close>

datatype io_input_callback = OnReset | OnMenu | OnBacklight

fun run_callback :: "io_input_callback \<Rightarrow> io_input_action \<Rightarrow> ('x io_button_scheme, unit) op" where
  "run_callback OnReset a = on_reset_btn_click a"
| "run_callback OnMenu a = on_menu_btn_click a"
| "run_callback OnBacklight a = on_lcd_toggle_backlight a"

record io_input_config =
  btn_pin :: nat
  btn_callback :: "io_input_callback option"
  btn_name :: string

abbreviation (input) PCF_PIN_IN_BTN_RESET :: nat where "PCF_PIN_IN_BTN_RESET \<equiv> 5"
abbreviation (input) PCF_PIN_IN_BTN_MENU :: nat where "PCF_PIN_IN_BTN_MENU \<equiv> 6"
abbreviation (input) PCF_PIN_IN_BTN_LCD_BACKLIGHT :: nat where "PCF_PIN_IN_BTN_LCD_BACKLIGHT \<equiv> 7"

definition s_buttons :: "io_input_config list" where
  "s_buttons =
     [\<lparr>btn_pin = PCF_PIN_IN_BTN_RESET, btn_callback = Some OnReset, btn_name = ''RESET''\<rparr>,
      \<lparr>btn_pin = PCF_PIN_IN_BTN_MENU, btn_callback = Some OnMenu, btn_name = ''MENU''\<rparr>,
      \<lparr>btn_pin = PCF_PIN_IN_BTN_LCD_BACKLIGHT, btn_callback = Some OnBacklight, btn_name = ''BACKLIGHT''\<rparr>]"

definition io_button_get_buttons :: "io_input_config list" where
  "io_button_get_buttons = s_buttons"

definition io_button_get_buttons_count :: nat where
  "io_button_get_buttons_count = length s_buttons"

section \<open>Sampling\<close>

record btn_internal =
  btn_cfg :: io_input_config
  hold_timer :: int

record io_input = io_button +
  btns :: "btn_internal list"

abbreviation (input) BTN_TIME_SHORT :: int where "BTN_TIME_SHORT \<equiv> 50"
abbreviation (input) BTN_TIME_LONG :: int where "BTN_TIME_LONG \<equiv> 2000"
abbreviation (input) BTN_TIME_FACTORY :: int where "BTN_TIME_FACTORY \<equiv> 5000"

text \<open>The new hold time of one button and the action it triggers, if any.\<close>

definition hold_step :: "bool \<Rightarrow> int \<Rightarrow> int \<times> io_input_action option" where
  "hold_step is_pressed timer =
     (if is_pressed then
        let t = s32 (timer + 50)
        in (t, if t = BTN_TIME_SHORT then Some BTN_CLICK_SHORT
               else if t = BTN_TIME_LONG then Some BTN_CLICK_LONG
               else if t = BTN_TIME_FACTORY then Some BTN_CLICK_FACTORY
               else None)
      else (0, None))"

definition io_input_button :: "byte \<Rightarrow> nat \<Rightarrow> ('x io_input_scheme, unit) op" where
  "io_input_button port_val i = do {
     b \<leftarrow> gets (\<lambda>s. btns s ! i);
     let is_pressed = (drop_bit (btn_pin (btn_cfg b)) port_val AND 1 = 0);
     let (t, action) = hold_step is_pressed (hold_timer b);
     modify (\<lambda>s. s\<lparr>btns := (btns s)[i := b\<lparr>hold_timer := t\<rparr>]\<rparr>);
     (case (action, btn_callback (btn_cfg b)) of
        (Some a, Some cb) \<Rightarrow> run_callback cb a
      | _ \<Rightarrow> ret ())
   }"

definition io_input_round :: "('x io_input_scheme, unit) op" where
  "io_input_round = do {
     (err, port_val) \<leftarrow> i2c_bus_pcf8574_read_byte EXPANDER_ADDR;
     n \<leftarrow> gets (\<lambda>s. length (btns s));
     whenM (err = ESP_OK) (for_each [0..<n] (io_input_button port_val));
     vTaskDelay 50
   }"

definition io_input_init :: "io_input_config list option \<Rightarrow> ('x io_input_scheme, esp_err_t) op" where
  "io_input_init config =
     (case config of
        None \<Rightarrow> ret ESP_ERR_INVALID_ARG
      | Some cfgs \<Rightarrow>
          if cfgs = [] then ret ESP_ERR_INVALID_ARG
          else do {
            ok \<leftarrow> call_bool (Mem (Malloc (16 * length cfgs)));
            if \<not> ok then ret ESP_ERR_NO_MEM
            else do {
              modify (\<lambda>s. s\<lparr>btns := map (\<lambda>c. \<lparr>btn_cfg = c, hold_timer = 0\<rparr>) cfgs\<rparr>);
              call_bool (Rtos (TaskCreate ''io_input_task''));
              ret ESP_OK
            }
          })"

lemmas button_defs =
  on_reset_btn_click_def on_menu_btn_click_def on_lcd_toggle_backlight_def

section \<open>What the operations keep\<close>

lemma button_keeps:
  assumes "app_pred P" "render_fields_free P" "manager_fields_free P"
    and "\<And>c. absorbs P (Time c)" "\<And>c. absorbs P (Net c)" "\<And>c. scroll_call c \<Longrightarrow> absorbs P c"
    and "\<And>c. absorbs P (Nvs c)" "ignores lcd_backlight_off_update P"
  shows "keeps P (run_callback cb a)"
proof -
  note [intro!] = ui_manager_keeps [OF assms(1-6)] app_pred_ui [OF assms(1)] app_pred_ind [OF assms(1)]
    nvs_keeps [OF assms(7)]
  have "keeps P (on_reset_btn_click a)" "keeps P (on_menu_btn_click a)"
    "keeps P (on_lcd_toggle_backlight a)"
    unfolding button_defs using assms(8) by (auto intro!: keeps_intro simp: ignoresD)
  then show ?thesis by (cases cb) simp_all
qed

lemma input_button_keeps:
  assumes "\<And>cb a. keeps P (run_callback cb a)" "ignores btns_update P"
  shows "keeps P (io_input_button v i)"
  using assms unfolding io_input_button_def
  by (auto intro!: keeps_intro simp: ignoresD split: option.split)

lemma input_round_keeps:
  assumes "\<And>cb a. keeps P (run_callback cb a)" "ignores btns_update P" "absorbs_on hw_neutral P"
  shows "keeps P io_input_round"
  using assms input_button_keeps [OF assms(1,2)]
  unfolding io_input_round_def i2c_bus_pcf8574_read_byte_def
  by (auto intro!: keeps_intro intro: absorbs_onD)

section \<open>Hold times\<close>

text \<open>
  The actions a sequence of samples of one button triggers, from a given hold time.
\<close>

fun button_actions :: "int \<Rightarrow> bool list \<Rightarrow> io_input_action list" where
  "button_actions t [] = []"
| "button_actions t (p # ps) =
     (case hold_step p t of (t', a) \<Rightarrow>
        (case a of Some a \<Rightarrow> a # button_actions t' ps | None \<Rightarrow> button_actions t' ps))"

definition hold_actions :: "nat \<Rightarrow> nat \<Rightarrow> io_input_action list" where
  "hold_actions j n =
     (if j < 1 \<and> 1 \<le> n then [BTN_CLICK_SHORT] else []) @
     (if j < 40 \<and> 40 \<le> n then [BTN_CLICK_LONG] else []) @
     (if j < 100 \<and> 100 \<le> n then [BTN_CLICK_FACTORY] else [])"

lemma hold_step_pressed:
  assumes "j < 40000000"
  shows "hold_step True (50 * int j) =
    (50 * int (Suc j),
     if j = 0 then Some BTN_CLICK_SHORT else if j = 39 then Some BTN_CLICK_LONG
     else if j = 99 then Some BTN_CLICK_FACTORY else None)"
proof -
  have "s32 (50 * int j + 50) = 50 * int j + 50" using assms by (intro s32_id) auto
  then show ?thesis by (auto simp: hold_step_def)
qed

lemma button_actions_hold:
  assumes "j + n \<le> 40000000"
  shows "button_actions (50 * int j) (replicate n True) = hold_actions j (j + n)"
  using assms
proof (induction n arbitrary: j)
  case 0
  then show ?case by (auto simp: hold_actions_def)
next
  case (Suc n)
  have j: "j < 40000000" using Suc.prems by simp
  have IH: "button_actions (50 * int (Suc j)) (replicate n True) = hold_actions (Suc j) (Suc j + n)"
    using Suc.prems by (intro Suc.IH) simp
  show ?case
    unfolding replicate_Suc button_actions.simps hold_step_pressed [OF j] prod.case IH
    by (auto simp: hold_actions_def)
qed

lemma button_actions_append:
  "\<exists>t'. button_actions t (ps @ qs) = button_actions t ps @ button_actions t' qs \<and>
     (ps \<noteq> [] \<and> \<not> last ps \<longrightarrow> t' = 0) \<and> (ps = [] \<longrightarrow> t' = t)"
proof (induction ps arbitrary: t)
  case Nil
  then show ?case by auto
next
  case (Cons p ps)
  obtain t1 a where st: "hold_step p t = (t1, a)" by (cases "hold_step p t")
  from Cons.IH [of t1] obtain t' where
    IH: "button_actions t1 (ps @ qs) = button_actions t1 ps @ button_actions t' qs"
      "ps \<noteq> [] \<and> \<not> last ps \<longrightarrow> t' = 0" "ps = [] \<longrightarrow> t' = t1" by blast
  have "t1 = 0" if "\<not> p" using st that by (simp add: hold_step_def)
  with IH st show ?case by (intro exI [of _ t']) (auto split: option.splits)
qed

text \<open>A press of \<open>n\<close> samples between two releases.\<close>

lemma press_actions:
  assumes "n \<le> 40000000"
  shows "button_actions t (False # replicate n True @ [False]) = hold_actions 0 n"
proof -
  obtain t' where "button_actions 0 (replicate n True @ [False]) =
      button_actions 0 (replicate n True) @ button_actions t' [False]"
    using button_actions_append [of 0 "replicate n True" "[False]"] by blast
  then show ?thesis
    using button_actions_hold [of 0 n] assms by (simp add: hold_step_def)
qed

section \<open>A round of the task\<close>

text \<open>The callbacks do not touch the button table, so a round steps every button once.\<close>

definition btn_pressed :: "byte \<Rightarrow> btn_internal \<Rightarrow> bool" where
  "btn_pressed v b \<longleftrightarrow> \<not> bit v (btn_pin (btn_cfg b))"

definition btn_next :: "byte \<Rightarrow> btn_internal \<Rightarrow> btn_internal" where
  "btn_next v b = b\<lparr>hold_timer := fst (hold_step (btn_pressed v b) (hold_timer b))\<rparr>"

lemma callback_btns [simp]:
  fixes s :: "'x io_input_scheme"
  shows "btns (exec (run_callback cb a) s) = btns s"
proof (rule keeps_field)
  fix v
  have "app_pred (\<lambda>s :: 'x io_input_scheme. btns s = v)"
    by (rule app_pred_frame)
      (auto simp: absorbs_on_def absorbs_def ignores_def ui_fields_free_def ind_fields_free_def)
  then show "keeps (\<lambda>s :: 'x io_input_scheme. btns s = v) (run_callback cb a)"
    by (rule button_keeps)
      (auto simp: absorbs_def ignores_def render_fields_free_def manager_fields_free_def)
qed

lemma pressed_bit: "drop_bit p (v :: byte) AND 1 = 0 \<longleftrightarrow> \<not> bit v p"
  by (simp add: bit_iff_odd_drop_bit and_one_eq odd_iff_mod_2_eq_one even_iff_mod_2_eq_zero)

lemma input_button_btns:
  "btns (exec (io_input_button v i) s) = (btns s)[i := btn_next v (btns s ! i)]"
  by (simp add: io_input_button_def pressed_bit btn_next_def btn_pressed_def case_prod_beta Let_def
      split: option.split)

lemma input_scan_btns:
  "k \<le> length (btns s) \<Longrightarrow>
   btns (exec (for_each [0..<k] (io_input_button v)) s) =
     map (btn_next v) (take k (btns s)) @ drop k (btns s)"
proof (induction k)
  case 0
  then show ?case by simp
next
  case (Suc k)
  then show ?case
    by (simp add: case_prod_beta input_button_btns nth_append list_update_append take_Suc_conv_app_nth
        Cons_nth_drop_Suc [symmetric])
qed

lemma input_round_btns:
  "btns (exec io_input_round s) =
     (let (err, v) = result (i2c_bus_pcf8574_read_byte 0x20) s
      in if err = ESP_OK then map (btn_next v) (btns s) else btns s)"
proof -
  have "btns (exec (i2c_bus_pcf8574_read_byte 0x20) s) = btns s"
    by (simp add: i2c_bus_pcf8574_read_byte_def)
  then show ?thesis
    by (simp add: io_input_round_def case_prod_beta input_scan_btns Let_def)
qed

end
