(* ===== verification/Ws_Queue.thy ===== *)
theory Ws_Queue
  imports Io_Button
begin

text \<open>
  \<open>components/ws_queue\<close>: the queue of outgoing WebSocket messages. A message owns
  its payload, a heap block made by \<open>strdup\<close>. The FreeRTOS queue itself is outside:
  \<open>pending\<close> is its documented content, read off the accepted sends and the receives,
  and \<open>queue_law\<close> is its documented behaviour (first in, first out, ten places).

  The locale \<open>payload_queue\<close> is the contract between the producers and the
  dispatcher: who owns which block.
\<close>

section \<open>State and operations\<close>

record ws_queue = io_input +
  s_ws_queue :: bool

abbreviation (input) WS_QUEUE_SIZE :: nat where "WS_QUEUE_SIZE \<equiv> 10"
abbreviation (input) WS_EVENT_NAME_MAX :: nat where "WS_EVENT_NAME_MAX \<equiv> 16"
abbreviation WS_EVENT_TYPE_ENV_UPDATE :: string where "WS_EVENT_TYPE_ENV_UPDATE \<equiv> ''env''"
abbreviation WS_EVENT_TYPE_SYS_INFO :: string where "WS_EVENT_TYPE_SYS_INFO \<equiv> ''sys_info''"
abbreviation WS_EVENT_TYPE_OTA_UPDATE_PROGRESS :: string where
  "WS_EVENT_TYPE_OTA_UPDATE_PROGRESS \<equiv> ''update_progress''"
abbreviation WS_EVENT_TYPE_CMD_INVOCATION :: string where
  "WS_EVENT_TYPE_CMD_INVOCATION \<equiv> ''cmd_invocation''"

definition ws_queue_init :: "('x ws_queue_scheme, esp_err_t) op" where
  "ws_queue_init = do {
     q \<leftarrow> gets s_ws_queue;
     if q then ret ESP_OK
     else do {
       q \<leftarrow> call_bool (Queue (QueueCreate WS_QUEUE_SIZE));
       modify (\<lambda>s. s\<lparr>s_ws_queue := q\<rparr>);
       if \<not> q then ret ESP_ERR_NO_MEM else ret ESP_OK
     }
   }"

definition ws_queue_send :: "string \<Rightarrow> string \<Rightarrow> ('x ws_queue_scheme, bool) op" where
  "ws_queue_send event_name json_data = do {
     q \<leftarrow> gets s_ws_queue;
     if \<not> q then ret False
     else do {
       let event = c_trunc WS_EVENT_NAME_MAX event_name;
       payload \<leftarrow> malloc_str json_data;
       (case payload of
          None \<Rightarrow> ret False
        | Some p \<Rightarrow> do {
            ok \<leftarrow> call_bool (Queue (QueueSend event p));
            if \<not> ok then do { free_str p; ret False }
            else ret True
          })
     }
   }"

text \<open>The event name and the payload pointer of the message received.\<close>

definition ws_queue_receive :: "('x ws_queue_scheme, (string \<times> nat) option) op" where
  "ws_queue_receive = do {
     q \<leftarrow> gets s_ws_queue;
     if \<not> q then ret None
     else do {
       (ok, ev, p) \<leftarrow> ask (\<lambda>e h c. (bool_of e h c, str_of e h c, int_of e h c)) (Queue QueueReceive);
       ret (if ok then Some (ev, nat p) else None)
     }
   }"

section \<open>The queue's documented content\<close>

fun queue_step :: "ext_env \<Rightarrow> call list \<Rightarrow> (string \<times> nat) list \<Rightarrow> call \<Rightarrow> (string \<times> nat) list" where
  "queue_step e t q (Queue (QueueSend ev p)) =
     (if bool_of e t (Queue (QueueSend ev p)) then q @ [(ev, p)] else q)"
| "queue_step e t q (Queue QueueReceive) =
     (if bool_of e t (Queue QueueReceive) then tl q else q)"
| "queue_step e t q _ = q"

fun queue_view_rev :: "ext_env \<Rightarrow> call list \<Rightarrow> (string \<times> nat) list" where
  "queue_view_rev e [] = []"
| "queue_view_rev e (c # r) = queue_step e (rev r) (queue_view_rev e r) c"

definition queue_view :: "ext_env \<Rightarrow> call list \<Rightarrow> (string \<times> nat) list" where
  "queue_view e t = queue_view_rev e (rev t)"

lemma queue_view_Nil [simp]: "queue_view e [] = []"
  by (simp add: queue_view_def)

lemma queue_view_snoc [simp]: "queue_view e (t @ [c]) = queue_step e t (queue_view e t) c"
  by (simp add: queue_view_def)

lemma queue_view_snoc2 [simp]:
  "queue_view e (t @ [c, d]) = queue_step e (t @ [c]) (queue_step e t (queue_view e t) c) d"
  using queue_view_snoc [of e "t @ [c]" d] by simp

lemma queue_view_snoc3 [simp]:
  "queue_view e (t @ [a, b, c]) = queue_step e (t @ [a, b]) (queue_view e (t @ [a, b])) c"
  using queue_view_snoc [of e "t @ [a, b]" c] by simp

definition pending :: "'x platform_scheme \<Rightarrow> (string \<times> nat) list" where
  "pending s = queue_view (ext s) (trace s)"

definition queue_law :: "ext_env \<Rightarrow> bool" where
  "queue_law e \<longleftrightarrow>
     (\<forall>t. bool_of e t (Queue QueueReceive) \<longrightarrow>
        queue_view e t \<noteq> [] \<and>
        hd (queue_view e t) =
          (str_of e t (Queue QueueReceive), nat (int_of e t (Queue QueueReceive)))) \<and>
     (\<forall>t ev p. bool_of e t (Queue (QueueSend ev p)) \<longrightarrow> length (queue_view e t) < WS_QUEUE_SIZE)"

lemma queue_law_sendD:
  "queue_law e \<Longrightarrow> bool_of e t (Queue (QueueSend ev p)) \<Longrightarrow> length (queue_view e t) < WS_QUEUE_SIZE"
  by (auto simp: queue_law_def)

fun not_queue :: "call \<Rightarrow> bool" where
  "not_queue (Queue _) = False"
| "not_queue _ = True"

lemma queue_step_other [simp]: "not_queue c \<Longrightarrow> queue_step e t q c = q"
  by (cases "(e, t, q, c)" rule: queue_step.cases) auto

section \<open>Ownership\<close>

text \<open>
  \<open>owned B\<close>: the live heap blocks are those in \<open>B\<close> and the payloads of the pending
  messages, each of them once; nothing has been freed twice or read after its
  release; the queue holds at most ten messages, with names that were not cut.
\<close>

definition owned :: "nat set \<Rightarrow> 'x platform_scheme \<Rightarrow> bool" where
  "owned B s \<longleftrightarrow>
     heap_wf s \<and> \<not> mem_fault s \<and> queue_law (ext s) \<and> distinct (map snd (pending s)) \<and>
     dom (heap s) = B \<union> set (map snd (pending s)) \<and> B \<inter> set (map snd (pending s)) = {} \<and>
     length (pending s) \<le> WS_QUEUE_SIZE \<and> (\<forall>m\<in>set (pending s). length (fst m) < WS_EVENT_NAME_MAX)"

lemma absorbs_owned: "not_queue c \<Longrightarrow> absorbs (owned B) c"
  by (simp add: absorbs_def owned_def pending_def heap_wf_def)

lemma owned_ignores:
  "ignores port_shadow_update (owned B)" "ui_fields_free (owned B)" "ind_fields_free (owned B)"
  by (simp_all add: ignores_def owned_def pending_def heap_wf_def ui_fields_free_def ind_fields_free_def)

lemma app_pred_owned: "app_pred (owned B)"
proof (rule app_pred_frame)
  have "low_call c \<Longrightarrow> not_queue c" for c by (cases c) simp_all
  then show "absorbs_on low_call (owned B)" by (auto simp: absorbs_on_def intro: absorbs_owned)
qed (rule owned_ignores)+

lemma owned_fresh: "owned B s \<Longrightarrow> heap s (next_ptr s) = None"
  by (auto simp: owned_def heap_wf_def)

lemma owned_malloc:
  assumes "owned B s"
  shows "case result (malloc_buf n v) s of
      None \<Rightarrow> owned B (exec (malloc_buf n v) s)
    | Some p \<Rightarrow> p \<notin> B \<and> p \<notin> set (map snd (pending s)) \<and>
        owned (insert p B) (exec (malloc_buf n v) s) \<and>
        heap (exec (malloc_buf n v) s) p = Some v \<and>
        pending (exec (malloc_buf n v) s) = pending s"
proof -
  have "next_ptr s \<notin> dom (heap s)" using owned_fresh [OF assms] by auto
  then show ?thesis
    using assms
    by (auto simp: run_malloc_buf owned_def pending_def heap_wf_def less_Suc_eq)
qed

lemma owned_free:
  assumes "owned (insert p B) s" "p \<notin> B"
  shows "owned B (exec (free_str p) s)"
proof -
  have "heap s p \<noteq> None" using assms(1) by (auto simp: owned_def)
  moreover have "dom ((heap s)(p := None)) = B \<union> set (map snd (pending s))"
    using assms by (auto simp: owned_def)
  ultimately show ?thesis
    using assms by (auto simp: run_free_str owned_def pending_def heap_wf_def)
qed

lemma pending_free [simp]: "pending (exec (free_str p) s) = pending s"
  by (simp add: run_free_str pending_def)

lemma ext_free [simp]: "ext (exec (free_str p) s) = ext s"
  by (simp add: run_free_str)

section \<open>The contract\<close>

locale payload_queue =
  fixes send :: "string \<Rightarrow> string \<Rightarrow> ('s, bool) op"
    and receive :: "('s, (string \<times> nat) option) op"
    and release :: "nat \<Rightarrow> ('s, unit) op"
    and content :: "'s \<Rightarrow> (string \<times> nat) list"
    and payload :: "'s \<Rightarrow> nat \<Rightarrow> string option"
    and valid :: "nat set \<Rightarrow> 's \<Rightarrow> bool"
    and name_max :: nat
  assumes send_valid: "valid B s \<Longrightarrow> valid B (exec (send ev d) s)"
    and send_accepted: "valid B s \<Longrightarrow> result (send ev d) s \<Longrightarrow>
      \<exists>p. content (exec (send ev d) s) = content s @ [(c_trunc name_max ev, p)] \<and>
          payload (exec (send ev d) s) p = Some d"
    and send_refused: "valid B s \<Longrightarrow> \<not> result (send ev d) s \<Longrightarrow> content (exec (send ev d) s) = content s"
    and receive_some: "valid B s \<Longrightarrow> result receive s = Some (ev, p) \<Longrightarrow>
      content s = (ev, p) # content (exec receive s) \<and> valid (insert p B) (exec receive s) \<and> p \<notin> B \<and>
      payload (exec receive s) p = payload s p \<and> payload s p \<noteq> None"
    and receive_none: "valid B s \<Longrightarrow> result receive s = None \<Longrightarrow>
      valid B (exec receive s) \<and> content (exec receive s) = content s"
    and release_valid: "valid (insert p B) s \<Longrightarrow> p \<notin> B \<Longrightarrow> valid B (exec (release p) s)"
begin

text \<open>A consumer that works on a message without disturbing ownership and then releases it.\<close>

definition consume :: "(string \<Rightarrow> nat \<Rightarrow> ('s, unit) op) \<Rightarrow> ('s, unit) op" where
  "consume work = do {
     m \<leftarrow> receive;
     (case m of
        None \<Rightarrow> ret ()
      | Some (ev, p) \<Rightarrow> do { work ev p; release p })
   }"

lemma consume_valid:
  assumes "valid B s"
    and "\<And>ev p s. valid (insert p B) s \<Longrightarrow> p \<notin> B \<Longrightarrow> payload s p \<noteq> None \<Longrightarrow>
           valid (insert p B) (exec (work ev p) s)"
  shows "valid B (exec (consume work) s)"
proof (cases "result receive s")
  case None
  with receive_none [OF assms(1)] show ?thesis by (simp add: consume_def case_prod_beta)
next
  case (Some m)
  obtain ev p where m: "m = (ev, p)" by (cases m)
  from receive_some [OF assms(1)] Some m
  have r: "valid (insert p B) (exec receive s)" "p \<notin> B" "payload (exec receive s) p \<noteq> None"
    by auto
  from release_valid [OF assms(2) [OF r] r(2)] Some m show ?thesis
    by (simp add: consume_def case_prod_beta)
qed

text \<open>The names of the messages accepted in a run of sends stand in the queue in their order.\<close>

fun send_all :: "(string \<times> string) list \<Rightarrow> 's \<Rightarrow> (string \<times> string) list \<times> 's" where
  "send_all [] s = ([], s)"
| "send_all (m # ms) s =
     (case send_all ms (exec (send (fst m) (snd m)) s) of
        (acc, s') \<Rightarrow> (if result (send (fst m) (snd m)) s then m # acc else acc, s'))"

lemma send_all_order:
  assumes "valid B s"
  shows "valid B (snd (send_all ms s)) \<and>
    map fst (content (snd (send_all ms s))) =
      map fst (content s) @ map (c_trunc name_max \<circ> fst) (fst (send_all ms s))"
  using assms
proof (induction ms arbitrary: s)
  case Nil
  then show ?case by simp
next
  case (Cons m ms)
  let ?s = "exec (send (fst m) (snd m)) s"
  note IH = Cons.IH [OF send_valid [OF Cons.prems, of "fst m" "snd m"]]
  show ?case
  proof (cases "result (send (fst m) (snd m)) s")
    case True
    with send_accepted [OF Cons.prems] obtain p where
      "content ?s = content s @ [(c_trunc name_max (fst m), p)]" by blast
    with IH True show ?thesis by (simp add: case_prod_beta)
  next
    case False
    with send_refused [OF Cons.prems False] IH show ?thesis by (simp add: case_prod_beta)
  qed
qed

end

section \<open>The queue provides it\<close>

lemma send_cases:
  assumes "owned B s"
  shows "owned B (exec (ws_queue_send ev d) s) \<and>
    (if result (ws_queue_send ev d) s
     then \<exists>p. pending (exec (ws_queue_send ev d) s) = pending s @ [(c_trunc 16 ev, p)] \<and>
              heap (exec (ws_queue_send ev d) s) p = Some d
     else pending (exec (ws_queue_send ev d) s) = pending s)"
proof (cases "s_ws_queue s")
  case False
  with assms show ?thesis by (simp add: ws_queue_send_def)
next
  case q: True
  let ?m = "malloc_buf (length d + 1) d"
  show ?thesis
  proof (cases "result ?m s")
    case None
    with owned_malloc [OF assms, of "length d + 1" d] q assms show ?thesis
      by (auto simp: ws_queue_send_def malloc_str_def case_prod_beta Let_def run_malloc_buf pending_def
          split: if_splits)
  next
    case (Some p)
    let ?s1 = "exec ?m s" and ?c = "Queue (QueueSend (c_trunc 16 ev) p)"
    from owned_malloc [OF assms, of "length d + 1" d] Some
    have o1: "p \<notin> B" "p \<notin> set (map snd (pending s))" "owned (insert p B) ?s1"
      "heap ?s1 p = Some d" "pending ?s1 = pending s" by auto
    let ?s2 = "?s1\<lparr>trace := trace ?s1 @ [?c]\<rparr>"
    have len: "length (c_trunc 16 ev) < 16" by (simp add: c_trunc_def)
    show ?thesis
    proof (cases "bool_of (ext ?s1) (trace ?s1) ?c")
      case False
      then have p2: "pending ?s2 = pending ?s1" by (simp add: pending_def)
      with o1 have "owned (insert p B) ?s2" by (simp add: owned_def heap_wf_def)
      with o1 have "owned B (exec (free_str p) ?s2)" by (intro owned_free)
      with False q Some p2 o1 show ?thesis
        by (simp add: ws_queue_send_def malloc_str_def case_prod_beta Let_def)
    next
      case True
      then have p2: "pending ?s2 = pending s @ [(c_trunc 16 ev, p)]" using o1(5) by (simp add: pending_def)
      have "length (pending ?s1) < 10"
        using o1(3) queue_law_sendD [OF _ True] by (simp add: owned_def pending_def)
      then have "length (pending s) < 10" by (simp only: o1(5))
      with o1 p2 len have "owned B ?s2" by (auto simp: owned_def heap_wf_def)
      with True q Some p2 o1 show ?thesis
        by (simp add: ws_queue_send_def malloc_str_def case_prod_beta Let_def)
    qed
  qed
qed

text \<open>The block is the next one of the heap; a message that is refused leaves no trace there.\<close>

lemma send_heap:
  assumes "owned B s"
  shows "if result (ws_queue_send ev d) s
    then \<exists>p. heap s p = None \<and> heap (exec (ws_queue_send ev d) s) = (heap s)(p := Some d) \<and>
           pending (exec (ws_queue_send ev d) s) = pending s @ [(c_trunc 16 ev, p)]
    else heap (exec (ws_queue_send ev d) s) = heap s \<and> pending (exec (ws_queue_send ev d) s) = pending s"
  using owned_fresh [OF assms]
  by (auto simp: ws_queue_send_def malloc_str_def run_malloc_buf run_free_str pending_def
      case_prod_beta Let_def fun_upd_idem)

lemma receive_cases:
  assumes "owned B s"
  shows "case result ws_queue_receive s of
      None \<Rightarrow> owned B (exec ws_queue_receive s) \<and> pending (exec ws_queue_receive s) = pending s
    | Some (ev, p) \<Rightarrow> pending s = (ev, p) # pending (exec ws_queue_receive s) \<and>
        owned (insert p B) (exec ws_queue_receive s) \<and> p \<notin> B \<and>
        heap (exec ws_queue_receive s) p = heap s p \<and> heap s p \<noteq> None"
proof (cases "s_ws_queue s \<and> bool_of (ext s) (trace s) (Queue QueueReceive)")
  case False
  with assms show ?thesis
    by (auto simp: ws_queue_receive_def run_ask owned_def pending_def heap_wf_def case_prod_beta)
next
  case True
  define ev p where "ev = str_of (ext s) (trace s) (Queue QueueReceive)"
    and "p = nat (int_of (ext s) (trace s) (Queue QueueReceive))"
  have "queue_view (ext s) (trace s) \<noteq> []" "hd (queue_view (ext s) (trace s)) = (ev, p)"
    using assms True by (auto simp: owned_def queue_law_def ev_def p_def)
  then obtain q where q: "pending s = (ev, p) # q"
    unfolding pending_def by (metis list.collapse)
  let ?s = "s\<lparr>trace := trace s @ [Queue QueueReceive]\<rparr>"
  have q': "pending ?s = q" using q True by (simp add: pending_def)
  have run: "run_state ws_queue_receive s = (Some (ev, p), ?s)"
    using True by (simp add: ws_queue_receive_def run_ask ev_def p_def)
  have "owned (insert p B) ?s" "p \<notin> B" "heap s p \<noteq> None"
    using assms q q' by (auto simp: owned_def heap_wf_def)
  then show ?thesis using run q q' by simp
qed

interpretation wsq: payload_queue ws_queue_send ws_queue_receive free_str pending heap owned 16
proof (unfold_locales, goal_cases)
  case (1 B s ev d)
  then show ?case using send_cases by blast
next
  case (2 B s ev d)
  then show ?case using send_cases [OF 2(1), of ev d] by simp
next
  case (3 B s ev d)
  then show ?case using send_cases [OF 3(1), of ev d] by simp
next
  case (4 B s ev p)
  then show ?case using receive_cases [OF 4(1)] by simp
next
  case (5 B s)
  then show ?case using receive_cases [OF 5(1)] by simp
next
  case (6 p B s)
  then show ?case by (rule owned_free)
qed

section \<open>What the operations keep\<close>

lemma queue_keeps:
  assumes "\<And>c. absorbs P (Queue c)" "\<And>c. absorbs P (Mem c)"
    and "ignores heap_update P" "ignores next_ptr_update P" "ignores mem_fault_update P"
    and "ignores s_ws_queue_update P"
  shows "keeps P (ws_queue_send ev d)" "keeps P ws_queue_receive" "keeps P ws_queue_init"
proof -
  have ask: "keeps P (ask f (Queue c))" for f and c :: queue_call
    using assms(1) [of c] by (simp add: keeps_def run_ask absorbs_def)
  show "keeps P (ws_queue_send ev d)" "keeps P ws_queue_receive" "keeps P ws_queue_init"
    using assms
    unfolding ws_queue_send_def ws_queue_receive_def ws_queue_init_def malloc_str_def malloc_buf_def
      free_str_def Let_def
    by (auto intro!: keeps_intro ask simp: ignoresD)
qed

end
