(* ===== verification/Ws_Dispatcher.thy ===== *)
theory Ws_Dispatcher
  imports Ws_Queue
begin

text \<open>
  \<open>components/ws_dispatcher\<close>: the task that takes queued messages and sends each as
  one text frame to the active WebSocket client, and the registration of that
  client. One round of the task is an operation.
\<close>

section \<open>State and operations\<close>

record ws_dispatcher = ws_queue +
  s_active_socket :: int
  s_server_handle :: "nat option"

abbreviation (input) HTTPD_WS_CLIENT_WEBSOCKET :: int where "HTTPD_WS_CLIENT_WEBSOCKET \<equiv> 2"

definition frame_text :: "string \<Rightarrow> string \<Rightarrow> string" where
  "frame_text event data = ''{\"type\":\"'' @ event @ ''\",\"data\":'' @ data @ ''}''"

text \<open>\<open>data\<close> is the pointer to the payload, which the function reads.\<close>

definition send_ws_json :: "nat \<Rightarrow> int \<Rightarrow> string \<Rightarrow> nat \<Rightarrow> ('x ws_dispatcher_scheme, unit) op" where
  "send_ws_json server socket event data = do {
     info \<leftarrow> call_int (Httpd (WsFdInfo server socket));
     if info \<noteq> HTTPD_WS_CLIENT_WEBSOCKET then modify (\<lambda>s. s\<lparr>s_active_socket := - 1\<rparr>)
     else do {
       d \<leftarrow> read_str data;
       let len = length event + length d + 30;
       buffer \<leftarrow> malloc_buf len (c_trunc len (frame_text event d));
       (case buffer of
          None \<Rightarrow> ret ()
        | Some b \<Rightarrow> do {
            payload \<leftarrow> read_str b;
            r \<leftarrow> call_err (Httpd (WsSendAsync server socket payload));
            whenM (r \<noteq> ESP_OK) (modify (\<lambda>s. s\<lparr>s_active_socket := - 1\<rparr>));
            free_str b
          })
     }
   }"

definition ws_task_send :: "string \<Rightarrow> nat \<Rightarrow> ('x ws_dispatcher_scheme, unit) op" where
  "ws_task_send event payload = do {
     sock \<leftarrow> gets s_active_socket;
     server \<leftarrow> gets s_server_handle;
     (case server of
        Some h \<Rightarrow> whenM (sock \<noteq> - 1) (send_ws_json h sock event payload)
      | None \<Rightarrow> ret ())
   }"

definition ws_task_round :: "('x ws_dispatcher_scheme, unit) op" where
  "ws_task_round = do {
     msg \<leftarrow> ws_queue_receive;
     (case msg of
        None \<Rightarrow> ret ()
      | Some (event, payload) \<Rightarrow> do {
          ws_task_send event payload;
          free_str payload
        })
   }"

definition ws_dispatcher_init :: "('x ws_dispatcher_scheme, esp_err_t) op" where
  "ws_dispatcher_init = do {
     ok \<leftarrow> call_bool (Rtos (TaskCreate ''ws_dispatcher_task''));
     ret (if ok then ESP_OK else ESP_ERR_NO_MEM)
   }"

definition ws_dispatcher_add_client :: "nat \<Rightarrow> int \<Rightarrow> ('x ws_dispatcher_scheme, unit) op" where
  "ws_dispatcher_add_client server_handle new_sockfd = do {
     sock \<leftarrow> gets s_active_socket;
     whenM (sock \<noteq> - 1 \<and> sock \<noteq> new_sockfd) (call_unit (Httpd (SessClose server_handle sock)));
     modify (\<lambda>s. s\<lparr>s_active_socket := new_sockfd, s_server_handle := Some server_handle\<rparr>)
   }"

definition ws_dispatcher_remove_client :: "int \<Rightarrow> ('x ws_dispatcher_scheme, unit) op" where
  "ws_dispatcher_remove_client sockfd = do {
     sock \<leftarrow> gets s_active_socket;
     whenM (sock = sockfd) (modify (\<lambda>s. s\<lparr>s_active_socket := - 1\<rparr>))
   }"

section \<open>Frames\<close>

text \<open>The buffer of thirty spare bytes holds the whole frame.\<close>

lemma frame_fits: "c_trunc (length ev + length d + 30) (frame_text ev d) = frame_text ev d"
  by (simp add: c_trunc_def frame_text_def)

fun sent_frame :: "call \<Rightarrow> (nat \<times> int \<times> string) list" where
  "sent_frame (Httpd (WsSendAsync h sock txt)) = [(h, sock, txt)]"
| "sent_frame _ = []"

definition sent_frames :: "call list \<Rightarrow> (nat \<times> int \<times> string) list" where
  "sent_frames t = concat (map sent_frame t)"

lemma sent_frames_simps [simp]:
  "sent_frames [] = []" "sent_frames (c # t) = sent_frame c @ sent_frames t"
  "sent_frames (t @ u) = sent_frames t @ sent_frames u"
  by (simp_all add: sent_frames_def)

lemma owned_absorb_call:
  "not_queue c \<Longrightarrow> owned B (s\<lparr>trace := trace s @ [c]\<rparr>) = owned B s"
  by (simp add: owned_def pending_def heap_wf_def)

lemma owned_dispatch_fields [simp]:
  "owned B (s\<lparr>s_active_socket := x\<rparr>) = owned B s" "owned B (s\<lparr>s_server_handle := y\<rparr>) = owned B s"
  by (simp_all add: owned_def pending_def heap_wf_def)

lemma owned_read:
  assumes "owned B s" "heap s p = Some v"
  shows "run_state (read_str p) s = (v, s)"
  using assms by (simp add: run_read_str)

text \<open>What one call of \<open>send_ws_json\<close> sends, and that it leaves ownership as it was.\<close>

lemma send_ws_json_effect:
  assumes "owned B s" "heap s p = Some d"
  shows "owned B (exec (send_ws_json h sock ev p) s) \<and>
    sent_frames (trace (exec (send_ws_json h sock ev p) s)) =
      sent_frames (trace s) @
      (if int_of (ext s) (trace s) (Httpd (WsFdInfo h sock)) = 2 \<and>
          bool_of (ext s) (trace s @ [Httpd (WsFdInfo h sock)]) (Mem (Malloc (length ev + length d + 30)))
       then [(h, sock, frame_text ev d)] else [])"
proof -
  let ?c = "Httpd (WsFdInfo h sock)" and ?n = "length ev + length d + 30"
  let ?s1 = "s\<lparr>trace := trace s @ [?c]\<rparr>"
  have o1: "owned B ?s1" "heap ?s1 p = Some d" using assms by (simp_all add: owned_absorb_call)
  show ?thesis
  proof (cases "int_of (ext s) (trace s) ?c = 2")
    case False
    with o1 show ?thesis by (simp add: send_ws_json_def)
  next
    case ws: True
    let ?m = "malloc_buf ?n (frame_text ev d)"
    have run: "run_state (send_ws_json h sock ev p) s =
      (case run_state ?m ?s1 of
         (None, s2) \<Rightarrow> ((), s2)
       | (Some b, s2) \<Rightarrow> run_state (do {
            payload \<leftarrow> read_str b;
            r \<leftarrow> call_err (Httpd (WsSendAsync h sock payload));
            whenM (r \<noteq> ESP_OK) (modify (\<lambda>s. s\<lparr>s_active_socket := - 1\<rparr>));
            free_str b }) s2)"
      using ws o1 by (simp add: send_ws_json_def run_read_str Let_def frame_fits split: prod.split option.split)
    show ?thesis
    proof (cases "bool_of (ext s) (trace ?s1) (Mem (Malloc ?n))")
      case False
      with run o1 ws show ?thesis
        by (simp add: run_malloc_buf) (simp add: owned_def pending_def heap_wf_def)
    next
      case True
      obtain b s2 where m: "run_state ?m ?s1 = (Some b, s2)"
        and t2: "trace s2 = trace ?s1 @ [Mem (Malloc ?n)]"
        using True by (simp add: run_malloc_buf)
      have r: "result ?m ?s1 = Some b" "exec ?m ?s1 = s2" by (simp_all only: m fst_conv snd_conv)
      from owned_malloc [OF o1(1), of ?n "frame_text ev d", unfolded r option.case]
      have o2: "b \<notin> B" "owned (insert b B) s2" "heap s2 b = Some (frame_text ev d)" by blast+
      let ?k = "Httpd (WsSendAsync h sock (frame_text ev d))"
      let ?s3 = "s2\<lparr>trace := trace s2 @ [?k]\<rparr>"
      have o3: "owned (insert b B) ?s3" using o2(2) by (simp add: owned_absorb_call)
      have "owned B (exec (free_str b) ?s3)"
        "owned B (exec (free_str b) (?s3\<lparr>s_active_socket := - 1\<rparr>))"
        using o3 o2(1) by (auto intro!: owned_free)
      moreover have "trace (exec (free_str b) x) = trace x @ [Mem (Free b)]" for x :: "'a ws_dispatcher_scheme"
        by (simp add: run_free_str)
      ultimately show ?thesis
        using True ws t2 by (simp add: run m owned_read [OF o2(2,3)])
    qed
  qed
qed

lemma task_send_effect:
  assumes "owned B s" "heap s p = Some d"
  shows "owned B (exec (ws_task_send ev p) s)"
    "\<exists>fs. sent_frames (trace (exec (ws_task_send ev p) s)) = sent_frames (trace s) @ fs \<and>
       (fs = [] \<or> (\<exists>h. s_server_handle s = Some h \<and> s_active_socket s \<noteq> - 1 \<and>
                   fs = [(h, s_active_socket s, frame_text ev d)]))"
  using assms(1) send_ws_json_effect [OF assms]
  by (auto simp: ws_task_send_def split: option.split if_splits)

section \<open>Ownership\<close>

lemma task_round_consume:
  "ws_task_round = wsq.consume ws_task_send"
  by (simp add: ws_task_round_def wsq.consume_def)

lemma task_round_owned: "owned B s \<Longrightarrow> owned B (exec ws_task_round s)"
  unfolding task_round_consume
proof (rule wsq.consume_valid)
  fix ev p and s :: "'a ws_dispatcher_scheme"
  assume "owned (insert p B) s" "p \<notin> B" "heap s p \<noteq> None"
  then show "owned (insert p B) (exec (ws_task_send ev p) s)"
    using task_send_effect(1) by blast
qed

lemma client_owned:
  "owned B s \<Longrightarrow> owned B (exec (ws_dispatcher_add_client h sock) s)"
  "owned B s \<Longrightarrow> owned B (exec (ws_dispatcher_remove_client sock) s)"
  by (auto simp: ws_dispatcher_add_client_def ws_dispatcher_remove_client_def owned_def pending_def
      heap_wf_def)

text \<open>What one round puts on the wire: at most the message at the head of the queue.\<close>

lemma receive_fields:
  fixes s :: "'x ws_dispatcher_scheme"
  shows "s_server_handle (exec ws_queue_receive s) = s_server_handle s"
    "s_active_socket (exec ws_queue_receive s) = s_active_socket s"
    "sent_frames (trace (exec ws_queue_receive s)) = sent_frames (trace s)"
  by (simp_all add: ws_queue_receive_def run_ask case_prod_beta)

lemma round_sends:
  assumes "owned B s"
  shows "\<exists>fs. sent_frames (trace (exec ws_task_round s)) = sent_frames (trace s) @ fs \<and>
    (fs = [] \<or> (\<exists>ev p d h rest. pending s = (ev, p) # rest \<and> heap s p = Some d \<and>
       s_server_handle s = Some h \<and> s_active_socket s \<noteq> - 1 \<and> fs = [(h, s_active_socket s, frame_text ev d)]))"
proof (cases "result ws_queue_receive s")
  case None
  then show ?thesis by (simp add: ws_task_round_def case_prod_beta receive_fields)
next
  case (Some m)
  obtain ev p where m: "m = (ev, p)" by (cases m)
  let ?s1 = "exec ws_queue_receive s"
  from receive_cases [OF assms] Some m obtain d where
    r: "pending s = (ev, p) # pending ?s1" "owned (insert p B) ?s1" "heap ?s1 p = Some d" "heap s p = Some d"
    by auto
  obtain fs where fs: "sent_frames (trace (exec (ws_task_send ev p) ?s1)) = sent_frames (trace ?s1) @ fs"
    "fs = [] \<or> (\<exists>h. s_server_handle ?s1 = Some h \<and> s_active_socket ?s1 \<noteq> - 1 \<and>
        fs = [(h, s_active_socket ?s1, frame_text ev d)])"
    using task_send_effect(2) [OF r(2,3)] by blast
  have "sent_frames (trace (exec ws_task_round s)) = sent_frames (trace s) @ fs"
    using Some m fs(1) by (simp add: ws_task_round_def case_prod_beta run_free_str receive_fields)
  with fs(2) r(1,4) show ?thesis by (auto simp: receive_fields)
qed

section \<open>What the operations keep\<close>

lemma dispatcher_keeps:
  assumes "\<And>c. absorbs P (Queue c)" "\<And>c. absorbs P (Mem c)" "\<And>c. absorbs P (Httpd c)"
    and "ignores heap_update P" "ignores next_ptr_update P" "ignores mem_fault_update P"
    and "ignores s_ws_queue_update P" "ignores s_active_socket_update P" "ignores s_server_handle_update P"
  shows "keeps P ws_task_round" "keeps P (ws_dispatcher_add_client h sock)"
    "keeps P (ws_dispatcher_remove_client sock)"
proof -
  have mem: "keeps P (read_str p)" "keeps P (free_str p)" "keeps P (malloc_buf n v)" for p n v
    unfolding read_str_def free_str_def malloc_buf_def
    using assms by (auto intro!: keeps_intro simp: ignoresD split: option.split)
  show "keeps P ws_task_round" "keeps P (ws_dispatcher_add_client h sock)"
    "keeps P (ws_dispatcher_remove_client sock)"
    unfolding ws_task_round_def ws_task_send_def send_ws_json_def ws_dispatcher_add_client_def
      ws_dispatcher_remove_client_def Let_def
    using assms queue_keeps [OF assms(1,2,4-7)]
    by (auto intro!: keeps_intro mem simp: ignoresD split: option.split)
qed

end
