(* ===== verification/Main_Callbacks.thy ===== *)
theory Main_Callbacks
  imports Machine
begin

text \<open>
  The callbacks of \<open>main/main.c\<close> that the server, the command router and the
  Ethernet wait call: indicators, buzzer and screen for each event. A null string
  is \<open>None\<close>.
\<close>

definition on_server_running :: "('x ui_scheme, unit) op" where
  "on_server_running = do {
     sys_ind_set_error False;
     ui_restore_screen
   }"

definition on_server_stop :: "('x ui_scheme, unit) op" where
  "on_server_stop = do {
     sys_ind_set_error True;
     sys_ind_fixed_buzzer_sound 2;
     ui_show_error ''Net: link DOWN''
   }"

definition on_server_error :: "esp_err_t \<Rightarrow> ('x ui_scheme, unit) op" where
  "on_server_error err = do {
     sys_ind_set_error True;
     sys_ind_fixed_buzzer_sound 2;
     ui_show_error ''Server fail''
   }"

definition on_command_action :: "string option \<Rightarrow> ('x ui_scheme, unit) op" where
  "on_command_action friendly_name = do {
     sys_ind_led_io_cmd_execution;
     (case friendly_name of
        Some n \<Rightarrow> ui_show_fixed_temp_cmd_message n
      | None \<Rightarrow> ret ())
   }"

definition on_command_error :: "string option \<Rightarrow> esp_err_t \<Rightarrow> ('x ui_scheme, unit) op" where
  "on_command_error friendly_name err = do {
     sys_ind_led_io_error_execution;
     sys_ind_fixed_buzzer_sound 2;
     ui_show_temp_error friendly_name err 4000
   }"

definition on_eth_boot_wait :: "bool \<Rightarrow> ('x ui_scheme, unit) op" where
  "on_eth_boot_wait linked =
     (if \<not> linked then do {
        ui_show_error ''No eth cable!'';
        sys_ind_set_error True;
        sys_ind_fixed_buzzer_sound 2
      }
      else do {
        sys_ind_set_error False;
        ui_restore_screen
      })"

lemmas callback_defs =
  on_server_running_def on_server_stop_def on_server_error_def on_command_action_def
  on_command_error_def on_eth_boot_wait_def

lemma callbacks_keep [keeps_intro]:
  assumes "app_pred P"
  shows "keeps P on_server_running" "keeps P on_server_stop" "keeps P (on_server_error err)"
    "keeps P (on_command_action n)" "keeps P (on_command_error n err)" "keeps P (on_eth_boot_wait b)"
  unfolding callback_defs
  by (auto intro!: keeps_intro app_pred_ui [OF assms] app_pred_ind [OF assms] split: option.split)

end
