(* ===== verification/Uart_Bus.thy ===== *)
theory Uart_Bus
  imports Platform
begin

text \<open>
  \<open>components/uart_bus\<close>: the two serial lines, RS485 on port 2 for the screen and
  RS232 on port 1 for the projector. The buffer a call passes to the driver is the
  byte list it sends; its length is the \<open>len\<close> argument.

  The locale \<open>uart_channel\<close> is the contract of a line; both lines provide it and the
  peripheral commands are clients of it.
\<close>

section \<open>Operations\<close>

abbreviation (input) RS485_UART_PORT :: nat where "RS485_UART_PORT \<equiv> 2"
abbreviation (input) RS485_TX_PIN :: nat where "RS485_TX_PIN \<equiv> 17"
abbreviation (input) RS485_RX_PIN :: nat where "RS485_RX_PIN \<equiv> 16"
abbreviation (input) RS485_BAUD_RATE :: nat where "RS485_BAUD_RATE \<equiv> 2400"
abbreviation (input) RS485_BUF_SIZE :: nat where "RS485_BUF_SIZE \<equiv> 2048"
abbreviation (input) RS232_UART_PORT :: nat where "RS232_UART_PORT \<equiv> 1"
abbreviation (input) RS232_TX_PIN :: nat where "RS232_TX_PIN \<equiv> 21"
abbreviation (input) RS232_RX_PIN :: nat where "RS232_RX_PIN \<equiv> 22"
abbreviation (input) RS232_BAUD_RATE :: nat where "RS232_BAUD_RATE \<equiv> 19200"
abbreviation (input) RS232_BUF_SIZE :: nat where "RS232_BUF_SIZE \<equiv> 1024"

definition uart_bus_rs485_init :: "('x platform_scheme, esp_err_t) op" where
  "uart_bus_rs485_init = do {
     err \<leftarrow> call_err (Uart (UartParamConfig RS485_UART_PORT RS485_BAUD_RATE));
     if err \<noteq> ESP_OK then ret err
     else do {
       err \<leftarrow> call_err (Uart (UartSetPin RS485_UART_PORT RS485_TX_PIN RS485_RX_PIN));
       if err \<noteq> ESP_OK then ret err
       else do {
         err \<leftarrow> call_err (Uart (UartDriverInstall RS485_UART_PORT RS485_BUF_SIZE 0));
         if err \<noteq> ESP_OK then ret err
         else do {
           err \<leftarrow> call_err (Uart (UartSetMode RS485_UART_PORT));
           if err \<noteq> ESP_OK then ret err else ret ESP_OK
         }
       }
     }
   }"

definition uart_bus_rs485_send :: "byte list \<Rightarrow> ('x platform_scheme, esp_err_t) op" where
  "uart_bus_rs485_send data = do {
     bytes_written \<leftarrow> call_int (Uart (UartWrite RS485_UART_PORT data));
     if bytes_written = int (length data) then ret ESP_OK
     else if bytes_written < 0 then ret ESP_ERR_INVALID_STATE
     else ret ESP_ERR_TIMEOUT
   }"

definition uart_bus_rs485_read ::
  "nat \<Rightarrow> nat \<Rightarrow> ('x platform_scheme, esp_err_t \<times> int \<times> byte list) op" where
  "uart_bus_rs485_read len timeout_ms = do {
     (rx_len, buf) \<leftarrow> call_int_bytes (Uart (UartRead RS485_UART_PORT len timeout_ms));
     if rx_len < 0 then ret (ESP_ERR_INVALID_STATE, 0, [])
     else ret (if rx_len > 0 then ESP_OK else ESP_ERR_TIMEOUT, rx_len, take (nat rx_len) buf)
   }"

definition uart_bus_rs232_init :: "('x platform_scheme, esp_err_t) op" where
  "uart_bus_rs232_init = do {
     err \<leftarrow> call_err (Uart (UartParamConfig RS232_UART_PORT RS232_BAUD_RATE));
     if err \<noteq> ESP_OK then ret err
     else do {
       err \<leftarrow> call_err (Uart (UartSetPin RS232_UART_PORT RS232_TX_PIN RS232_RX_PIN));
       if err \<noteq> ESP_OK then ret err
       else do {
         err \<leftarrow> call_err (Uart (UartDriverInstall RS232_UART_PORT RS232_BUF_SIZE 0));
         if err \<noteq> ESP_OK then ret err else ret ESP_OK
       }
     }
   }"

definition uart_bus_rs232_send :: "byte list \<Rightarrow> ('x platform_scheme, esp_err_t) op" where
  "uart_bus_rs232_send data = do {
     bytes_written \<leftarrow> call_int (Uart (UartWrite RS232_UART_PORT data));
     if bytes_written = int (length data) then ret ESP_OK
     else if bytes_written < 0 then ret ESP_ERR_INVALID_STATE
     else ret ESP_ERR_TIMEOUT
   }"

definition uart_bus_rs232_read ::
  "nat \<Rightarrow> nat \<Rightarrow> ('x platform_scheme, esp_err_t \<times> int \<times> byte list) op" where
  "uart_bus_rs232_read len timeout_ms = do {
     (rx_len, buf) \<leftarrow> call_int_bytes (Uart (UartRead RS232_UART_PORT len timeout_ms));
     if rx_len < 0 then ret (ESP_ERR_INVALID_STATE, 0, [])
     else ret (if rx_len > 0 then ESP_OK else ESP_ERR_TIMEOUT, rx_len, take (nat rx_len) buf)
   }"

section \<open>The contract of a line\<close>

text \<open>
  \<open>outcome\<close> is the error code as a function of what the driver reports: success
  means that every byte was accepted.
\<close>

definition uart_outcome :: "nat \<Rightarrow> int \<Rightarrow> esp_err_t" where
  "uart_outcome n written =
     (if written = int n then ESP_OK else if written < 0 then ESP_ERR_INVALID_STATE
      else ESP_ERR_TIMEOUT)"

locale uart_channel =
  fixes send :: "byte list \<Rightarrow> ('x platform_scheme, esp_err_t) op"
    and port :: nat
  assumes run_send: "run_state (send d) s =
      (uart_outcome (length d) (int_of (ext s) (trace s) (Uart (UartWrite port d))),
       s\<lparr>trace := trace s @ [Uart (UartWrite port d)]\<rparr>)"
begin

lemma send_ok_iff:
  "result (send d) s = ESP_OK \<longleftrightarrow>
     int_of (ext s) (trace s) (Uart (UartWrite port d)) = int (length d)"
  by (simp add: run_send uart_outcome_def)

lemma send_result_range:
  "result (send d) s \<in> {ESP_OK, ESP_ERR_INVALID_STATE, ESP_ERR_TIMEOUT}"
  by (simp add: run_send uart_outcome_def)

lemma send_keeps: "(\<And>b. absorbs P (Uart (UartWrite port b))) \<Longrightarrow> keeps P (send d)"
  by (simp add: keeps_def run_send absorbs_def)

text \<open>Two frames in a row reach the driver in that order, whatever the first one's outcome.\<close>

lemma send_send_trace:
  "trace (exec (do { send a; send b }) s) =
     trace s @ [Uart (UartWrite port a), Uart (UartWrite port b)]"
  by (simp add: run_send)

end

interpretation rs485: uart_channel uart_bus_rs485_send RS485_UART_PORT
  by unfold_locales (simp add: uart_bus_rs485_send_def uart_outcome_def)

interpretation rs232: uart_channel uart_bus_rs232_send RS232_UART_PORT
  by unfold_locales (simp add: uart_bus_rs232_send_def uart_outcome_def)

text \<open>Bytes handed to a line, frame by frame.\<close>

fun uart_frame :: "nat \<Rightarrow> call \<Rightarrow> byte list list" where
  "uart_frame p (Uart (UartWrite q d)) = (if p = q then [d] else [])"
| "uart_frame p _ = []"

definition uart_frames :: "nat \<Rightarrow> call list \<Rightarrow> byte list list" where
  "uart_frames p t = concat (map (uart_frame p) t)"

lemma uart_frames_simps [simp]:
  "uart_frames p [] = []"
  "uart_frames p (c # t) = uart_frame p c @ uart_frames p t"
  "uart_frames p (t @ u) = uart_frames p t @ uart_frames p u"
  by (simp_all add: uart_frames_def)

section \<open>Reading\<close>

lemma uart_read_spec:
  assumes "result (uart_bus_rs485_read len tmo) s = (err, n, buf)"
  shows "err = ESP_OK \<longleftrightarrow> 0 < n" "0 \<le> n" "length buf \<le> nat n"
  using assms by (auto simp: uart_bus_rs485_read_def split: if_splits)

end
