(* ===== verification/Peripheral_Control.thy ===== *)
theory Peripheral_Control
  imports Uart_Bus
begin

text \<open>
  \<open>components/peripheral_control\<close>: the fixed frames for the projection screen
  (RS485) and the projector (RS232).
\<close>

section \<open>Frames and operations\<close>

definition CMD_SCREEN_DOWN :: "byte list" where
  "CMD_SCREEN_DOWN =
     [0xFF, 0xEE, 0xEE, 0xEE, 0xEE, 0xFF, 0xEE, 0xEE, 0xEE, 0xEE, 0xFF, 0xEE, 0xEE,
      0xEE, 0xEE, 0x00, 0x0E, 0x00, 0x00, 0x00, 0x28, 0xF4, 0x12, 0x00, 0x00]"

definition CMD_SCREEN_STOP :: "byte list" where
  "CMD_SCREEN_STOP =
     [0xFF, 0xEE, 0xEE, 0xEE, 0xCC, 0xFF, 0xEE, 0xEE, 0xEE, 0xCC, 0xFF, 0xEE, 0xEE,
      0xEE, 0xCC, 0x00, 0x0E, 0x00, 0x00, 0x00, 0x28, 0xF4, 0x12, 0x00, 0x00]"

definition CMD_SCREEN_UP :: "byte list" where
  "CMD_SCREEN_UP =
     [0xFF, 0xEE, 0xEE, 0xEE, 0xDD, 0xFF, 0xEE, 0xEE, 0xEE, 0xDD, 0xFF, 0xEE, 0xEE,
      0xEE, 0xDD, 0x00, 0x0E, 0x00, 0x00, 0x00, 0x28, 0xF4, 0x12, 0x00, 0x00]"

definition CMD_PROJECTOR_ON :: "byte list" where
  "CMD_PROJECTOR_ON = [0x7E, 0x30, 0x30, 0x30, 0x30, 0x20, 0x31, 0x0D]"

definition CMD_PROJECTOR_OFF :: "byte list" where
  "CMD_PROJECTOR_OFF = [0x7E, 0x30, 0x30, 0x30, 0x30, 0x20, 0x30, 0x0D]"

definition CMD_AV_MUTE_ON :: "byte list" where
  "CMD_AV_MUTE_ON = [0x7E, 0x30, 0x30, 0x30, 0x34, 0x20, 0x31, 0x0D]"

definition CMD_AV_MUTE_OFF :: "byte list" where
  "CMD_AV_MUTE_OFF = [0x7E, 0x30, 0x30, 0x30, 0x34, 0x20, 0x30, 0x0D]"

definition peripheral_control_screen_down :: "('x platform_scheme, esp_err_t) op" where
  "peripheral_control_screen_down = uart_bus_rs485_send CMD_SCREEN_DOWN"

definition peripheral_control_screen_stop :: "('x platform_scheme, esp_err_t) op" where
  "peripheral_control_screen_stop = uart_bus_rs485_send CMD_SCREEN_STOP"

definition peripheral_control_screen_up :: "('x platform_scheme, esp_err_t) op" where
  "peripheral_control_screen_up = uart_bus_rs485_send CMD_SCREEN_UP"

definition peripheral_control_projector_on :: "('x platform_scheme, esp_err_t) op" where
  "peripheral_control_projector_on = uart_bus_rs232_send CMD_PROJECTOR_ON"

definition peripheral_control_projector_off :: "('x platform_scheme, esp_err_t) op" where
  "peripheral_control_projector_off = uart_bus_rs232_send CMD_PROJECTOR_OFF"

definition peripheral_control_av_mute_on :: "('x platform_scheme, esp_err_t) op" where
  "peripheral_control_av_mute_on = uart_bus_rs232_send CMD_AV_MUTE_ON"

definition peripheral_control_av_mute_off :: "('x platform_scheme, esp_err_t) op" where
  "peripheral_control_av_mute_off = uart_bus_rs232_send CMD_AV_MUTE_OFF"

lemmas peripheral_defs =
  peripheral_control_screen_down_def peripheral_control_screen_stop_def
  peripheral_control_screen_up_def peripheral_control_projector_on_def
  peripheral_control_projector_off_def peripheral_control_av_mute_on_def
  peripheral_control_av_mute_off_def

lemmas frame_defs =
  CMD_SCREEN_DOWN_def CMD_SCREEN_STOP_def CMD_SCREEN_UP_def CMD_PROJECTOR_ON_def
  CMD_PROJECTOR_OFF_def CMD_AV_MUTE_ON_def CMD_AV_MUTE_OFF_def

lemmas run_peripheral =
  peripheral_defs rs485.run_send rs232.run_send

section \<open>The frames\<close>

text \<open>
  A screen frame is the five-byte command word three times, then the device's
  address block; a projector frame is the ASCII text of the Optoma protocol.
\<close>

definition screen_frame :: "byte \<Rightarrow> byte list" where
  "screen_frame c = concat (replicate 3 [0xFF, 0xEE, 0xEE, 0xEE, c]) @
     [0x00, 0x0E, 0x00, 0x00, 0x00, 0x28, 0xF4, 0x12, 0x00, 0x00]"

definition optoma_frame :: "string \<Rightarrow> string \<Rightarrow> byte list" where
  "optoma_frame func arg = bytes_of_string (''~00'' @ func @ '' '' @ arg @ [CHR 0x0D])"

lemma screen_frames:
  "CMD_SCREEN_DOWN = screen_frame 0xEE" "CMD_SCREEN_STOP = screen_frame 0xCC"
  "CMD_SCREEN_UP = screen_frame 0xDD"
  by (simp_all add: frame_defs screen_frame_def numeral_3_eq_3)

lemma projector_frames:
  "CMD_PROJECTOR_ON = optoma_frame ''00'' ''1''" "CMD_PROJECTOR_OFF = optoma_frame ''00'' ''0''"
  "CMD_AV_MUTE_ON = optoma_frame ''04'' ''1''" "CMD_AV_MUTE_OFF = optoma_frame ''04'' ''0''"
  by (simp_all add: frame_defs optoma_frame_def bytes_of_string_def)

lemma peripheral_keeps [keeps_intro]:
  assumes "\<And>p b. absorbs P (Uart (UartWrite p b))"
  shows "keeps P peripheral_control_screen_down" "keeps P peripheral_control_screen_stop"
    "keeps P peripheral_control_screen_up" "keeps P peripheral_control_projector_on"
    "keeps P peripheral_control_projector_off" "keeps P peripheral_control_av_mute_on"
    "keeps P peripheral_control_av_mute_off"
  unfolding peripheral_defs by (rule rs485.send_keeps rs232.send_keeps, rule assms)+

end
