(* ===== verification/Ws_Cmd_Router.thy ===== *)
theory Ws_Cmd_Router
  imports Ws_Dispatcher Main_Callbacks Peripheral_Control
begin

text \<open>
  \<open>components/ws_cmd_router\<close>: the table of commands a WebSocket client can give, the
  handlers, and the dispatch of a message to its handler with the reply. A handler
  is a function pointer of the table, \<open>cmd_fn\<close>; its result is the error code and
  the value left in \<open>*notify\<close>.
\<close>

section \<open>Handlers\<close>

definition ws_cmd_get_sys_info :: "('x ws_dispatcher_scheme, esp_err_t \<times> bool) op" where
  "ws_cmd_get_sys_info = do {
     total_heap \<leftarrow> call_word (Time TotalHeap);
     version \<leftarrow> call_str (Time (AppDesc ''version''));
     project \<leftarrow> call_str (Time (AppDesc ''project_name''));
     date \<leftarrow> call_str (Time (AppDesc ''date''));
     time \<leftarrow> call_str (Time (AppDesc ''time''));
     e \<leftarrow> gets ext;
     let resp_root = CObject
       [(''version'', CString (Some version)), (''project'', CString (Some project)),
        (''compile_date'', CString (Some date)), (''compile_time'', CString (Some time)),
        (''ram_max'', CNumber (uint total_heap))];
     (case cJSON_PrintUnformatted e resp_root of
        Some json_str \<Rightarrow> do { ws_queue_send WS_EVENT_TYPE_SYS_INFO json_str; ret () }
      | None \<Rightarrow> ret ());
     ret (ESP_OK, False)
   }"

definition ws_cmd_device_paired :: "cjson option \<Rightarrow> ('x ws_dispatcher_scheme, esp_err_t \<times> bool) op" where
  "ws_cmd_device_paired payload = do {
     e \<leftarrow> gets ext;
     let device_id = cJSON_GetObjectItem e payload ''device_id'';
     whenM (cJSON_IsString device_id \<and> valuestring device_id \<noteq> None) (do {
       sys_ind_led_io_execution 3;
       sys_ind_buzzer_sound 3 100;
       ui_show_split_temp_message (Some ''Device paired:'') (valuestring device_id) 4000
     });
     ret (ESP_OK, False)
   }"

definition ws_cmd_start_projection :: "('x ws_dispatcher_scheme, esp_err_t \<times> bool) op" where
  "ws_cmd_start_projection = do {
     res \<leftarrow> peripheral_control_screen_down;
     res \<leftarrow> peripheral_control_projector_on;
     ret (res, True)
   }"

definition ws_cmd_end_projection :: "('x ws_dispatcher_scheme, esp_err_t \<times> bool) op" where
  "ws_cmd_end_projection = do {
     res \<leftarrow> peripheral_control_screen_up;
     res \<leftarrow> peripheral_control_projector_off;
     ret (res, True)
   }"

definition ws_cmd_screen_down :: "('x ws_dispatcher_scheme, esp_err_t \<times> bool) op" where
  "ws_cmd_screen_down = do { res \<leftarrow> peripheral_control_screen_down; ret (res, True) }"

definition ws_cmd_screen_stop :: "('x ws_dispatcher_scheme, esp_err_t \<times> bool) op" where
  "ws_cmd_screen_stop = do { res \<leftarrow> peripheral_control_screen_stop; ret (res, True) }"

definition ws_cmd_screen_up :: "('x ws_dispatcher_scheme, esp_err_t \<times> bool) op" where
  "ws_cmd_screen_up = do { res \<leftarrow> peripheral_control_screen_up; ret (res, True) }"

definition ws_cmd_projector_on :: "('x ws_dispatcher_scheme, esp_err_t \<times> bool) op" where
  "ws_cmd_projector_on = do { res \<leftarrow> peripheral_control_projector_on; ret (res, True) }"

definition ws_cmd_projector_off :: "('x ws_dispatcher_scheme, esp_err_t \<times> bool) op" where
  "ws_cmd_projector_off = do { res \<leftarrow> peripheral_control_projector_off; ret (res, True) }"

definition ws_cmd_av_mute_on :: "('x ws_dispatcher_scheme, esp_err_t \<times> bool) op" where
  "ws_cmd_av_mute_on = do { res \<leftarrow> peripheral_control_av_mute_on; ret (res, True) }"

definition ws_cmd_av_mute_off :: "('x ws_dispatcher_scheme, esp_err_t \<times> bool) op" where
  "ws_cmd_av_mute_off = do { res \<leftarrow> peripheral_control_av_mute_off; ret (res, True) }"

section \<open>The table\<close>

datatype cmd_fn =
    FnGetSysInfo | FnDevicePaired | FnStartProjection | FnEndProjection | FnScreenDown
  | FnScreenStop | FnScreenUp | FnProjectorOn | FnProjectorOff | FnAvMuteOn | FnAvMuteOff

fun run_cmd :: "cmd_fn \<Rightarrow> cjson option \<Rightarrow> ('x ws_dispatcher_scheme, esp_err_t \<times> bool) op" where
  "run_cmd FnGetSysInfo v = ws_cmd_get_sys_info"
| "run_cmd FnDevicePaired v = ws_cmd_device_paired v"
| "run_cmd FnStartProjection v = ws_cmd_start_projection"
| "run_cmd FnEndProjection v = ws_cmd_end_projection"
| "run_cmd FnScreenDown v = ws_cmd_screen_down"
| "run_cmd FnScreenStop v = ws_cmd_screen_stop"
| "run_cmd FnScreenUp v = ws_cmd_screen_up"
| "run_cmd FnProjectorOn v = ws_cmd_projector_on"
| "run_cmd FnProjectorOff v = ws_cmd_projector_off"
| "run_cmd FnAvMuteOn v = ws_cmd_av_mute_on"
| "run_cmd FnAvMuteOff v = ws_cmd_av_mute_off"

record cmd_entry =
  cmd_key :: string
  cmd_friendly_name :: string
  cmd_cb :: cmd_fn

text \<open>The two callbacks, which \<open>main.c\<close> sets; \<open>False\<close> is a null pointer.\<close>

record ws_cmd_router = ws_dispatcher +
  s_commands :: "cmd_entry list"
  s_on_executed_cb :: bool
  s_on_error_cb :: bool

abbreviation (input) MAX_COMMANDS :: nat where "MAX_COMMANDS \<equiv> 11"

definition ws_cmd_register :: "string \<Rightarrow> string \<Rightarrow> cmd_fn \<Rightarrow> ('x ws_cmd_router_scheme, bool) op" where
  "ws_cmd_register key friendly_name callback = do {
     n \<leftarrow> gets (\<lambda>s. length (s_commands s));
     if n \<ge> MAX_COMMANDS then ret False
     else do {
       modify (\<lambda>s. s\<lparr>s_commands := s_commands s @
         [\<lparr>cmd_key = key, cmd_friendly_name = friendly_name, cmd_cb = callback\<rparr>]\<rparr>);
       ret True
     }
   }"

definition ws_cmd_table :: "(string \<times> string \<times> cmd_fn) list" where
  "ws_cmd_table =
     [(''cmd_get_sys_info'', ''GET SYS INFO'', FnGetSysInfo),
      (''cmd_device_paired'', ''DEVICE PAIRED'', FnDevicePaired),
      (''cmd_start_projection'', ''START PROJECTION'', FnStartProjection),
      (''cmd_end_projection'', ''END PROJECTION'', FnEndProjection),
      (''cmd_screen_down'', ''SCREEN DOWN'', FnScreenDown),
      (''cmd_screen_stop'', ''SCREEN STOP'', FnScreenStop),
      (''cmd_screen_up'', ''SCREEN UP'', FnScreenUp),
      (''cmd_projector_on'', ''PROJECTOR ON'', FnProjectorOn),
      (''cmd_projector_off'', ''PROJECTOR OFF'', FnProjectorOff),
      (''cmd_av_mute_on'', ''AV MUTE ON'', FnAvMuteOn),
      (''cmd_av_mute_off'', ''AV MUTE OFF'', FnAvMuteOff)]"

definition ws_cmd_router_init :: "bool \<Rightarrow> bool \<Rightarrow> ('x ws_cmd_router_scheme, esp_err_t) op" where
  "ws_cmd_router_init on_executed_cb on_error_cb = do {
     modify (\<lambda>s. s\<lparr>s_on_executed_cb := on_executed_cb, s_on_error_cb := on_error_cb\<rparr>);
     for_each ws_cmd_table (\<lambda>(k, n, f). do { ws_cmd_register k n f; ret () });
     ret ESP_OK
   }"

section \<open>Dispatch\<close>

definition cmd_response :: "ext_env \<Rightarrow> string \<Rightarrow> esp_err_t \<Rightarrow> cjson" where
  "cmd_response e key res =
     CObject ((''cmd'', CString (Some key)) #
       (if res \<noteq> ESP_OK
        then (''error_code'', CNumber res) # cJSON_AddString ''error_name'' (esp_err_to_name e res)
        else [(''error_code'', CNull), (''error_name'', CNull)]))"

definition ws_cmd_notify :: "cmd_entry \<Rightarrow> esp_err_t \<Rightarrow> ('x ws_cmd_router_scheme, unit) op" where
  "ws_cmd_notify c res = do {
     e \<leftarrow> gets ext;
     (case cJSON_PrintUnformatted e (cmd_response e (cmd_key c) res) of
        Some resp_str \<Rightarrow> do { ws_queue_send WS_EVENT_TYPE_CMD_INVOCATION resp_str; ret () }
      | None \<Rightarrow> ret ());
     on_error \<leftarrow> gets s_on_error_cb;
     on_exec \<leftarrow> gets s_on_executed_cb;
     if on_error \<and> res \<noteq> ESP_OK then on_command_error (Some (cmd_friendly_name c)) res
     else if on_exec \<and> res = ESP_OK then on_command_action (Some (cmd_friendly_name c))
     else ret ()
   }"

text \<open>
  \<open>payload\<close> is the terminated buffer. A string node without text would be read
  through a null pointer.
\<close>

definition ws_cmd_handle :: "string \<Rightarrow> ('x ws_cmd_router_scheme, unit) op" where
  "ws_cmd_handle payload = do {
     e \<leftarrow> gets ext;
     (case cJSON_Parse e (c_string payload) of
        None \<Rightarrow> ret ()
      | Some json_root \<Rightarrow> do {
          let action_item = cJSON_GetObjectItem e (Some json_root) ''action'';
          let val_item = cJSON_GetObjectItem e (Some json_root) ''value'';
          if \<not> cJSON_IsString action_item then ret ()
          else (case valuestring action_item of
              None \<Rightarrow> modify (\<lambda>s. s\<lparr>mem_fault := True\<rparr>)
            | Some action \<Rightarrow> do {
                cmds \<leftarrow> gets s_commands;
                (case find (\<lambda>c. cmd_key c = action) cmds of
                   None \<Rightarrow> ret ()
                 | Some c \<Rightarrow> do {
                     (res, notify) \<leftarrow> run_cmd (cmd_cb c) val_item;
                     whenM notify (ws_cmd_notify c res)
                   })
              })
        })
   }"

lemmas cmd_defs =
  ws_cmd_get_sys_info_def ws_cmd_device_paired_def ws_cmd_start_projection_def
  ws_cmd_end_projection_def ws_cmd_screen_down_def ws_cmd_screen_stop_def ws_cmd_screen_up_def
  ws_cmd_projector_on_def ws_cmd_projector_off_def ws_cmd_av_mute_on_def ws_cmd_av_mute_off_def

section \<open>The registered table\<close>

lemma router_init_table:
  assumes "s_commands s = []"
  shows "map (\<lambda>c. (cmd_key c, cmd_friendly_name c, cmd_cb c))
      (s_commands (exec (ws_cmd_router_init a b) s)) = ws_cmd_table"
    "length (s_commands (exec (ws_cmd_router_init a b) s)) = MAX_COMMANDS"
  using assms
  by (simp_all add: ws_cmd_router_init_def ws_cmd_table_def ws_cmd_register_def)

lemma table_keys_distinct: "distinct (map fst ws_cmd_table)"
  by (simp add: ws_cmd_table_def)

definition router_ready :: "'x ws_cmd_router_scheme \<Rightarrow> bool" where
  "router_ready s \<longleftrightarrow>
     map (\<lambda>c. (cmd_key c, cmd_friendly_name c, cmd_cb c)) (s_commands s) = ws_cmd_table \<and>
     s_on_executed_cb s \<and> s_on_error_cb s"

lemma find_entry:
  "find (\<lambda>c. cmd_key c = a) cs =
     map_option (\<lambda>(k, n, f). \<lparr>cmd_key = k, cmd_friendly_name = n, cmd_cb = f\<rparr>)
       (find (\<lambda>(k, n, f). k = a) (map (\<lambda>c. (cmd_key c, cmd_friendly_name c, cmd_cb c)) cs))"
  for cs :: "cmd_entry list"
  by (induction cs) auto

lemma find_distinct:
  assumes "distinct (map fst xs)" "(a, n, f) \<in> set xs"
  shows "find (\<lambda>(k, n, f). k = a) xs = Some (a, n, f)"
  using assms by (induction xs) (auto simp: image_iff)

lemma find_registered:
  assumes "router_ready s" "(a, n, f) \<in> set ws_cmd_table"
  shows "find (\<lambda>c. cmd_key c = a) (s_commands s) =
     Some \<lparr>cmd_key = a, cmd_friendly_name = n, cmd_cb = f\<rparr>"
proof -
  have "find (\<lambda>(k, n, f). k = a) ws_cmd_table = Some (a, n, f)"
    by (rule find_distinct [OF table_keys_distinct assms(2)])
  then show ?thesis using assms(1) by (simp add: find_entry router_ready_def)
qed

lemma find_unregistered:
  assumes "router_ready s" "a \<notin> fst ` set ws_cmd_table"
  shows "find (\<lambda>c. cmd_key c = a) (s_commands s) = None"
proof -
  have "find (\<lambda>(k, n, f). k = a) ws_cmd_table = None"
    using assms(2) by (auto simp: find_None_iff image_iff)
  then show ?thesis using assms(1) by (simp add: find_entry router_ready_def)
qed

section \<open>Messages\<close>

text \<open>What a message asks for, as the parser reports it.\<close>

definition message_action :: "ext_env \<Rightarrow> string \<Rightarrow> string option" where
  "message_action e payload =
     (case cJSON_Parse e (c_string payload) of
        None \<Rightarrow> None
      | Some json_root \<Rightarrow>
          (let item = cJSON_GetObjectItem e (Some json_root) ''action''
           in if cJSON_IsString item then valuestring item else None))"

definition message_value :: "ext_env \<Rightarrow> string \<Rightarrow> cjson option" where
  "message_value e payload =
     Option.bind (cJSON_Parse e (c_string payload)) (\<lambda>json_root. cJSON_GetObjectItem e (Some json_root) ''value'')"

text \<open>cJSON documents that a parsed string node carries its text.\<close>

definition parsed_strings_ok :: "ext_env \<Rightarrow> bool" where
  "parsed_strings_ok e \<longleftrightarrow>
     (\<forall>txtin json_root k. cJSON_Parse e txtin = Some json_root \<longrightarrow>
        cJSON_GetObjectItem e (Some json_root) k \<noteq> Some (CString None))"

lemma run_handle_registered:
  assumes "message_action (ext s) payload = Some a" "router_ready s" "(a, n, f) \<in> set ws_cmd_table"
  shows "exec (ws_cmd_handle payload) s =
    (case run_state (run_cmd f (message_value (ext s) payload)) s of
       ((res, notify), s1) \<Rightarrow>
         if notify then exec (ws_cmd_notify \<lparr>cmd_key = a, cmd_friendly_name = n, cmd_cb = f\<rparr> res) s1
         else s1)"
  using assms find_registered [OF assms(2,3)]
  by (auto simp: ws_cmd_handle_def message_action_def message_value_def Let_def case_prod_beta
      split: option.splits if_splits)

lemma run_handle_ignored:
  assumes "parsed_strings_ok (ext s)" "router_ready s"
    and "\<forall>a. message_action (ext s) payload = Some a \<longrightarrow> a \<notin> fst ` set ws_cmd_table"
  shows "exec (ws_cmd_handle payload) s = s"
proof (cases "cJSON_Parse (ext s) (c_string payload)")
  case None
  then show ?thesis by (simp add: ws_cmd_handle_def)
next
  case (Some json_root)
  define item where "item = cJSON_GetObjectItem (ext s) (Some json_root) ''action''"
  have ne: "item \<noteq> Some (CString None)"
    using assms(1) Some by (auto simp: parsed_strings_ok_def item_def)
  show ?thesis
  proof (cases "cJSON_IsString item")
    case False
    with Some show ?thesis by (simp add: ws_cmd_handle_def item_def Let_def)
  next
    case True
    with ne obtain a where a: "item = Some (CString (Some a))"
      by (cases item rule: cJSON_IsString.cases) auto
    then have "message_action (ext s) payload = Some a"
      using Some by (simp add: message_action_def item_def)
    then have "find (\<lambda>c. cmd_key c = a) (s_commands s) = None"
      using assms(2,3) by (intro find_unregistered) auto
    then show ?thesis using Some a by (simp add: ws_cmd_handle_def item_def Let_def)
  qed
qed

section \<open>What the operations keep\<close>

lemma cmd_keeps:
  assumes "app_pred P" "\<And>c. absorbs P (Time c)" "\<And>c. absorbs P (Uart c)"
    and "\<And>ev d. keeps P (ws_queue_send ev d)"
  shows "keeps P (run_cmd f v)"
proof -
  note [intro!] = app_pred_ui [OF assms(1)] app_pred_ind [OF assms(1)] peripheral_keeps [OF assms(3)]
    assms(2,4)
  show ?thesis
    unfolding cmd_defs Let_def
    by (cases f) (auto simp: cmd_defs Let_def intro!: keeps_intro split: option.split)
qed

lemma notify_keeps:
  assumes "app_pred P" "\<And>ev d. keeps P (ws_queue_send ev d)"
  shows "keeps P (ws_cmd_notify c r)"
  unfolding ws_cmd_notify_def using assms(2)
  by (auto intro!: keeps_intro callbacks_keep [OF assms(1)] split: option.split)

lemma handle_keeps:
  assumes "app_pred P" "\<And>c. absorbs P (Time c)" "\<And>c. absorbs P (Uart c)"
    and "\<And>ev d. keeps P (ws_queue_send ev d)" "ignores mem_fault_update P"
  shows "keeps P (ws_cmd_handle payload)"
  unfolding ws_cmd_handle_def Let_def
  using cmd_keeps [OF assms(1-4)] notify_keeps [OF assms(1,4)] assms(5)
  by (auto intro!: keeps_intro simp: ignoresD split: option.split)

section \<open>Serial frames of a command\<close>

fun cmd_frames :: "cmd_fn \<Rightarrow> (nat \<times> byte list) list" where
  "cmd_frames FnGetSysInfo = []"
| "cmd_frames FnDevicePaired = []"
| "cmd_frames FnStartProjection = [(2, screen_frame 0xEE), (1, optoma_frame ''00'' ''1'')]"
| "cmd_frames FnEndProjection = [(2, screen_frame 0xDD), (1, optoma_frame ''00'' ''0'')]"
| "cmd_frames FnScreenDown = [(2, screen_frame 0xEE)]"
| "cmd_frames FnScreenStop = [(2, screen_frame 0xCC)]"
| "cmd_frames FnScreenUp = [(2, screen_frame 0xDD)]"
| "cmd_frames FnProjectorOn = [(1, optoma_frame ''00'' ''1'')]"
| "cmd_frames FnProjectorOff = [(1, optoma_frame ''00'' ''0'')]"
| "cmd_frames FnAvMuteOn = [(1, optoma_frame ''04'' ''1'')]"
| "cmd_frames FnAvMuteOff = [(1, optoma_frame ''04'' ''0'')]"

fun uart_write :: "call \<Rightarrow> (nat \<times> byte list) list" where
  "uart_write (Uart (UartWrite p d)) = [(p, d)]"
| "uart_write _ = []"

definition uart_writes :: "call list \<Rightarrow> (nat \<times> byte list) list" where
  "uart_writes t = concat (map uart_write t)"

lemma uart_writes_simps [simp]:
  "uart_writes [] = []" "uart_writes (c # t) = uart_write c @ uart_writes t"
  "uart_writes (t @ u) = uart_writes t @ uart_writes u"
  by (simp_all add: uart_writes_def)

definition wrote :: "(nat \<times> byte list) list \<Rightarrow> 'x ws_dispatcher_scheme \<Rightarrow> bool" where
  "wrote w s \<longleftrightarrow> uart_writes (trace s) = w"

lemma app_pred_wrote: "app_pred (wrote w)"
proof (rule app_pred_frame)
  have "low_call c \<Longrightarrow> uart_write c = []" for c by (cases c) simp_all
  then show "absorbs_on low_call (wrote w)"
    by (simp add: absorbs_on_def absorbs_def wrote_def)
qed (simp_all add: ignores_def ui_fields_free_def ind_fields_free_def wrote_def)

lemma send_wrote: "keeps (wrote w) (ws_queue_send ev d)"
  by (rule queue_keeps) (simp_all add: ignores_def absorbs_def wrote_def)

lemma notify_wrote: "keeps (wrote w) (ws_cmd_notify c r)"
  by (rule notify_keeps [OF app_pred_wrote send_wrote])

lemma cmd_writes:
  "uart_writes (trace (exec (run_cmd f v) s)) = uart_writes (trace s) @ cmd_frames f"
proof -
  have paired: "keeps (wrote w) (ws_cmd_device_paired v)" "keeps (wrote w) ws_cmd_get_sys_info" for w
    unfolding cmd_defs Let_def
    by (auto intro!: keeps_intro app_pred_ui [OF app_pred_wrote] app_pred_ind [OF app_pred_wrote]
        send_wrote simp: absorbs_def wrote_def split: option.split)
  show ?thesis
  proof (cases f)
    case FnGetSysInfo
    with keepsD [OF paired(2) [of "uart_writes (trace s)"], of s] show ?thesis by (simp add: wrote_def)
  next
    case FnDevicePaired
    with keepsD [OF paired(1) [of "uart_writes (trace s)"], of s] show ?thesis by (simp add: wrote_def)
  qed (simp_all add: cmd_defs run_peripheral screen_frames projector_frames)
qed

lemma handle_owned:
  assumes "parsed_strings_ok (ext s)" "owned B s"
  shows "owned B (exec (ws_cmd_handle payload) s)"
proof -
  have send: "keeps (owned B) (ws_queue_send ev d)" for ev d
    by (rule keepsI) (rule wsq.send_valid)
  have cmd: "keeps (owned B) (run_cmd f v)" for f v
    by (rule cmd_keeps [OF app_pred_owned _ _ send]) (auto intro: absorbs_owned)
  note notify = notify_keeps [OF app_pred_owned send]
  show ?thesis
  proof (cases "cJSON_Parse (ext s) (c_string payload)")
    case None
    with assms show ?thesis by (simp add: ws_cmd_handle_def)
  next
    case (Some json_root)
    then have "cJSON_GetObjectItem (ext s) (Some json_root) ''action'' \<noteq> Some (CString None)"
      using assms(1) by (auto simp: parsed_strings_ok_def)
    moreover have "owned B (exec (ws_cmd_notify c r) (exec (run_cmd f v) s))" for c r f v
      using keepsD [OF notify keepsD [OF cmd assms(2)]] .
    ultimately show ?thesis
      using Some assms(2) keepsD [OF cmd assms(2)]
      by (cases "cJSON_GetObjectItem (ext s) (Some json_root) ''action''" rule: cJSON_IsString.cases)
        (auto simp: ws_cmd_handle_def Let_def case_prod_beta split: option.split)
  qed
qed

end
