(* ===== verification/Https_Server.thy ===== *)
theory Https_Server
  imports Ws_Cmd_Router
begin

text \<open>
  \<open>components/https_server\<close>: starting and stopping the TLS server with the link,
  registering the endpoints, and the middleware around every plain endpoint
  (authorisation, request context, response). The configuration carries functions
  of the application, which are operations on the whole program's state. An
  endpoint handler may not return, so it is a partial operation.
\<close>

section \<open>Data\<close>

datatype http_method = HTTP_GET | HTTP_POST | HTTP_DELETE | HTTP_OTHER

text \<open>
  \<open>req->user_ctx\<close> is untyped: null, the endpoint description the URI was registered
  with, or a context made by \<open>create_request_ctx\<close>.
\<close>

datatype user_ctx = UcNull | UcEndpoint | UcApi nat

record httpd_req =
  req_handle :: nat
  req_method :: http_method
  req_content_len :: nat
  req_user_ctx :: user_ctx

type_synonym 's handler = "httpd_req \<Rightarrow> ('s, esp_err_t) pop"

record 's https_endpoint =
  ep_uri :: string
  ep_method :: http_method
  ep_handler :: "'s handler option"
  ep_is_public :: bool
  ep_is_ws :: bool
  ep_name :: "string option"

record 's https_config =
  srv_port :: u16
  cacert_path :: string
  prvtkey_path :: string
  endpoints :: "'s https_endpoint list"
  create_request_ctx :: "(httpd_req \<Rightarrow> ('s, nat option) op) option"
  handle_response :: "(httpd_req \<Rightarrow> nat option \<Rightarrow> esp_err_t \<Rightarrow> ('s, esp_err_t) op) option"
  on_running :: "('s, unit) op option"
  on_stop :: "('s, unit) op option"
  on_error :: "(esp_err_t \<Rightarrow> ('s, unit) op) option"
  auth_cb :: "(httpd_req \<Rightarrow> ('s, bool) op) option"
  on_request_success :: "(string option \<Rightarrow> ('s, unit) op) option"
  on_request_error :: "(string option \<Rightarrow> esp_err_t \<Rightarrow> ('s, unit) op) option"

text \<open>
  \<open>server_ctx\<close> is the context block given to the running server, which the server
  frees when it stops.
\<close>

record https_server = ws_cmd_router +
  server :: bool
  cert_buffer :: "nat option"
  key_buffer :: "nat option"
  server_ctx :: "nat option"

section \<open>Requests\<close>

text \<open>\<open>ctx\<close> is what \<open>httpd_get_global_user_ctx\<close> returns: the configuration, or null.\<close>

definition ws_auth_callback :: "'s https_config option \<Rightarrow> httpd_req \<Rightarrow> ('s, esp_err_t) op" where
  "ws_auth_callback ctx req =
     (case Option.bind ctx auth_cb of
        Some auth \<Rightarrow> do { ok \<leftarrow> auth req; ret (if ok then ESP_OK else ESP_FAIL) }
      | None \<Rightarrow> ret ESP_FAIL)"

definition middleware_auth ::
  "'s https_config option \<Rightarrow> 's https_endpoint \<Rightarrow> httpd_req \<Rightarrow> ('s, bool) op" where
  "middleware_auth ctx ep req =
     (if ep_is_public ep then ret True
      else (case Option.bind ctx auth_cb of
          Some auth \<Rightarrow> auth req
        | None \<Rightarrow> ret False))"

definition middleware_ctx :: "'s https_config option \<Rightarrow> httpd_req \<Rightarrow> ('s, nat option) op" where
  "middleware_ctx ctx req =
     (case Option.bind ctx create_request_ctx of
        Some create \<Rightarrow> create req
      | None \<Rightarrow> ret None)"

text \<open>From the handler's return on; a null server context is dereferenced here.\<close>

definition middleware_finish ::
  "('x platform_scheme) https_config option \<Rightarrow> ('x platform_scheme) https_endpoint \<Rightarrow> httpd_req \<Rightarrow>
     nat option \<Rightarrow> esp_err_t \<Rightarrow> ('x platform_scheme, esp_err_t) op" where
  "middleware_finish ctx ep req api_ctx logic_res =
     (case ctx of
        None \<Rightarrow> do { modify (\<lambda>s. s\<lparr>mem_fault := True\<rparr>); ret ESP_OK }
      | Some cfg \<Rightarrow> do {
          final_res \<leftarrow> (case handle_response cfg of
              Some f \<Rightarrow> f req api_ctx logic_res
            | None \<Rightarrow> ret logic_res);
          (case (on_request_error cfg, on_request_success cfg) of
             (err_cb, ok_cb) \<Rightarrow>
               (if final_res \<noteq> ESP_OK \<and> err_cb \<noteq> None then the err_cb (ep_name ep) final_res
                else if final_res = ESP_OK \<and> ok_cb \<noteq> None then the ok_cb (ep_name ep)
                else ret ()));
          ret ESP_OK
        })"

definition http_middleware ::
  "('x platform_scheme) https_config option \<Rightarrow> ('x platform_scheme) https_endpoint option \<Rightarrow>
     ('x platform_scheme) handler" where
  "http_middleware ctx ep req =
     (case (ep, Option.bind ep ep_handler) of
        (Some ep, Some handler) \<Rightarrow>
          then_pop (run_op (middleware_auth ctx ep req)) (\<lambda>authorized.
            if \<not> authorized then run_op (do { call_err (Httpd (RespSendErr 401)); ret ESP_FAIL })
            else
              then_pop (run_op (middleware_ctx ctx req)) (\<lambda>api_ctx.
                then_pop (handler (req\<lparr>req_user_ctx :=
                    (case api_ctx of Some p \<Rightarrow> UcApi p | None \<Rightarrow> req_user_ctx req)\<rparr>)) (\<lambda>logic_res.
                  run_op (middleware_finish ctx ep req api_ctx logic_res))))
      | _ \<Rightarrow> run_op (call_err (Httpd (RespSendErr 500))))"

section \<open>Starting and stopping\<close>

definition free_opt :: "nat option \<Rightarrow> ('x platform_scheme, unit) op" where
  "free_opt p = (case p of Some q \<Rightarrow> free_str q | None \<Rightarrow> ret ())"

text \<open>\<open>httpd_ssl_stop\<close> also frees the server context, as it was told to.\<close>

definition https_server_stop :: "('x https_server_scheme, unit) op" where
  "https_server_stop = do {
     srv \<leftarrow> gets server;
     whenM srv (do {
       call_unit (Httpd SslStop);
       ctx \<leftarrow> gets server_ctx;
       free_opt ctx;
       modify (\<lambda>s. s\<lparr>server := False, server_ctx := None\<rparr>)
     });
     cert \<leftarrow> gets cert_buffer;
     free_opt cert;
     modify (\<lambda>s. s\<lparr>cert_buffer := None\<rparr>);
     key \<leftarrow> gets key_buffer;
     free_opt key;
     modify (\<lambda>s. s\<lparr>key_buffer := None\<rparr>)
   }"

text \<open>\<open>memset\<close> to zero and \<open>free\<close>.\<close>

definition wipe_and_free :: "nat \<Rightarrow> ('x platform_scheme, unit) op" where
  "wipe_and_free p = do {
     modify (\<lambda>s. s\<lparr>heap := (heap s)(p := Some [])\<rparr>);
     free_str p
   }"

definition register_endpoint :: "'s https_endpoint \<Rightarrow> ('x platform_scheme, unit) op" where
  "register_endpoint ep = do {
     call_err (Httpd (RegisterUri (ep_uri ep) (ep_is_ws ep) (ep_is_ws ep \<and> \<not> ep_is_public ep)));
     ret ()
   }"

definition https_server_start ::
  "('x https_server_scheme) https_config option \<Rightarrow> ('x https_server_scheme, esp_err_t) op" where
  "https_server_start cfg = (case cfg of None \<Rightarrow> ret ESP_ERR_INVALID_ARG | Some cfg \<Rightarrow> do {
     cert \<leftarrow> helper_read_file_to_buffer (cacert_path cfg);
     modify (\<lambda>s. s\<lparr>cert_buffer := cert\<rparr>);
     key \<leftarrow> helper_read_file_to_buffer (prvtkey_path cfg);
     modify (\<lambda>s. s\<lparr>key_buffer := key\<rparr>);
     (case (cert, key) of
        (Some c, Some k) \<Rightarrow> do {
          ctx \<leftarrow> malloc_buf 60 [];
          (case ctx of
             None \<Rightarrow> ret ESP_ERR_NO_MEM
           | Some ctx \<Rightarrow> do {
               r \<leftarrow> call_err (Httpd (SslStart (srv_port cfg)));
               if r \<noteq> ESP_OK then do {
                 free_str ctx;
                 https_server_stop;
                 ret r
               }
               else do {
                 modify (\<lambda>s. s\<lparr>server := True, server_ctx := Some ctx\<rparr>);
                 wipe_and_free c;
                 modify (\<lambda>s. s\<lparr>cert_buffer := None\<rparr>);
                 wipe_and_free k;
                 modify (\<lambda>s. s\<lparr>key_buffer := None\<rparr>);
                 for_each (endpoints cfg) register_endpoint;
                 ret ESP_OK
               }
             })
        }
      | _ \<Rightarrow> do { https_server_stop; ret ESP_FAIL })
   })"

definition https_server_connection_handler ::
  "('x https_server_scheme) https_config option \<Rightarrow> net_event \<Rightarrow> ('x https_server_scheme, unit) op" where
  "https_server_connection_handler arg event =
     (case arg of
        None \<Rightarrow> ret ()
      | Some cfg \<Rightarrow>
          if event = IpEthGotIp then do {
            err \<leftarrow> https_server_start (Some cfg);
            if err = ESP_OK then (case on_running cfg of Some cb \<Rightarrow> cb | None \<Rightarrow> ret ())
            else (case on_error cfg of Some cb \<Rightarrow> cb err | None \<Rightarrow> ret ())
          }
          else if event = EthDisconnected then do {
            https_server_stop;
            (case on_stop cfg of Some cb \<Rightarrow> cb | None \<Rightarrow> ret ())
          }
          else ret ())"

definition https_server_service_init ::
  "('x https_server_scheme) https_config option \<Rightarrow> ('x https_server_scheme, esp_err_t) op" where
  "https_server_service_init cfg =
     (case cfg of
        None \<Rightarrow> ret ESP_ERR_INVALID_ARG
      | Some _ \<Rightarrow> do {
          persistent_cfg \<leftarrow> malloc_buf 52 [];
          (case persistent_cfg of
             None \<Rightarrow> ret ESP_ERR_NO_MEM
           | Some p \<Rightarrow> do {
               err \<leftarrow> call_err (Net IpHandlerRegister);
               if err \<noteq> ESP_OK then do { free_str p; ret err }
               else do {
                 err \<leftarrow> call_err (Net EthHandlerRegister);
                 if err \<noteq> ESP_OK then do {
                   call_unit (Net HandlerUnregister);
                   free_str p;
                   ret err
                 }
                 else ret ESP_OK
               }
             })
        })"

section \<open>The middleware\<close>

text \<open>A refused request: the handler, and everything after it, is not run.\<close>

lemma middleware_refused:
  assumes "ep_handler ep = Some h" "\<not> ep_is_public ep"
    and "case Option.bind ctx auth_cb of
           Some auth \<Rightarrow> run_state (auth req) s = (False, s1) | None \<Rightarrow> s1 = s"
  shows "http_middleware ctx (Some ep) req s =
     Some (ESP_FAIL, s1\<lparr>trace := trace s1 @ [Httpd (RespSendErr 401)]\<rparr>)"
  using assms
  by (cases "Option.bind ctx auth_cb") (simp_all add: http_middleware_def middleware_auth_def)

lemma middleware_served:
  assumes "ep_handler ep = Some h" "\<not> ep_is_public ep" "ctx = Some cfg" "auth_cb cfg = Some auth"
    and "run_state (auth req) s = (True, s1)" "create_request_ctx cfg = Some create"
    and "run_state (create req) s1 = (Some p, s2)"
    and "h (req\<lparr>req_user_ctx := UcApi p\<rparr>) s2 = Some (r, s3)"
  shows "http_middleware ctx (Some ep) req s =
     Some (run_state (middleware_finish ctx ep req (Some p) r) s3)"
  using assms
  by (simp add: http_middleware_def middleware_auth_def middleware_ctx_def then_pop_def)

section \<open>Memory over a start and a stop\<close>

text \<open>The server is down and holds nothing.\<close>

definition server_down :: "'x https_server_scheme \<Rightarrow> bool" where
  "server_down s \<longleftrightarrow> \<not> server s \<and> cert_buffer s = None \<and> key_buffer s = None \<and> server_ctx s = None"

lemma heap_free_opt:
  "heap (exec (free_opt p) s) = (case p of Some q \<Rightarrow> (heap s)(q := None) | None \<Rightarrow> heap s)"
  by (auto simp: free_opt_def run_free_str fun_upd_idem split: option.split)

lemma server_fields_free [simp]:
  "server (exec (free_opt p) s) = server s" "cert_buffer (exec (free_opt p) s) = cert_buffer s"
  "key_buffer (exec (free_opt p) s) = key_buffer s" "server_ctx (exec (free_opt p) s) = server_ctx s"
  "mem_fault (exec (free_opt p) s) \<longleftrightarrow> mem_fault s \<or> (\<exists>q. p = Some q \<and> heap s q = None)"
  by (auto simp: free_opt_def run_free_str split: option.split)

text \<open>What stopping releases.\<close>

definition held :: "'x https_server_scheme \<Rightarrow> nat set" where
  "held s = set_option (cert_buffer s) \<union> set_option (key_buffer s) \<union>
     (if server s then set_option (server_ctx s) else {})"

lemma stop_heap:
  "heap (exec https_server_stop s) = (\<lambda>p. if p \<in> held s then None else heap s p)"
  by (auto simp: https_server_stop_def heap_free_opt held_def fun_eq_iff case_prod_beta split: option.split)

lemma stop_server [simp]: "\<not> server (exec https_server_stop s)"
  by (simp add: https_server_stop_def case_prod_beta)

lemma read_file_server [simp]:
  "server (exec (helper_read_file_to_buffer pth) s) = server s"
  "cert_buffer (exec (helper_read_file_to_buffer pth) s) = cert_buffer s"
  "key_buffer (exec (helper_read_file_to_buffer pth) s) = key_buffer s"
  "server_ctx (exec (helper_read_file_to_buffer pth) s) = server_ctx s"
  by (rule keeps_field, rule read_file_keeps; simp add: absorbs_def ignores_def)+

lemma register_frame:
  assumes "\<And>c. absorbs P (Httpd c)"
  shows "keeps P (for_each es register_endpoint)"
  using assms unfolding register_endpoint_def by (auto intro!: keeps_intro)

lemma register_fields [simp]:
  "heap (exec (for_each es register_endpoint) s) = heap s"
  "server (exec (for_each es register_endpoint) s) = server s"
  "cert_buffer (exec (for_each es register_endpoint) s) = cert_buffer s"
  "key_buffer (exec (for_each es register_endpoint) s) = key_buffer s"
  "server_ctx (exec (for_each es register_endpoint) s) = server_ctx s"
  by (rule keeps_field, rule register_frame, simp add: absorbs_def)+

text \<open>The state after the two files have been read into the two static pointers.\<close>

definition after_reads :: "('x https_server_scheme) https_config \<Rightarrow> 'x https_server_scheme \<Rightarrow> 'x https_server_scheme" where
  "after_reads cfg s =
     (let s1 = (exec (helper_read_file_to_buffer (cacert_path cfg)) s)
            \<lparr>cert_buffer := result (helper_read_file_to_buffer (cacert_path cfg)) s\<rparr>
      in (exec (helper_read_file_to_buffer (prvtkey_path cfg)) s1)
            \<lparr>key_buffer := result (helper_read_file_to_buffer (prvtkey_path cfg)) s1\<rparr>)"

lemma two_blocks:
  assumes "h1 = (case c of None \<Rightarrow> h | Some p \<Rightarrow> h(p := Some v))" "\<forall>p\<in>set_option c. h p = None"
    and "h2 = (case k of None \<Rightarrow> h1 | Some p \<Rightarrow> h1(p := Some w))" "\<forall>p\<in>set_option k. h1 p = None"
  shows "(\<lambda>p. if p \<in> set_option c \<union> set_option k then None else h2 p) = h"
    "set_option c \<union> set_option k \<subseteq> dom h2" "\<forall>p\<in>set_option c \<union> set_option k. h p = None"
    "c \<noteq> None \<longrightarrow> c \<noteq> k"
  using assms by (cases c; cases k; auto simp: fun_eq_iff split: if_splits)+

lemma after_reads_facts:
  assumes "server_down s" "heap_wf s" and s2_def: "s2 = after_reads cfg s"
  shows "\<not> server s2" "server_ctx s2 = None" "heap_wf s2"
    "(\<lambda>p. if p \<in> set_option (cert_buffer s2) \<union> set_option (key_buffer s2) then None else heap s2 p) = heap s"
    "set_option (cert_buffer s2) \<union> set_option (key_buffer s2) \<subseteq> dom (heap s2)"
    "\<forall>p\<in>set_option (cert_buffer s2) \<union> set_option (key_buffer s2). heap s p = None"
    "cert_buffer s2 \<noteq> None \<longrightarrow> cert_buffer s2 \<noteq> key_buffer s2"
proof -
  let ?c = "helper_read_file_to_buffer (cacert_path cfg) :: (_, nat option) op"
  let ?k = "helper_read_file_to_buffer (prvtkey_path cfg) :: (_, nat option) op"
  let ?s1 = "(exec ?c s)\<lparr>cert_buffer := result ?c s\<rparr>"
  have wf1: "heap_wf ?s1" using heap_wf_read_file [OF assms(2)] by (simp add: heap_wf_def)
  have s2: "s2 = (exec ?k ?s1)\<lparr>key_buffer := result ?k ?s1\<rparr>"
    by (simp add: s2_def after_reads_def Let_def)
  show "\<not> server s2" "server_ctx s2 = None" using assms(1) by (simp_all add: s2 server_down_def)
  show "heap_wf s2" using heap_wf_read_file [OF wf1] by (simp add: s2 heap_wf_def)
  have c: "cert_buffer s2 = result ?c s" "key_buffer s2 = result ?k ?s1" "heap s2 = heap (exec ?k ?s1)"
    "heap ?s1 = heap (exec ?c s)"
    by (simp_all add: s2)
  have "\<exists>v. heap (exec ?c s) = (case result ?c s of None \<Rightarrow> heap s | Some p \<Rightarrow> (heap s)(p := Some v)) \<and>
      (\<forall>p\<in>set_option (result ?c s). heap s p = None)"
    using read_file_heap [OF assms(2), of "cacert_path cfg"] by (auto split: option.splits)
  moreover have "\<exists>w. heap (exec ?k ?s1) =
        (case result ?k ?s1 of None \<Rightarrow> heap (exec ?c s) | Some p \<Rightarrow> (heap (exec ?c s))(p := Some w)) \<and>
      (\<forall>p\<in>set_option (result ?k ?s1). heap (exec ?c s) p = None)"
    using read_file_heap [OF wf1, of "prvtkey_path cfg"] unfolding c(4) by (auto split: option.splits)
  ultimately obtain v w where
    vw: "heap (exec ?c s) = (case result ?c s of None \<Rightarrow> heap s | Some p \<Rightarrow> (heap s)(p := Some v))"
      "\<forall>p\<in>set_option (result ?c s). heap s p = None"
      "heap (exec ?k ?s1) =
        (case result ?k ?s1 of None \<Rightarrow> heap (exec ?c s) | Some p \<Rightarrow> (heap (exec ?c s))(p := Some w))"
      "\<forall>p\<in>set_option (result ?k ?s1). heap (exec ?c s) p = None"
    by blast
  show "(\<lambda>p. if p \<in> set_option (cert_buffer s2) \<union> set_option (key_buffer s2) then None else heap s2 p) = heap s"
    "set_option (cert_buffer s2) \<union> set_option (key_buffer s2) \<subseteq> dom (heap s2)"
    "\<forall>p\<in>set_option (cert_buffer s2) \<union> set_option (key_buffer s2). heap s p = None"
    "cert_buffer s2 \<noteq> None \<longrightarrow> cert_buffer s2 \<noteq> key_buffer s2"
    unfolding c by (rule two_blocks [OF vw])+
qed

text \<open>Starting, from there.\<close>

lemma run_start:
  "run_state (https_server_start (Some cfg)) s =
    (let s2 = after_reads cfg s in
     case (cert_buffer s2, key_buffer s2) of
       (Some c, Some k) \<Rightarrow>
         (case run_state (malloc_buf 60 []) s2 of
            (None, s3) \<Rightarrow> (ESP_ERR_NO_MEM, s3)
          | (Some ctx, s3) \<Rightarrow>
              (let r = result (call_err (Httpd (SslStart (srv_port cfg)))) s3;
                   s4 = exec (call_err (Httpd (SslStart (srv_port cfg)))) s3
               in if r \<noteq> ESP_OK then (r, exec https_server_stop (exec (free_str ctx) s4))
                  else (ESP_OK, exec (for_each (endpoints cfg) register_endpoint)
                    ((exec (wipe_and_free k) ((exec (wipe_and_free c)
                        (s4\<lparr>server := True, server_ctx := Some ctx\<rparr>))\<lparr>cert_buffer := None\<rparr>))
                      \<lparr>key_buffer := None\<rparr>))))
     | _ \<Rightarrow> (ESP_FAIL, exec https_server_stop s2))"
  by (simp add: https_server_start_def after_reads_def case_prod_beta Let_def split: option.split)

lemma wipe_effect:
  "heap (exec (wipe_and_free p) s) = (heap s)(p := None)"
  "server (exec (wipe_and_free p) s) = server s" "cert_buffer (exec (wipe_and_free p) s) = cert_buffer s"
  "key_buffer (exec (wipe_and_free p) s) = key_buffer s" "server_ctx (exec (wipe_and_free p) s) = server_ctx s"
  by (simp_all add: wipe_and_free_def run_free_str)

lemma malloc_buf_cases:
  assumes "heap_wf s"
  obtains (none) "run_state (malloc_buf n v) s = (None, s\<lparr>trace := trace s @ [Mem (Malloc n)]\<rparr>)"
  | (some) p s' where "run_state (malloc_buf n v) s = (Some p, s')" "heap s p = None"
      "s' = s\<lparr>trace := trace s @ [Mem (Malloc n)], heap := (heap s)(p := Some v), next_ptr := Suc p\<rparr>"
proof (cases "bool_of (ext s) (trace s) (Mem (Malloc n))")
  case True
  moreover have "heap s (next_ptr s) = None" using assms by (auto simp: heap_wf_def)
  ultimately show ?thesis by (intro some) (simp_all add: run_malloc_buf)
next
  case False
  then show ?thesis by (intro none) (simp add: run_malloc_buf)
qed

lemma start_facts:
  assumes "server_down s" "heap_wf s" and r: "run_state (https_server_start (Some cfg)) s = (err, s1)"
  shows "err = ESP_OK \<Longrightarrow> server s1 \<and> cert_buffer s1 = None \<and> key_buffer s1 = None \<and>
      (\<exists>ctx. server_ctx s1 = Some ctx \<and> heap s ctx = None \<and> heap s1 = (heap s)(ctx := Some []))"
    and "err \<noteq> ESP_OK \<Longrightarrow> \<not> server s1"
    and "heap (exec https_server_stop s1) = heap s"
proof -
  define s2 where "s2 = after_reads cfg s"
  note f = after_reads_facts [OF assms(1,2) s2_def]
  have "(err = ESP_OK \<longrightarrow> server s1 \<and> cert_buffer s1 = None \<and> key_buffer s1 = None \<and>
      (\<exists>ctx. server_ctx s1 = Some ctx \<and> heap s ctx = None \<and> heap s1 = (heap s)(ctx := Some []))) \<and>
    (err \<noteq> ESP_OK \<longrightarrow> \<not> server s1) \<and> heap (exec https_server_stop s1) = heap s"
  proof (cases "cert_buffer s2 = None \<or> key_buffer s2 = None")
    case True
    then have "err = ESP_FAIL" "s1 = exec https_server_stop s2"
      using r by (auto simp: run_start s2_def [symmetric] Let_def split: option.splits)
    moreover have "heap (exec https_server_stop s2) = heap s"
      using f(1,4) by (simp add: stop_heap held_def)
    moreover have "held (exec https_server_stop s2) = {}"
      by (simp add: held_def https_server_stop_def case_prod_beta)
    ultimately show ?thesis by (simp add: stop_heap)
  next
    case False
    then obtain c k where ck: "cert_buffer s2 = Some c" "key_buffer s2 = Some k" by auto
    with f have fresh: "heap s c = None" "heap s k = None" "c \<noteq> k" "c \<in> dom (heap s2)" "k \<in> dom (heap s2)"
      and h: "(\<lambda>p. if p \<in> {c, k} then None else heap s2 p) = heap s"
      by (auto simp: disj_commute)
    show ?thesis
    proof (rule malloc_buf_cases [OF f(3), of 60 "[]"])
      assume m: "run_state (malloc_buf 60 []) s2 = (None, s2\<lparr>trace := trace s2 @ [Mem (Malloc 60)]\<rparr>)"
      then have "err = ESP_ERR_NO_MEM" "s1 = s2\<lparr>trace := trace s2 @ [Mem (Malloc 60)]\<rparr>"
        using r ck by (simp_all add: run_start s2_def [symmetric] Let_def)
      moreover have "held (s2\<lparr>trace := trace s2 @ [Mem (Malloc 60)]\<rparr>) = {c, k}"
        using ck f(1) by (auto simp: held_def)
      ultimately show ?thesis using h f(1) by (simp add: stop_heap cong: if_cong)
    next
      fix ctx s3
      assume m: "run_state (malloc_buf 60 []) s2 = (Some ctx, s3)" "heap s2 ctx = None"
        "s3 = s2\<lparr>trace := trace s2 @ [Mem (Malloc 60)], heap := (heap s2)(ctx := Some []), next_ptr := Suc ctx\<rparr>"
      have ctx: "ctx \<noteq> c" "ctx \<noteq> k" using m(2) fresh by auto
      with m(2) fun_cong [OF h, of ctx] have ctx0: "heap s ctx = None" by simp
      have hs: "(heap s2)(c := None, k := None) = heap s" by (auto simp: h [symmetric] fun_eq_iff)
      let ?call = "call_err (Httpd (SslStart (srv_port cfg))) :: ('a https_server_scheme, esp_err_t) op"
      show ?thesis
      proof (cases "result ?call s3 = ESP_OK")
        case True
        then have e: "err = ESP_OK"
          and s1: "s1 = exec (for_each (endpoints cfg) register_endpoint)
            ((exec (wipe_and_free k) ((exec (wipe_and_free c)
                ((exec ?call s3)\<lparr>server := True, server_ctx := Some ctx\<rparr>))\<lparr>cert_buffer := None\<rparr>))
              \<lparr>key_buffer := None\<rparr>)"
          using r ck m(1) by (simp_all add: run_start s2_def [symmetric] Let_def)
        have "heap s1 = (heap s2)(ctx := Some [], c := None, k := None)"
          by (simp add: s1 wipe_effect m(3))
        also have "\<dots> = (heap s)(ctx := Some [])" using ctx by (auto simp: hs [symmetric] fun_eq_iff)
        finally have hs1: "heap s1 = (heap s)(ctx := Some [])" .
        moreover have "held s1 = {ctx}" by (simp add: held_def s1 wipe_effect)
        ultimately have "heap (exec https_server_stop s1) = heap s"
          using ctx0 by (auto simp: stop_heap fun_eq_iff)
        with hs1 e ctx0 show ?thesis by (simp add: s1 wipe_effect)
      next
        case False
        then have e: "err \<noteq> ESP_OK" and s1: "s1 = exec https_server_stop (exec (free_str ctx) (exec ?call s3))"
          using r ck m(1) by (auto simp: run_start s2_def [symmetric] Let_def)
        let ?s4 = "exec (free_str ctx) (exec ?call s3)"
        have "heap ?s4 = heap s2" using m(2) by (simp add: run_free_str m(3) fun_upd_idem)
        moreover have "held ?s4 = {c, k}" using ck f(1) by (auto simp: held_def run_free_str m(3))
        ultimately have "heap s1 = heap s" using h by (simp add: s1 stop_heap cong: if_cong)
        moreover have "held s1 = {}"
          by (simp add: s1 held_def https_server_stop_def case_prod_beta)
        ultimately show ?thesis using e by (simp add: stop_heap) (simp add: s1)
      qed
    qed
  qed
  then show "err = ESP_OK \<Longrightarrow> server s1 \<and> cert_buffer s1 = None \<and> key_buffer s1 = None \<and>
      (\<exists>ctx. server_ctx s1 = Some ctx \<and> heap s ctx = None \<and> heap s1 = (heap s)(ctx := Some []))"
    and "err \<noteq> ESP_OK \<Longrightarrow> \<not> server s1"
    and "heap (exec https_server_stop s1) = heap s"
    by simp_all
qed

end
