(* ===== verification/App_Api.thy ===== *)
theory App_Api
  imports Https_Server
begin

text \<open>
  \<open>components/app_api\<close> without the firmware update: the request context and the
  response written from it, the password check of every request, and the endpoints
  to change and reset the password and for the WebSocket. A context is a heap object of its
  own store, \<open>api_ctxs\<close>; a handler that reaches for a context where the request
  carries something else is a fault.
\<close>

section \<open>Request contexts\<close>

record api_ctx =
  http_status :: int
  error_code :: esp_err_t
  error_name_str :: "string option"
  manual_response :: bool
  response_json :: "cjson option"

record app_api = https_server +
  api_ctxs :: "nat \<Rightarrow> api_ctx option"
  next_ctx :: nat

abbreviation AUTH_HEADER :: string where "AUTH_HEADER \<equiv> ''x-auth-pass''"
abbreviation (input) APP_ERR_INVALID_PASSWORD :: esp_err_t where "APP_ERR_INVALID_PASSWORD \<equiv> 0x10001"
abbreviation (input) HTTPD_SOCK_ERR_TIMEOUT :: int where "HTTPD_SOCK_ERR_TIMEOUT \<equiv> - 3"

definition API_GENERIC_VAR_NAMES :: "string list" where
  "API_GENERIC_VAR_NAMES = [''res'', ''err'']"

text \<open>\<open>None\<close> is a null name.\<close>

definition resolve_error_name :: "ext_env \<Rightarrow> api_ctx \<Rightarrow> string option" where
  "resolve_error_name e ctx =
     (case error_name_str ctx of
        None \<Rightarrow> esp_err_to_name e (error_code ctx)
      | Some n \<Rightarrow>
          if n \<in> set API_GENERIC_VAR_NAMES then Some (case esp_err_to_name e (error_code ctx) of
              Some esp_name \<Rightarrow> esp_name | None \<Rightarrow> ''UNKNOWN_ERROR'')
          else Some n)"

definition fresh_ctx :: api_ctx where
  "fresh_ctx = \<lparr>http_status = 204, error_code = ESP_OK, error_name_str = None,
     manual_response = False, response_json = None\<rparr>"

definition app_api_create_ctx :: "httpd_req \<Rightarrow> ('x app_api_scheme, nat option) op" where
  "app_api_create_ctx req = do {
     ok \<leftarrow> call_bool (Mem (Malloc 20));
     if \<not> ok then ret None
     else do {
       p \<leftarrow> gets next_ctx;
       modify (\<lambda>s. s\<lparr>api_ctxs := (api_ctxs s)(p := Some fresh_ctx), next_ctx := Suc p\<rparr>);
       ret (Some p)
     }
   }"

text \<open>\<open>strlen\<close> of a null text, when printing failed, is a fault.\<close>

definition send_json :: "int \<Rightarrow> string option \<Rightarrow> ('x platform_scheme, unit) op" where
  "send_json status json_str = do {
     call_unit (Httpd (RespSetStatus (c_trunc 8 (fmt_d status))));
     call_unit (Httpd (RespSetType ''application/json''));
     (case json_str of
        Some j \<Rightarrow> call_unit (Httpd (RespSend j))
      | None \<Rightarrow> modify (\<lambda>s. s\<lparr>mem_fault := True\<rparr>))
   }"

definition error_json :: "ext_env \<Rightarrow> api_ctx \<Rightarrow> cjson" where
  "error_json e ctx =
     CObject (cJSON_AddString ''error_code'' (Some (c_trunc 16 (''0x'' @ fmt_X (error_code ctx)))) @
       cJSON_AddString ''error_name'' (resolve_error_name e ctx))"

definition write_response :: "api_ctx \<Rightarrow> ('x platform_scheme, unit) op" where
  "write_response ctx = do {
     e \<leftarrow> gets ext;
     if error_code ctx = ESP_OK then
       (case response_json ctx of
          Some j \<Rightarrow> send_json (http_status ctx) (cJSON_PrintUnformatted e j)
        | None \<Rightarrow> do {
            call_unit (Httpd (RespSetStatus ''204 No Content''));
            call_unit (Httpd (RespSend []))
          })
     else send_json (http_status ctx) (cJSON_PrintUnformatted e (error_json e ctx))
   }"

definition app_api_handle_response ::
  "httpd_req \<Rightarrow> nat option \<Rightarrow> esp_err_t \<Rightarrow> ('x app_api_scheme, esp_err_t) op" where
  "app_api_handle_response req void_ctx handler_res =
     (case void_ctx of
        None \<Rightarrow> do { call_err (Httpd RespSend500); ret ESP_FAIL }
      | Some p \<Rightarrow> do {
          c \<leftarrow> gets (\<lambda>s. api_ctxs s p);
          (case c of
             None \<Rightarrow> do { modify (\<lambda>s. s\<lparr>mem_fault := True\<rparr>); ret ESP_FAIL }
           | Some c \<Rightarrow> do {
               let c = (if handler_res \<noteq> ESP_OK
                 then c\<lparr>http_status := 500, error_code := handler_res, error_name_str := None\<rparr> else c);
               whenM (\<not> manual_response c) (write_response c);
               let result_for_middleware = (if handler_res \<noteq> ESP_OK then handler_res else error_code c);
               call_unit (Mem (Free p));
               modify (\<lambda>s. s\<lparr>api_ctxs := (api_ctxs s)(p := None)\<rparr>);
               ret result_for_middleware
             })
        })"

text \<open>\<open>api_ctx_t *ctx = (api_ctx_t *)req->user_ctx; if (ctx) { ... }\<close>\<close>

definition update_ctx :: "httpd_req \<Rightarrow> (api_ctx \<Rightarrow> api_ctx) \<Rightarrow> ('x app_api_scheme, unit) op" where
  "update_ctx req f =
     (case req_user_ctx req of
        UcNull \<Rightarrow> ret ()
      | UcEndpoint \<Rightarrow> modify (\<lambda>s. s\<lparr>mem_fault := True\<rparr>)
      | UcApi p \<Rightarrow> do {
          c \<leftarrow> gets (\<lambda>s. api_ctxs s p);
          (case c of
             Some c \<Rightarrow> modify (\<lambda>s. s\<lparr>api_ctxs := (api_ctxs s)(p := Some (f c))\<rparr>)
           | None \<Rightarrow> modify (\<lambda>s. s\<lparr>mem_fault := True\<rparr>))
        })"

text \<open>\<open>APP_API_RETURN_ERR(req, status, code)\<close> passes the text of \<open>code\<close> as the name.\<close>

definition app_api_return_err :: "httpd_req \<Rightarrow> int \<Rightarrow> esp_err_t \<Rightarrow> string \<Rightarrow> ('x app_api_scheme, esp_err_t) op" where
  "app_api_return_err req status code name_str = do {
     update_ctx req (\<lambda>c. c\<lparr>http_status := status, error_code := code, error_name_str := Some name_str,
       manual_response := False\<rparr>);
     ret ESP_OK
   }"

definition app_api_return_ok :: "httpd_req \<Rightarrow> ('x app_api_scheme, esp_err_t) op" where
  "app_api_return_ok req = do {
     update_ctx req (\<lambda>c. c\<lparr>http_status := 204, error_code := ESP_OK, manual_response := False\<rparr>);
     ret ESP_OK
   }"

definition app_api_return_json :: "httpd_req \<Rightarrow> cjson \<Rightarrow> ('x app_api_scheme, esp_err_t) op" where
  "app_api_return_json req json_root = do {
     update_ctx req (\<lambda>c. c\<lparr>http_status := 200, response_json := Some json_root\<rparr>);
     ret ESP_OK
   }"

definition app_api_set_manual_response :: "httpd_req \<Rightarrow> ('x app_api_scheme, unit) op" where
  "app_api_set_manual_response req = update_ctx req (\<lambda>c. c\<lparr>manual_response := True\<rparr>)"

section \<open>Authentication\<close>

definition secure_equal :: "string \<Rightarrow> string \<Rightarrow> bool" where
  "secure_equal a b \<longleftrightarrow>
     helper_secure_memcmp (bytes_of_string a) (bytes_of_string b) (length a) = Some 0"

definition app_api_check_auth :: "httpd_req \<Rightarrow> ('x app_api_scheme, bool) op" where
  "app_api_check_auth req = do {
     header_len \<leftarrow> call_int (Httpd (HdrLen AUTH_HEADER));
     if header_len = 0 \<or> header_len \<ge> 64 then ret False
     else do {
       (err, token) \<leftarrow> call_err_str (Httpd (HdrStr AUTH_HEADER 64));
       if err \<noteq> ESP_OK then ret False
       else do {
         (err, current_pass) \<leftarrow> nvs_manager_load_str AUTH_NVS_NS AUTH_NVS_KEY 64;
         if err \<noteq> ESP_OK then ret False
         else
           (let cur_len = length current_pass; rcv_len = length token
            in if cur_len = 0 \<or> cur_len \<noteq> rcv_len then ret False
               else if secure_equal token current_pass then ret True
               else ret False)
       }
     }
   }"

definition app_api_auth_change_password :: "httpd_req \<Rightarrow> ('x app_api_scheme, esp_err_t) op" where
  "app_api_auth_change_password req =
     (if req_content_len req \<ge> 256 then app_api_return_err req 400 ESP_ERR_NO_MEM ''ESP_ERR_NO_MEM''
      else do {
        (r, body) \<leftarrow> call_int_str (Httpd (ReqRecv (req_content_len req)));
        if r \<le> 0 then
          (if r = HTTPD_SOCK_ERR_TIMEOUT
           then app_api_return_err req 408 ESP_ERR_TIMEOUT ''ESP_ERR_TIMEOUT''
           else app_api_return_err req 500 ESP_FAIL ''ESP_FAIL'')
        else do {
          e \<leftarrow> gets ext;
          let buf = c_string (take (nat r) body);
          let (old_err, old_pass) = query_key_value e buf ''old'' 64;
          let (new_err, new_pass) = query_key_value e buf ''new'' 64;
          if old_err \<noteq> ESP_OK \<or> new_err \<noteq> ESP_OK
          then app_api_return_err req 400 ESP_ERR_INVALID_ARG ''ESP_ERR_INVALID_ARG''
          else do {
            (err, stored_pass) \<leftarrow> nvs_manager_load_str AUTH_NVS_NS AUTH_NVS_KEY 256;
            if err \<noteq> ESP_OK then app_api_return_err req 500 err ''err''
            else if length old_pass \<noteq> length stored_pass \<or> \<not> secure_equal old_pass stored_pass
            then app_api_return_err req 403 APP_ERR_INVALID_PASSWORD ''APP_ERR_INVALID_PASSWORD''
            else do {
              err \<leftarrow> nvs_manager_save_str AUTH_NVS_NS AUTH_NVS_KEY new_pass;
              if err \<noteq> ESP_OK then app_api_return_err req 500 err ''err''
              else app_api_return_ok req
            }
          }
        }
      })"

text \<open>\<open>cJSON_CreateObject\<close> may run out of memory.\<close>

definition app_api_auth_reset_password :: "httpd_req \<Rightarrow> ('x app_api_scheme, esp_err_t) op" where
  "app_api_auth_reset_password req = do {
     (err, default_password) \<leftarrow> nvs_manager_load_str AUTH_NVS_NS AUTH_NVS_DEFAULT_KEY 64;
     if err \<noteq> ESP_OK then app_api_return_err req 500 err ''err''
     else do {
       err \<leftarrow> nvs_manager_save_str AUTH_NVS_NS AUTH_NVS_KEY default_password;
       if err \<noteq> ESP_OK then app_api_return_err req 500 err ''err''
       else do {
         json_root \<leftarrow> call_bool (Mem (Malloc 40));
         if \<not> json_root then app_api_return_err req 500 ESP_ERR_NO_MEM ''ESP_ERR_NO_MEM''
         else app_api_return_json req
           (CObject [(''default_password'', CString (Some default_password))])
       }
     }
   }"

section \<open>WebSocket\<close>

abbreviation (input) HTTPD_WS_TYPE_TEXT :: u32 where "HTTPD_WS_TYPE_TEXT \<equiv> 1"
abbreviation (input) HTTPD_WS_TYPE_CLOSE :: u32 where "HTTPD_WS_TYPE_CLOSE \<equiv> 8"

text \<open>The first receive reports the frame's length and type, the second fills the buffer.\<close>

definition app_api_ws :: "httpd_req \<Rightarrow> ('x app_api_scheme, esp_err_t) op" where
  "app_api_ws req =
     (if req_method req = HTTP_GET then do {
        fd \<leftarrow> call_int (Httpd ReqSockfd);
        ws_dispatcher_add_client (req_handle req) fd;
        ret ESP_OK
      }
      else do {
        (r, len, ty) \<leftarrow> ask (\<lambda>e h c. (err_of e h c, int_of e h c, word_of e h c)) (Httpd (WsRecvFrame 0));
        if r \<noteq> ESP_OK then ret r
        else do {
          r \<leftarrow> (if len > 0 then do {
              payload \<leftarrow> malloc_buf (nat len + 1) [];
              (case payload of
                 None \<Rightarrow> ret ESP_ERR_NO_MEM
               | Some p \<Rightarrow> do {
                   (r, data) \<leftarrow> call_err_str (Httpd (WsRecvFrame (nat len)));
                   if r \<noteq> ESP_OK then do { free_str p; ret r }
                   else do {
                     modify (\<lambda>s. s\<lparr>heap := (heap s)(p := Some (take (nat len) data))\<rparr>);
                     payload_text \<leftarrow> read_str p;
                     whenM (ty = HTTPD_WS_TYPE_TEXT) (ws_cmd_handle payload_text);
                     free_str p;
                     ret ESP_OK
                   }
                 })
            }
            else ret ESP_OK);
          if r \<noteq> ESP_OK then ret r
          else if ty = HTTPD_WS_TYPE_CLOSE then do {
            fd \<leftarrow> call_int (Httpd ReqSockfd);
            ws_dispatcher_remove_client fd;
            ret ESP_OK
          }
          else ret ESP_OK
        }
      })"

lemmas api_defs =
  app_api_return_err_def app_api_return_ok_def app_api_return_json_def update_ctx_def

section \<open>Authentication\<close>

lemma secure_equal_iff: "length a = length b \<Longrightarrow> secure_equal a b \<longleftrightarrow> a = b"
  using memcmp.compare_strings [of a b] by (simp add: secure_equal_def)

lemma secure_differs: "length a \<noteq> length b \<or> \<not> secure_equal a b \<longleftrightarrow> a \<noteq> b"
  "(length a = length b \<longrightarrow> \<not> secure_equal a b) \<longleftrightarrow> a \<noteq> b" "secure_equal a a"
  using secure_equal_iff by auto

text \<open>The token in the request's header, when it fits the buffer.\<close>

definition auth_token :: "'x platform_scheme \<Rightarrow> string option" where
  "auth_token s =
     (let e = ext s; t = trace s; c1 = Httpd (HdrLen AUTH_HEADER); c2 = Httpd (HdrStr AUTH_HEADER 64)
      in if int_of e t c1 = 0 \<or> int_of e t c1 \<ge> 64 \<or> err_of e (t @ [c1]) c2 \<noteq> ESP_OK then None
         else Some (str_of e (t @ [c1]) c2))"

definition auth_calls :: "call list" where
  "auth_calls = [Httpd (HdrLen AUTH_HEADER), Httpd (HdrStr AUTH_HEADER 64)]"

lemma check_auth_iff:
  "result (app_api_check_auth req) s \<longleftrightarrow>
     (\<exists>tok. auth_token s = Some tok \<and> tok \<noteq> [] \<and>
        result (nvs_manager_load_str AUTH_NVS_NS AUTH_NVS_KEY 64)
          (s\<lparr>trace := trace s @ auth_calls\<rparr>) = (ESP_OK, tok))"
  by (auto simp: app_api_check_auth_def auth_token_def auth_calls_def Let_def case_prod_beta
      secure_equal_iff prod_eq_iff)

lemma stored_auth_calls [simp]: "stored f (s\<lparr>trace := trace s @ auth_calls\<rparr>) = stored f s"
proof -
  have "nvs_view (ext s) f (trace s @ auth_calls) = nvs_view (ext s) f (trace s)"
    by (cases "nvs_view (ext s) f (trace s)") (simp add: nvs_view_append auth_calls_def)
  then show ?thesis by (simp add: stored_def fun_eq_iff)
qed

text \<open>With the documented store: accepted exactly when the header carries the stored password.\<close>

lemma check_auth_stored:
  assumes "nvs_law f (ext s)"
  shows "result (app_api_check_auth req) s \<longleftrightarrow>
    (\<exists>tok. auth_token s = Some tok \<and> tok \<noteq> [] \<and> length tok < 64 \<and>
      stored f s AUTH_NVS_NS AUTH_NVS_KEY = Some tok \<and>
      err_of (ext s) (trace s @ auth_calls) (Nvs (NvsOpen AUTH_NVS_NS False)) = ESP_OK)"
  using load_str_iff [of f "s\<lparr>trace := trace s @ auth_calls\<rparr>" 64] assms
  by (auto simp: check_auth_iff)

section \<open>Password changes\<close>

text \<open>The frame of the store: whatever makes only other calls leaves it as it is.\<close>

definition store_is :: "(string \<times> string \<Rightarrow> string option) \<Rightarrow> ext_env \<Rightarrow>
    (string \<Rightarrow> string \<Rightarrow> string option) \<Rightarrow> 'x platform_scheme \<Rightarrow> bool" where
  "store_is f e m s \<longleftrightarrow> ext s = e \<and> stored f s = m"

lemma absorbs_store_is: "nvs_quiet c \<Longrightarrow> absorbs (store_is f e m) c"
  by (auto simp: absorbs_def store_is_def stored_def nvs_step_quiet fun_eq_iff)

lemma return_err_store: "keeps (store_is f e m) (app_api_return_err req st c n)"
  unfolding api_defs
  by (auto intro!: keeps_intro simp: store_is_def stored_def fun_eq_iff split: user_ctx.split option.split)

lemma return_ok_store: "keeps (store_is f e m) (app_api_return_ok req)"
  unfolding api_defs
  by (auto intro!: keeps_intro simp: store_is_def stored_def fun_eq_iff split: user_ctx.split option.split)

lemma return_json_store: "keeps (store_is f e m) (app_api_return_json req j)"
  unfolding api_defs
  by (auto intro!: keeps_intro simp: store_is_def stored_def fun_eq_iff split: user_ctx.split option.split)

lemma stored_return [simp]:
  "stored f (exec (app_api_return_err req st c n) s) = stored f s"
  "stored f (exec (app_api_return_ok req) s) = stored f s"
  "stored f (exec (app_api_return_json req j) s) = stored f s"
  using keepsD [OF return_err_store [of f "ext s" "stored f s"], of s]
    keepsD [OF return_ok_store [of f "ext s" "stored f s"], of s]
    keepsD [OF return_json_store [of f "ext s" "stored f s"], of s]
  by (simp_all add: store_is_def)

text \<open>The two passwords a change request carries.\<close>

definition change_request :: "httpd_req \<Rightarrow> 'x platform_scheme \<Rightarrow> (string \<times> string) option" where
  "change_request req s =
     (let c = Httpd (ReqRecv (req_content_len req)); r = int_of (ext s) (trace s) c;
          buf = c_string (take (nat r) (str_of (ext s) (trace s) c));
          (oe, old_pass) = query_key_value (ext s) buf ''old'' 64;
          (ne, new_pass) = query_key_value (ext s) buf ''new'' 64
      in if req_content_len req \<ge> 256 \<or> r \<le> 0 \<or> oe \<noteq> ESP_OK \<or> ne \<noteq> ESP_OK then None
         else Some (old_pass, new_pass))"

abbreviation change_recv :: "httpd_req \<Rightarrow> call" where
  "change_recv req \<equiv> Httpd (ReqRecv (req_content_len req))"

lemma change_requestD:
  assumes "change_request req s = Some (old_pass, new_pass)"
  shows "req_content_len req < 256" "0 < int_of (ext s) (trace s) (change_recv req)"
    "query_key_value (ext s) (c_string (take (nat (int_of (ext s) (trace s) (change_recv req)))
       (str_of (ext s) (trace s) (change_recv req)))) ''old'' 64 = (ESP_OK, old_pass)"
    "query_key_value (ext s) (c_string (take (nat (int_of (ext s) (trace s) (change_recv req)))
       (str_of (ext s) (trace s) (change_recv req)))) ''new'' 64 = (ESP_OK, new_pass)"
  using assms by (auto simp: change_request_def Let_def split: prod.splits if_splits)

lemma exec_change_password:
  assumes "change_request req s = Some (old_pass, new_pass)"
  shows "exec (app_api_auth_change_password req) s =
    (let s1 = s\<lparr>trace := trace s @ [change_recv req]\<rparr>;
         r = result (nvs_manager_load_str AUTH_NVS_NS AUTH_NVS_KEY 256) s1;
         s2 = exec (nvs_manager_load_str AUTH_NVS_NS AUTH_NVS_KEY 256) s1
     in if fst r \<noteq> ESP_OK then exec (app_api_return_err req 500 (fst r) ''err'') s2
        else if old_pass \<noteq> snd r
        then exec (app_api_return_err req 403 APP_ERR_INVALID_PASSWORD ''APP_ERR_INVALID_PASSWORD'') s2
        else (let q = run_state (nvs_manager_save_str AUTH_NVS_NS AUTH_NVS_KEY new_pass) s2
              in if fst q \<noteq> ESP_OK then exec (app_api_return_err req 500 (fst q) ''err'') (snd q)
                 else exec (app_api_return_ok req) (snd q)))"
  using change_requestD [OF assms]
  by (simp add: app_api_auth_change_password_def Let_def case_prod_beta secure_differs)

lemma exec_change_rejected:
  assumes "change_request req s = None"
  shows "stored f (exec (app_api_auth_change_password req) s) = stored f s"
proof -
  have recv: "stored f (s\<lparr>trace := trace s @ [change_recv req]\<rparr>) = stored f s"
    by (simp add: stored_def fun_eq_iff nvs_step_quiet)
  then show ?thesis
    using assms
    by (auto simp: app_api_auth_change_password_def change_request_def Let_def case_prod_beta
        split: if_splits)
qed

lemma stored_recv [simp]: "stored f (s\<lparr>trace := trace s @ [Httpd c]\<rparr>) = stored f s"
  by (simp add: stored_def fun_eq_iff nvs_step_quiet)

text \<open>The stored password changes only by a request that names the stored one.\<close>

lemma change_password_store:
  assumes "nvs_law f (ext s)"
  shows "stored f (exec (app_api_auth_change_password req) s) = stored f s \<or>
    (\<exists>old_pass new_pass. change_request req s = Some (old_pass, new_pass) \<and>
       stored f s AUTH_NVS_NS AUTH_NVS_KEY = Some old_pass \<and>
       stored f (exec (app_api_auth_change_password req) s) AUTH_NVS_NS AUTH_NVS_KEY = Some new_pass \<and>
       (\<forall>ns k. (ns, k) \<noteq> (AUTH_NVS_NS, AUTH_NVS_KEY) \<longrightarrow>
          stored f (exec (app_api_auth_change_password req) s) ns k = stored f s ns k))"
proof (cases "change_request req s")
  case None
  then show ?thesis by (simp add: exec_change_rejected)
next
  case (Some pp)
  obtain old_pass new_pass where pp: "change_request req s = Some (old_pass, new_pass)"
    using Some by (cases pp) simp
  define s1 where "s1 = s\<lparr>trace := trace s @ [change_recv req]\<rparr>"
  define s2 where "s2 = exec (nvs_manager_load_str AUTH_NVS_NS AUTH_NVS_KEY 256) s1"
  define s3 where "s3 = exec (nvs_manager_save_str AUTH_NVS_NS AUTH_NVS_KEY new_pass) s2"
  have st: "stored f s2 = stored f s" by (simp add: s2_def s1_def stored_load)
  note run = exec_change_password [OF pp, folded s1_def s2_def, unfolded Let_def]
  show ?thesis
  proof (cases "result (nvs_manager_load_str AUTH_NVS_NS AUTH_NVS_KEY 256) s1 = (ESP_OK, old_pass)")
    case False
    then have "stored f (exec (app_api_auth_change_password req) s) = stored f s2"
      by (auto simp: run case_prod_beta prod_eq_iff s2_def)
    then show ?thesis using st by simp
  next
    case True
    have "nvs_law f (ext s1)" using assms by (simp add: s1_def)
    then have "stored f s1 AUTH_NVS_NS AUTH_NVS_KEY = Some old_pass"
      using True by (rule nvs.load_content)
    then have old: "stored f s AUTH_NVS_NS AUTH_NVS_KEY = Some old_pass" by (simp add: s1_def)
    have "stored f (exec (app_api_auth_change_password req) s) = stored f s3"
      using True by (auto simp: run case_prod_beta prod_eq_iff s3_def s2_def)
    moreover have "stored f s3 = stored f s2 \<or>
        stored f s3 AUTH_NVS_NS AUTH_NVS_KEY = Some new_pass \<and>
        (\<forall>ns k. (ns, k) \<noteq> (AUTH_NVS_NS, AUTH_NVS_KEY) \<longrightarrow> stored f s3 ns k = stored f s2 ns k)"
      unfolding s3_def by (auto simp: stored_save fun_eq_iff)
    ultimately show ?thesis using old pp st by auto
  qed
qed

section \<open>Contexts\<close>

text \<open>
  \<open>ctx_at p c others s\<close>: the context \<open>p\<close> is live and holds \<open>c\<close>; apart from it the
  store of contexts is \<open>others\<close>.
\<close>

definition ctx_wf :: "'x app_api_scheme \<Rightarrow> bool" where
  "ctx_wf s \<longleftrightarrow> (\<forall>p\<ge>next_ctx s. api_ctxs s p = None)"

definition ctx_held :: "nat \<Rightarrow> (nat \<Rightarrow> api_ctx option) \<Rightarrow> 'x app_api_scheme \<Rightarrow> bool" where
  "ctx_held p others s \<longleftrightarrow> api_ctxs s p \<noteq> None \<and> (api_ctxs s)(p := None) = others"

lemma create_ctx_held:
  assumes "ctx_wf s" "run_state (app_api_create_ctx req) s = (Some p, s')"
  shows "ctx_held p (api_ctxs s) s'" "api_ctxs s' p = Some fresh_ctx"
  using assms
  by (auto simp: app_api_create_ctx_def ctx_wf_def ctx_held_def fun_upd_idem split: if_splits)

lemma create_ctx_none:
  "run_state (app_api_create_ctx req) s = (None, s') \<Longrightarrow> api_ctxs s' = api_ctxs s"
  by (auto simp: app_api_create_ctx_def split: if_splits)

lemma update_ctx_held: "req_user_ctx req = UcApi p \<Longrightarrow> keeps (ctx_held p m) (update_ctx req f)"
  by (rule keepsI) (auto simp: update_ctx_def ctx_held_def)

lemma return_ctx_held:
  assumes "req_user_ctx req = UcApi p"
  shows "keeps (ctx_held p m) (app_api_return_err req st c n)"
    "keeps (ctx_held p m) (app_api_return_ok req)" "keeps (ctx_held p m) (app_api_return_json req j)"
  unfolding app_api_return_err_def app_api_return_ok_def app_api_return_json_def
  by (auto intro!: keeps_intro update_ctx_held [OF assms])

lemma absorbs_ctx_held: "absorbs (ctx_held p m) c"
  by (simp add: absorbs_def ctx_held_def)

lemma password_ctx_held:
  assumes "req_user_ctx req = UcApi p"
  shows "keeps (ctx_held p m) (app_api_auth_change_password req)"
    "keeps (ctx_held p m) (app_api_auth_reset_password req)"
  unfolding app_api_auth_change_password_def app_api_auth_reset_password_def Let_def
  by (auto intro!: keeps_intro return_ctx_held [OF assms] absorbs_ctx_held)

lemma app_pred_ctx_held: "app_pred (ctx_held p m)"
  by (rule app_pred_frame)
    (auto simp: absorbs_on_def absorbs_ctx_held ignores_def ctx_held_def ui_fields_free_def
      ind_fields_free_def)

lemma write_response_ctxs [simp]: "api_ctxs (exec (write_response c) s) = api_ctxs s"
  by (simp add: write_response_def send_json_def split: option.split)

lemma handle_response_frees:
  assumes "ctx_held p m s"
  shows "api_ctxs (exec (app_api_handle_response req (Some p) r) s) = m"
  using assms
  by (auto simp: app_api_handle_response_def ctx_held_def Let_def case_prod_beta)

section \<open>Responses\<close>

text \<open>The answer as a function of the final context and the handler's result.\<close>

definition final_ctx :: "esp_err_t \<Rightarrow> api_ctx \<Rightarrow> api_ctx" where
  "final_ctx r c = (if r \<noteq> ESP_OK
     then c\<lparr>http_status := 500, error_code := r, error_name_str := None\<rparr> else c)"

definition answer :: "ext_env \<Rightarrow> api_ctx \<Rightarrow> call list" where
  "answer e c =
     (if manual_response c then []
      else if error_code c = ESP_OK \<and> response_json c = None
      then [Httpd (RespSetStatus ''204 No Content''), Httpd (RespSend [])]
      else Httpd (RespSetStatus (c_trunc 8 (fmt_d (http_status c)))) #
        Httpd (RespSetType ''application/json'') #
        (case cJSON_PrintUnformatted e (if error_code c = ESP_OK then the (response_json c) else error_json e c) of
           Some j \<Rightarrow> [Httpd (RespSend j)] | None \<Rightarrow> []))"

lemma handle_response_spec:
  assumes "api_ctxs s p = Some c"
  shows "result (app_api_handle_response req (Some p) r) s = (if r \<noteq> ESP_OK then r else error_code c)"
    "trace (exec (app_api_handle_response req (Some p) r) s) =
       trace s @ answer (ext s) (final_ctx r c) @ [Mem (Free p)]"
  using assms
  by (auto simp: app_api_handle_response_def final_ctx_def answer_def write_response_def send_json_def
      Let_def case_prod_beta split: option.split)

section \<open>Reports\<close>

text \<open>
  What a handler can leave behind: a refusal by \<open>APP_API_RETURN_ERR\<close> with a status, a code
  and the text of the code, success, a JSON value, or an error of its own. \<open>served\<close> is a
  request's way through the component: its context, the report, the response.
\<close>

datatype report = Refusal int esp_err_t string | Success | Value cjson | Failure esp_err_t

fun make_report :: "report \<Rightarrow> httpd_req \<Rightarrow> ('x app_api_scheme, esp_err_t) op" where
  "make_report (Refusal status code name) req = app_api_return_err req status code name"
| "make_report Success req = app_api_return_ok req"
| "make_report (Value j) req = app_api_return_json req j"
| "make_report (Failure r) req = ret r"

definition served :: "report \<Rightarrow> httpd_req \<Rightarrow> ('x app_api_scheme, esp_err_t) op" where
  "served rep req = do {
     p \<leftarrow> app_api_create_ctx req;
     r \<leftarrow> make_report rep (req\<lparr>req_user_ctx := (case p of Some p \<Rightarrow> UcApi p | None \<Rightarrow> req_user_ctx req)\<rparr>);
     app_api_handle_response req p r
   }"

text \<open>
  The protocol towards the client. A refusal's name is the text of the code as the handler
  wrote it, unless that is one of the two variable names \<open>res\<close> and \<open>err\<close>.
\<close>

definition json_reply :: "string \<Rightarrow> string option \<Rightarrow> call list" where
  "json_reply status body =
     [Httpd (RespSetStatus status), Httpd (RespSetType ''application/json'')] @
     (case body of Some b \<Rightarrow> [Httpd (RespSend b)] | None \<Rightarrow> [])"

definition error_body :: "ext_env \<Rightarrow> esp_err_t \<Rightarrow> string option \<Rightarrow> string option" where
  "error_body e code name =
     cJSON_PrintUnformatted e (CObject (
       (''error_code'', CString (Some (CHR ''0'' # CHR ''x'' # hex_str (nat (code mod 4294967296))))) #
       (case name of Some n \<Rightarrow> [(''error_name'', CString (Some n))] | None \<Rightarrow> [])))"

definition refusal_name :: "ext_env \<Rightarrow> esp_err_t \<Rightarrow> string \<Rightarrow> string" where
  "refusal_name e code name =
     (if name = ''res'' \<or> name = ''err''
      then (case esp_err_to_name e code of Some n \<Rightarrow> n | None \<Rightarrow> ''UNKNOWN_ERROR'') else name)"

fun reply :: "ext_env \<Rightarrow> report \<Rightarrow> call list" where
  "reply e (Refusal status code name) =
     json_reply (dec_str (nat status)) (error_body e code (Some (refusal_name e code name)))"
| "reply e Success = [Httpd (RespSetStatus ''204 No Content''), Httpd (RespSend [])]"
| "reply e (Value j) = json_reply ''200'' (cJSON_PrintUnformatted e j)"
| "reply e (Failure r) = json_reply ''500'' (error_body e r (esp_err_to_name e r))"

fun report_code :: "report \<Rightarrow> esp_err_t" where
  "report_code (Refusal status code name) = code"
| "report_code (Failure r) = r"
| "report_code _ = 0"

text \<open>A refusal has an error code and a three-digit status, a failure an error code.\<close>

fun report_wf :: "report \<Rightarrow> bool" where
  "report_wf (Refusal status code name) \<longleftrightarrow> code \<noteq> 0 \<and> 100 \<le> status \<and> status < 600"
| "report_wf (Failure r) \<longleftrightarrow> r \<noteq> 0"
| "report_wf _ \<longleftrightarrow> True"

lemma status_text:
  assumes "100 \<le> st" "st < 600"
  shows "c_trunc 8 (fmt_d st) = dec_str (nat st)"
proof -
  have "length (dec_str (nat st)) \<le> 3" by (rule length_dec_str) (use assms in auto)
  with assms show ?thesis by (simp add: fmt_d_def c_trunc_def)
qed

lemma literal_statuses: "c_trunc 8 (fmt_d 200) = ''200''" "c_trunc 8 (fmt_d 500) = ''500''"
  by code_simp+

lemma code_text: "c_trunc 16 (CHR ''0'' # CHR ''x'' # fmt_X i) = CHR ''0'' # CHR ''x'' # hex_str (nat (i mod 4294967296))"
  using length_fmt_X [of i] by (simp add: c_trunc_def fmt_X_def)

lemma error_json_body:
  "cJSON_PrintUnformatted e (error_json e c) =
     error_body e (error_code c) (case error_name_str c of
       None \<Rightarrow> esp_err_to_name e (error_code c) | Some n \<Rightarrow> Some (refusal_name e (error_code c) n))"
  by (simp add: error_json_def error_body_def resolve_error_name_def refusal_name_def
      API_GENERIC_VAR_NAMES_def cJSON_AddString_def code_text split: option.split)

lemma served_reply:
  assumes "report_wf rep" "bool_of (ext s) (trace s) (Mem (Malloc 20))"
  shows "result (served rep req) s = report_code rep \<and>
    trace (exec (served rep req) s) = trace s @ Mem (Malloc 20) # reply (ext s) rep @ [Mem (Free (next_ctx s))] \<and>
    api_ctxs (exec (served rep req) s) = (api_ctxs s)(next_ctx s := None)"
proof -
  note unfold = served_def app_api_create_ctx_def api_defs app_api_handle_response_def fresh_ctx_def
    write_response_def send_json_def json_reply_def error_json_body literal_statuses status_text
  show ?thesis
    using assms by (cases rep) (auto simp: unfold Let_def case_prod_beta split: option.split)
qed

text \<open>
  That is what the middleware does with a request it lets through: it runs \<open>served\<close> for the
  handler's report and tells the application the code.
\<close>

lemma middleware_serves:
  assumes "ep_is_public ep \<or> (\<exists>auth. auth_cb cfg = Some auth \<and> run_state (auth req) s = (True, s1))"
    and "ep_is_public ep \<Longrightarrow> s1 = s"
    and "create_request_ctx cfg = Some app_api_create_ctx" "handle_response cfg = Some app_api_handle_response"
    and "ep_handler ep = Some (\<lambda>r. run_op (make_report rep r))"
  shows "http_middleware (Some cfg) (Some ep) req s =
    (case run_state (served rep req) s1 of (final_res, s2) \<Rightarrow>
       Some (ESP_OK, exec (if final_res \<noteq> ESP_OK
         then (case on_request_error cfg of Some cb \<Rightarrow> cb (ep_name ep) final_res | None \<Rightarrow> ret ())
         else (case on_request_success cfg of Some cb \<Rightarrow> cb (ep_name ep) | None \<Rightarrow> ret ())) s2))"
proof -
  have auth: "run_state (middleware_auth (Some cfg) ep req) s = (True, s1)"
    using assms(1,2) by (auto simp: middleware_auth_def)
  have create: "middleware_ctx (Some cfg) req = app_api_create_ctx req"
    using assms(3) by (simp add: middleware_ctx_def)
  show ?thesis
    by (simp add: http_middleware_def auth create assms(4,5) middleware_finish_def served_def case_prod_beta)
      (simp split: option.split)
qed

end
