(* ===== verification/App_Api_Ota.thy ===== *)
theory App_Api_Ota
  imports App_Api
begin

text \<open>
  The firmware update endpoint of \<open>components/app_api\<close> (\<open>app_api_ota_update.c\<close>) and the
  table of endpoints (\<open>app_api_registry.c\<close>). The receive loop retries on a timeout
  without bound, so it is a partial operation.
\<close>

section \<open>Firmware update\<close>

definition ota_reboot_task :: "('x app_api_scheme, unit) op" where
  "ota_reboot_task = do {
     ui_show_temp_message (Some ''Rebooting...'') 2000;
     vTaskDelay 2000;
     call_unit (Ota Restart)
   }"

definition ota_percent :: "int \<Rightarrow> int \<Rightarrow> int" where
  "ota_percent current total_bytes = (if total_bytes > 0 then s32 (current * 100) sdiv total_bytes else 0)"

definition ota_progress_json :: "int \<Rightarrow> int \<Rightarrow> string" where
  "ota_progress_json current total_bytes =
     ''{\"progress\":'' @ fmt_d (ota_percent current total_bytes) @ '',\"bytes_processed\":'' @
     fmt_d current @ '',\"bytes_total\":'' @ fmt_d total_bytes @ ''}''"

definition send_ota_progress_event :: "int \<Rightarrow> int \<Rightarrow> ('x app_api_scheme, unit) op" where
  "send_ota_progress_event current total_bytes = do {
     ws_queue_send WS_EVENT_TYPE_OTA_UPDATE_PROGRESS (c_trunc 128 (ota_progress_json current total_bytes));
     ret ()
   }"

text \<open>The websocket event at every second percent, the screen at every fifth.\<close>

definition ota_show_progress :: "int \<Rightarrow> int \<Rightarrow> int \<Rightarrow> ('x app_api_scheme, unit) op" where
  "ota_show_progress current_percent current_len total_len = do {
     whenM (current_percent mod 2 = 0) (send_ota_progress_event current_len total_len);
     whenM (current_percent mod 5 = 0) (ui_show_boot_progress ''Firmware update'' current_len total_len)
   }"

text \<open>
  One pass of the receive loop, from \<open>remaining\<close>, \<open>current_len\<close> and
  \<open>last_progress_percent\<close>: \<open>continue\<close>, the next values, or \<open>return\<close>.
\<close>

datatype ota_next = OtaContinue | OtaMore int int int | OtaReturn esp_err_t

definition ota_pass :: "httpd_req \<Rightarrow> int \<Rightarrow> int \<Rightarrow> int \<Rightarrow> int \<Rightarrow> ('x app_api_scheme, ota_next) op" where
  "ota_pass req total_len remaining current_len last_pct = do {
     (received, buf) \<leftarrow> call_int_bytes (Httpd (ReqRecv (nat (min remaining 1024))));
     if received \<le> 0 then
       (if received = HTTPD_SOCK_ERR_TIMEOUT then ret OtaContinue
        else do {
          ui_manager_resume;
          call_err (Ota OtaEnd);
          r \<leftarrow> app_api_return_err req 500 ESP_FAIL ''ESP_FAIL'';
          ret (OtaReturn r)
        })
     else do {
       res \<leftarrow> call_err (Ota (OtaWrite (take (nat received) buf)));
       if res \<noteq> ESP_OK then do {
         call_err (Ota OtaEnd);
         ui_manager_resume;
         r \<leftarrow> app_api_return_err req 500 res ''res'';
         ret (OtaReturn r)
       }
       else do {
         let remaining = remaining - received;
         let current_len = current_len + received;
         let current_percent = ota_percent current_len total_len;
         if current_percent > last_pct then do {
           ota_show_progress current_percent current_len total_len;
           ret (OtaMore remaining current_len current_percent)
         }
         else ret (OtaMore remaining current_len last_pct)
       }
     }
   }"

text \<open>The loop; \<open>Inl\<close> is a \<open>return\<close> from inside it. A client that never sends keeps it going.\<close>

partial_function (option) ota_loop ::
  "httpd_req \<Rightarrow> int \<Rightarrow> int \<Rightarrow> int \<Rightarrow> int \<Rightarrow> 'x app_api_scheme \<Rightarrow>
     ((esp_err_t + unit) \<times> 'x app_api_scheme) option" where
  "ota_loop req total_len remaining current_len last_pct s =
     (if remaining \<le> 0 then Some (Inr (), s)
      else case run_state (ota_pass req total_len remaining current_len last_pct) s of
        (nxt, s') \<Rightarrow>
          (case nxt of
             OtaContinue \<Rightarrow> ota_loop req total_len remaining current_len last_pct s'
           | OtaMore rem cur pct \<Rightarrow> ota_loop req total_len rem cur pct s'
           | OtaReturn r \<Rightarrow> Some (Inl r, s')))"

text \<open>\<open>int total_len = req->content_len\<close>.\<close>

definition ota_total :: "httpd_req \<Rightarrow> int" where
  "ota_total req = s32 (int (req_content_len req))"

definition ota_begin :: "httpd_req \<Rightarrow> ('x app_api_scheme, esp_err_t option) op" where
  "ota_begin req = do {
     ui_manager_suspend;
     (err, content_type) \<leftarrow> call_err_str (Httpd (HdrStr ''Content-Type'' 64));
     if err = ESP_OK \<and> content_type \<noteq> ''application/octet-stream'' then do {
       ui_manager_resume;
       r \<leftarrow> app_api_return_err req 400 ESP_ERR_NOT_SUPPORTED ''ESP_ERR_NOT_SUPPORTED'';
       ret (Some r)
     }
     else do {
       update_partition \<leftarrow> call_bool (Ota OtaNextPartition);
       if \<not> update_partition then do {
         ui_manager_resume;
         r \<leftarrow> app_api_return_err req 500 ESP_ERR_NOT_FOUND ''ESP_ERR_NOT_FOUND'';
         ret (Some r)
       }
       else do {
         res \<leftarrow> call_err (Ota OtaBegin);
         if res \<noteq> ESP_OK then do {
           ui_manager_resume;
           r \<leftarrow> app_api_return_err req 500 res ''res'';
           ret (Some r)
         }
         else do {
           ui_show_boot_progress ''Firmware update'' 0 (ota_total req);
           ret None
         }
       }
     }
   }"

definition ota_finish :: "httpd_req \<Rightarrow> ('x app_api_scheme, esp_err_t) op" where
  "ota_finish req = do {
     res \<leftarrow> call_err (Ota OtaEnd);
     if res \<noteq> ESP_OK then do {
       ui_manager_resume;
       app_api_return_err req 500 res ''res''
     }
     else do {
       res \<leftarrow> call_err (Ota OtaSetBoot);
       if res \<noteq> ESP_OK then do {
         ui_manager_resume;
         app_api_return_err req 500 res ''res''
       }
       else do {
         let total_len = ota_total req;
         ui_show_boot_progress ''Complete'' total_len total_len;
         send_ota_progress_event total_len total_len;
         call_bool (Rtos (TaskCreate ''ota_reboot_task''));
         app_api_return_ok req
       }
     }
   }"

text \<open>The handler: the part before the loop, the loop, the part after it.\<close>

definition app_api_ota_update :: "('x app_api_scheme) handler" where
  "app_api_ota_update req =
     then_pop (run_op (ota_begin req)) (\<lambda>early.
       (case early of
          Some r \<Rightarrow> run_op (ret r)
        | None \<Rightarrow>
            then_pop (ota_loop req (ota_total req) (ota_total req) 0 (- 1))
              (\<lambda>out. (case out of
                 Inl r \<Rightarrow> run_op (ret r)
               | Inr _ \<Rightarrow> run_op (ota_finish req)))))"

section \<open>The endpoints\<close>

definition app_api_get_endpoints :: "('x app_api_scheme) https_endpoint list" where
  "app_api_get_endpoints =
     [\<lparr>ep_uri = ''/api/change-password'', ep_method = HTTP_POST,
       ep_handler = Some (\<lambda>r. run_op (app_api_auth_change_password r)),
       ep_is_public = False, ep_is_ws = False, ep_name = Some ''Change password''\<rparr>,
      \<lparr>ep_uri = ''/api/reset-password'', ep_method = HTTP_DELETE,
       ep_handler = Some (\<lambda>r. run_op (app_api_auth_reset_password r)),
       ep_is_public = False, ep_is_ws = False, ep_name = Some ''Reset password''\<rparr>,
      \<lparr>ep_uri = ''/ws/control'', ep_method = HTTP_GET,
       ep_handler = Some (\<lambda>r. run_op (app_api_ws r)),
       ep_is_public = False, ep_is_ws = True, ep_name = None\<rparr>,
      \<lparr>ep_uri = ''/api/update'', ep_method = HTTP_POST,
       ep_handler = Some app_api_ota_update,
       ep_is_public = False, ep_is_ws = False, ep_name = Some ''Firmware update''\<rparr>]"

definition app_api_get_endpoints_count :: nat where
  "app_api_get_endpoints_count = length (app_api_get_endpoints :: (unit app_api_scheme) https_endpoint list)"

section \<open>What is received and what is written\<close>

text \<open>
  The bytes the client's requests delivered, and the bytes handed to the flash, in
  order, over a trace.
\<close>

fun recv_step :: "ext_env \<Rightarrow> call list \<Rightarrow> byte list \<Rightarrow> call \<Rightarrow> byte list" where
  "recv_step e t acc (Httpd (ReqRecv n)) =
     acc @ take (nat (int_of e t (Httpd (ReqRecv n)))) (bytes_of e t (Httpd (ReqRecv n)))"
| "recv_step e t acc _ = acc"

fun recv_rev :: "ext_env \<Rightarrow> call list \<Rightarrow> byte list" where
  "recv_rev e [] = []"
| "recv_rev e (c # r) = recv_step e (rev r) (recv_rev e r) c"

definition received :: "ext_env \<Rightarrow> call list \<Rightarrow> byte list" where
  "received e t = recv_rev e (rev t)"

lemma received_snoc [simp]: "received e (t @ [c]) = recv_step e t (received e t) c"
  by (simp add: received_def)

lemma received_snoc2 [simp]:
  "received e (t @ [c, d]) = recv_step e (t @ [c]) (recv_step e t (received e t) c) d"
  using received_snoc [of e "t @ [c]" d] by simp

fun ota_write :: "call \<Rightarrow> byte list" where
  "ota_write (Ota (OtaWrite b)) = b"
| "ota_write _ = []"

definition flashed :: "call list \<Rightarrow> byte list" where
  "flashed t = concat (map ota_write t)"

lemma flashed_simps [simp]:
  "flashed [] = []" "flashed (c # t) = ota_write c @ flashed t" "flashed (t @ u) = flashed t @ flashed u"
  by (simp_all add: flashed_def)

text \<open>
  \<open>httpd_req_recv\<close> as documented: at most the bytes asked for, and as many in the
  buffer as it says.
\<close>

definition recv_law :: "ext_env \<Rightarrow> bool" where
  "recv_law e \<longleftrightarrow>
     (\<forall>t n. int_of e t (Httpd (ReqRecv n)) \<le> int n \<and>
        (0 < int_of e t (Httpd (ReqRecv n)) \<longrightarrow>
          length (bytes_of e t (Httpd (ReqRecv n))) = nat (int_of e t (Httpd (ReqRecv n)))))"

text \<open>Everything in the handler but the receives and the flash calls leaves both alone.\<close>

fun ota_quiet :: "call \<Rightarrow> bool" where
  "ota_quiet (Httpd (ReqRecv _)) = False"
| "ota_quiet (Ota (OtaWrite _)) = False"
| "ota_quiet _ = True"

definition moved :: "ext_env \<Rightarrow> byte list \<Rightarrow> byte list \<Rightarrow> 'x app_api_scheme \<Rightarrow> bool" where
  "moved e r w s \<longleftrightarrow> ext s = e \<and> received e (trace s) = r \<and> flashed (trace s) = w"

lemma absorbs_moved: "ota_quiet c \<Longrightarrow> absorbs (moved e r w) c"
proof -
  assume q: "ota_quiet c"
  have "recv_step e t acc c = acc" for t acc
    using q by (cases "(e, t, acc, c)" rule: recv_step.cases) auto
  moreover have "ota_write c = []" using q by (cases c rule: ota_write.cases) auto
  ultimately show ?thesis by (simp add: absorbs_def moved_def)
qed

lemma app_pred_moved: "app_pred (moved e r w)"
proof (rule app_pred_frame)
  have "low_call c \<Longrightarrow> ota_quiet c" for c by (cases c) simp_all
  then show "absorbs_on low_call (moved e r w)" by (auto simp: absorbs_on_def intro: absorbs_moved)
qed (auto simp: ignores_def moved_def ui_fields_free_def ind_fields_free_def)

lemma progress_event_moved: "keeps (moved e r w) (send_ota_progress_event c n)"
  unfolding send_ota_progress_event_def
  by (intro keeps_intro queue_keeps) (auto simp: absorbs_moved ignores_def moved_def)

lemma show_progress_moved: "keeps (moved e r w) (ota_show_progress p k n)"
  unfolding ota_show_progress_def
  by (intro keeps_bind keeps_whenM progress_event_moved app_pred_ui [OF app_pred_moved])

lemma moved_free:
  "render_fields_free (moved e r w)" "manager_fields_free (moved e r w)"
  by (simp_all add: ignores_def moved_def render_fields_free_def manager_fields_free_def)

lemma scroll_ota_quiet: "scroll_call c \<Longrightarrow> ota_quiet c"
  by (cases c) simp_all

lemma manager_moved:
  "keeps (moved e r w) ui_manager_resume" "keeps (moved e r w) ui_manager_suspend"
  by (rule ui_manager_keeps(6) [OF app_pred_moved moved_free], simp_all add: absorbs_moved scroll_ota_quiet)
    (rule ui_manager_keeps(5) [OF app_pred_moved moved_free], simp_all add: absorbs_moved scroll_ota_quiet)

lemma return_moved:
  "keeps (moved e r w) (app_api_return_err req st c n)" "keeps (moved e r w) (app_api_return_ok req)"
  unfolding api_defs
  by (auto intro!: keeps_intro simp: moved_def split: user_ctx.split option.split)

section \<open>One pass\<close>

text \<open>
  A pass that goes on has written exactly what it received; \<open>remaining\<close> and
  \<open>current_len\<close> move by that many bytes.
\<close>

lemma pass_moved:
  assumes "moved e r w s" "recv_law e" "0 < remaining"
    and "run_state (ota_pass req total_len remaining cur pct) s = (nxt, s')"
  shows "case nxt of
      OtaContinue \<Rightarrow> moved e r w s'
    | OtaMore rem' cur' pct' \<Rightarrow>
        \<exists>b. moved e (r @ b) (w @ b) s' \<and> b \<noteq> [] \<and> rem' = remaining - int (length b) \<and> 0 \<le> rem' \<and>
          cur' = cur + int (length b)
    | OtaReturn _ \<Rightarrow> True"
proof -
  let ?c = "Httpd (ReqRecv (nat (min remaining 1024)))"
  define n where "n = int_of e (trace s) ?c"
  define b where "b = take (nat n) (bytes_of e (trace s) ?c)"
  let ?s1 = "s\<lparr>trace := trace s @ [?c]\<rparr>"
  let ?w = "Ota (OtaWrite b)"
  let ?s2 = "?s1\<lparr>trace := trace ?s1 @ [?w]\<rparr>"
  have e: "ext s = e" using assms(1) by (simp add: moved_def)
  have "n \<le> int (nat (min remaining 1024))" using assms(2) unfolding recv_law_def n_def by blast
  with assms(3) have nle: "n \<le> remaining" by (simp add: min_def split: if_splits)
  have m1: "moved e (r @ b) w ?s1" using assms(1) by (simp add: moved_def b_def n_def)
  have m2: "moved e (r @ b) (w @ b) ?s2" using assms(1) by (simp add: moved_def b_def n_def)
  show ?thesis
  proof (cases "n \<le> 0")
    case True
    then have "b = []" by (simp add: b_def)
    with True m1 assms(4) e show ?thesis
      by (auto simp: ota_pass_def n_def case_prod_beta split: if_splits)
  next
    case False
    then have "length (bytes_of e (trace s) ?c) = nat n"
      using assms(2) unfolding recv_law_def n_def by (metis not_le)
    then have "length b = nat n" by (simp add: b_def)
    with False have bn: "b \<noteq> []" "int (length b) = n" by auto
    let ?cur = "cur + n" and ?p = "ota_percent (cur + n) total_len"
    show ?thesis
    proof (cases "err_of e (trace ?s1) ?w = ESP_OK")
      case False
      with \<open>\<not> n \<le> 0\<close> e assms(4) show ?thesis
        by (auto simp: ota_pass_def n_def b_def case_prod_beta)
    next
      case True
      have run: "run_state (ota_pass req total_len remaining cur pct) s =
        (if ?p > pct
         then (OtaMore (remaining - n) ?cur ?p, exec (ota_show_progress ?p ?cur total_len) ?s2)
         else (OtaMore (remaining - n) ?cur pct, ?s2))"
        using True \<open>\<not> n \<le> 0\<close> e
        by (simp add: ota_pass_def n_def [symmetric] b_def [symmetric] case_prod_beta Let_def)
      have "moved e (r @ b) (w @ b) s'" "nxt = OtaMore (remaining - n) (cur + n) (if ?p > pct then ?p else pct)"
        using assms(4) keepsD [OF show_progress_moved m2] m2 unfolding run by (auto split: if_splits)
      with bn nle show ?thesis by auto
    qed
  qed
qed

section \<open>The loop\<close>

text \<open>
  If the loop is left at its end, it has written to the flash, in order, exactly the
  bytes the client sent, and their number is what was remaining.
\<close>

lemma ota_loop_moved:
  assumes "ota_loop req total_len remaining cur pct s = Some out"
    and "out = (Inr u, s')" "moved e r w s" "recv_law e"
  shows "\<exists>b. moved e (r @ b) (w @ b) s' \<and> length b = nat remaining"
  using assms
proof (induction arbitrary: r w rule: ota_loop.raw_induct [rotated 1, consumes 1])
  case (1 loop req total_len remaining cur pct s out)
  show ?case
  proof (cases "remaining \<le> 0")
    case True
    with 1 have "s' = s" by auto
    with 1(4) True show ?thesis by (intro exI [of _ "[]"]) simp
  next
    case False
    obtain nxt s1 where p: "run_state (ota_pass req total_len remaining cur pct) s = (nxt, s1)"
      by (cases "run_state (ota_pass req total_len remaining cur pct) s")
    note m = pass_moved [OF 1(4,5) _ p]
    show ?thesis
    proof (cases nxt)
      case OtaContinue
      with 1(2,3) False p have "loop req total_len remaining cur pct s1 = Some out" by simp
      from 1(1) [OF this 1(3) _ 1(5)] m False OtaContinue show ?thesis by simp
    next
      case (OtaMore rem' cur' pct')
      with 1(2,3) False p have l: "loop req total_len rem' cur' pct' s1 = Some out" by simp
      from m False OtaMore obtain b where b: "moved e (r @ b) (w @ b) s1" "0 \<le> rem'"
        "rem' = remaining - int (length b)" by auto
      from 1(1) [OF l 1(3) b(1) 1(5)] obtain b' where
        "moved e ((r @ b) @ b') ((w @ b) @ b') s'" "length b' = nat rem'" by blast
      then show ?thesis using b(2,3) by (intro exI [of _ "b @ b'"]) simp
    next
      case (OtaReturn x)
      with 1(2,3) False p show ?thesis by simp
    qed
  qed
qed

section \<open>Suspension and the boot partition\<close>

text \<open>Whether the new firmware has been made the boot image.\<close>

fun boot_step :: "ext_env \<Rightarrow> call list \<Rightarrow> bool \<Rightarrow> call \<Rightarrow> bool" where
  "boot_step e t b (Ota OtaSetBoot) = (b \<or> err_of e t (Ota OtaSetBoot) = ESP_OK)"
| "boot_step e t b _ = b"

fun boot_rev :: "ext_env \<Rightarrow> call list \<Rightarrow> bool" where
  "boot_rev e [] = False"
| "boot_rev e (c # r) = boot_step e (rev r) (boot_rev e r) c"

definition boot_set :: "ext_env \<Rightarrow> call list \<Rightarrow> bool" where
  "boot_set e t = boot_rev e (rev t)"

lemma boot_set_snoc [simp]: "boot_set e (t @ [c]) = boot_step e t (boot_set e t) c"
  by (simp add: boot_set_def)

definition update_state :: "ext_env \<Rightarrow> bool \<Rightarrow> bool \<Rightarrow> 'x app_api_scheme \<Rightarrow> bool" where
  "update_state e b sus s \<longleftrightarrow> ext s = e \<and> boot_set e (trace s) = b \<and> is_suspended s = sus"

lemma absorbs_update_state: "c \<noteq> Ota OtaSetBoot \<Longrightarrow> absorbs (update_state e b sus) c"
proof -
  assume "c \<noteq> Ota OtaSetBoot"
  then have "boot_step e t x c = x" for t x
    by (cases "(e, t, x, c)" rule: boot_step.cases) auto
  then show ?thesis by (simp add: absorbs_def update_state_def)
qed

lemma app_pred_update_state: "app_pred (update_state e b sus)"
proof (rule app_pred_frame)
  have "low_call c \<Longrightarrow> c \<noteq> Ota OtaSetBoot" for c by (cases c) simp_all
  then show "absorbs_on low_call (update_state e b sus)"
    by (auto simp: absorbs_on_def intro: absorbs_update_state)
qed (auto simp: ignores_def update_state_def ui_fields_free_def ind_fields_free_def)

lemma render_update_state: "keeps (update_state e b sus) render_current_page"
proof (rule render_keeps [OF app_pred_update_state])
  show "render_fields_free (update_state e b sus)"
    by (auto simp: render_fields_free_def ignores_def update_state_def)
qed (auto intro: absorbs_update_state)


text \<open>The manager's two switches.\<close>

lemma update_state_free:
  "render_fields_free (update_state e b sus)" "ignores current_page_update (update_state e b sus)"
  "ignores auto_mode_update (update_state e b sus)" "ignores auto_scroll_timer_update (update_state e b sus)"
  by (auto simp: render_fields_free_def ignores_def update_state_def)

lemma update_state_switch [simp]:
  "update_state e b sus s \<Longrightarrow> update_state e b v (s\<lparr>is_suspended := v\<rparr>)"
  by (simp add: update_state_def)

lemma suspend_triple: "triple (update_state e b x) ui_manager_suspend (\<lambda>_. update_state e b True)"
  unfolding ui_manager_suspend_def
  by (rule triple_bind [where R = "\<lambda>_. update_state e b True"], simp add: triple_def,
      rule triple_keeps)
    (auto intro!: keeps_intro absorbs_update_state)

lemma resume_triple: "triple (update_state e b x) ui_manager_resume (\<lambda>_. update_state e b False)"
  unfolding ui_manager_resume_def
  by (rule triple_bind [where R = "\<lambda>_. update_state e b False"], simp add: triple_def,
      rule triple_keeps)
    (auto intro!: keeps_bind keeps_gets keeps_whenM keeps_calls render_update_state absorbs_update_state)

lemma update_state_keeps:
  "keeps (update_state e b sus) (app_api_return_err req st c nm)"
  "keeps (update_state e b sus) (app_api_return_ok req)"
  "keeps (update_state e b sus) (ui_show_boot_progress m k n)"
  "keeps (update_state e b sus) (ota_show_progress p k n)"
  "keeps (update_state e b sus) (send_ota_progress_event k n)"
proof -
  show "keeps (update_state e b sus) (app_api_return_err req st c nm)"
    "keeps (update_state e b sus) (app_api_return_ok req)"
    unfolding api_defs
    by (auto intro!: keeps_intro simp: update_state_def split: user_ctx.split option.split)
  show ui: "keeps (update_state e b sus) (ui_show_boot_progress m k n)" for m k n
    by (intro app_pred_ui [OF app_pred_update_state])
  show ev: "keeps (update_state e b sus) (send_ota_progress_event k n)" for k n
    unfolding send_ota_progress_event_def
    by (intro keeps_intro queue_keeps) (auto simp: absorbs_update_state ignores_def update_state_def)
  show "keeps (update_state e b sus) (ota_show_progress p k n)"
    unfolding ota_show_progress_def by (intro keeps_bind keeps_whenM ui ev)
qed

lemma update_state_call:
  "c \<noteq> Ota OtaSetBoot \<Longrightarrow> keeps (update_state e b sus) (call_err c)"
  "c \<noteq> Ota OtaSetBoot \<Longrightarrow> keeps (update_state e b sus) (call_bool c)"
  "c \<noteq> Ota OtaSetBoot \<Longrightarrow> keeps (update_state e b sus) (call_err_str c)"
  "c \<noteq> Ota OtaSetBoot \<Longrightarrow> keeps (update_state e b sus) (call_int_bytes c)"
  by (intro keeps_calls absorbs_update_state; simp)+

lemmas update_steps =
  triple_if triple_case_prod triple_bind_keeps [OF update_state_keeps(1)]
  triple_bind_keeps [OF update_state_keeps(3)] triple_bind_keeps [OF update_state_keeps(4)]
  triple_bind_keeps [OF update_state_keeps(5)]
  triple_bind_keeps [OF update_state_call(1)] triple_bind_keeps [OF update_state_call(2)]
  triple_bind_keeps [OF update_state_call(3)] triple_bind_keeps [OF update_state_call(4)]
  triple_bind [OF suspend_triple] triple_bind [OF resume_triple]

lemma begin_triple:
  "triple (update_state e b x) (ota_begin req) (\<lambda>r. update_state e b (r = None))"
  unfolding ota_begin_def by (intro update_steps triple_ret) simp_all

lemma pass_triple:
  "triple (update_state e b True) (ota_pass req n rem cur pct)
     (\<lambda>nxt. update_state e b (case nxt of OtaReturn _ \<Rightarrow> False | _ \<Rightarrow> True))"
  unfolding ota_pass_def Let_def by (intro update_steps triple_ret) simp_all

lemma set_boot_triple:
  "triple (update_state e False True) (call_err (Ota OtaSetBoot)) (\<lambda>r. update_state e (r = ESP_OK) True)"
  by (auto simp: triple_def update_state_def)

lemma finish_triple:
  "triple (update_state e False True) (ota_finish req) (\<lambda>_ s. \<exists>b. update_state e b b s)"
proof -
  let ?Q = "\<lambda>_ s. \<exists>b. update_state e b b s"
  have failed: "triple (update_state e False True)
      (ui_manager_resume \<bind> (\<lambda>_. app_api_return_err req st c nm)) ?Q" for st c nm
    by (intro triple_bind [OF resume_triple] triple_keeps [OF update_state_keeps(1)]) auto
  have booted: "triple (update_state e True True) (do {
      ui_show_boot_progress ''Complete'' (ota_total req) (ota_total req);
      send_ota_progress_event (ota_total req) (ota_total req);
      call_bool (Rtos (TaskCreate ''ota_reboot_task''));
      app_api_return_ok req }) ?Q"
    by (intro update_steps triple_keeps [OF update_state_keeps(2)]) auto
  show ?thesis
    unfolding ota_finish_def Let_def
    by (intro triple_bind_keeps [OF update_state_call(1) [where c = "Ota OtaEnd"]] triple_if failed
        triple_bind [OF set_boot_triple]) (use failed booted in auto)
qed

lemma ota_loop_update_state:
  assumes "ota_loop req total_len remaining cur pct s = Some out"
    and "out = (x, s')" "update_state e b True s"
  shows "update_state e b (x = Inr ()) s'"
  using assms
proof (induction rule: ota_loop.raw_induct [rotated 1, consumes 1])
  case (1 loop req total_len remaining cur pct s out)
  obtain nxt s1 where p: "run_state (ota_pass req total_len remaining cur pct) s = (nxt, s1)"
    by (cases "run_state (ota_pass req total_len remaining cur pct) s")
  from tripleD [OF pass_triple 1(4) p] 1 p show ?case
    by (auto split: if_splits ota_next.splits)
qed

text \<open>
  When the handler returns, the page manager is suspended exactly if the new image was
  made the boot image: every error path resumes it.
\<close>

lemma update_suspended:
  assumes "app_api_ota_update req s = Some (r, s')" "\<not> boot_set (ext s) (trace s)"
  shows "is_suspended s' \<longleftrightarrow> boot_set (ext s) (trace s')"
proof -
  have st: "update_state (ext s) False (is_suspended s) s" using assms(2) by (simp add: update_state_def)
  obtain early s1 where b: "run_state (ota_begin req) s = (early, s1)"
    by (cases "run_state (ota_begin req) s")
  note s1 = tripleD [OF begin_triple st b]
  show ?thesis
  proof (cases early)
    case (Some x)
    with assms(1) b s1 show ?thesis by (simp add: app_api_ota_update_def update_state_def)
  next
    case None
    with assms(1) b obtain x s2 where
      l: "ota_loop req (ota_total req) (ota_total req) 0 (- 1) s1 = Some (x, s2)"
      and f: "(case x of Inl r \<Rightarrow> run_op (ret r) | Inr _ \<Rightarrow> run_op (ota_finish req)) s2 = Some (r, s')"
      by (auto simp: app_api_ota_update_def then_pop_Some)
    from ota_loop_update_state [OF l refl] s1 None
    have s2: "update_state (ext s) False (x = Inr ()) s2" by simp
    show ?thesis
    proof (cases x)
      case (Inl y)
      with s2 f show ?thesis by (simp add: update_state_def)
    next
      case (Inr u)
      with f have "run_state (ota_finish req) s2 = (r, s')" by simp
      from tripleD [OF finish_triple _ this] s2 Inr show ?thesis by (auto simp: update_state_def)
    qed
  qed
qed

text \<open>
  If it was, the flash holds, in order, exactly the bytes received for this request,
  and as many as the request announced.
\<close>

lemma begin_moved: "keeps (moved e r w) (ota_begin req)"
  unfolding ota_begin_def
  by (intro keeps_bind keeps_case_prod keeps_if keeps_ret keeps_calls absorbs_moved manager_moved
      return_moved app_pred_ui [OF app_pred_moved]) simp_all

lemma finish_moved: "keeps (moved e r w) (ota_finish req)"
  unfolding ota_finish_def Let_def
  by (intro keeps_bind keeps_if keeps_ret keeps_calls absorbs_moved manager_moved return_moved
      progress_event_moved app_pred_ui [OF app_pred_moved]) simp_all

lemma booted_flash:
  assumes "app_api_ota_update req s = Some (r, s')" "\<not> boot_set (ext s) (trace s)"
    and "recv_law (ext s)" "boot_set (ext s) (trace s')"
  shows "\<exists>b. received (ext s) (trace s') = received (ext s) (trace s) @ b \<and>
    flashed (trace s') = flashed (trace s) @ b \<and> length b = nat (ota_total req)"
proof -
  let ?e = "ext s" and ?r = "received (ext s) (trace s)" and ?w = "flashed (trace s)"
  have st: "update_state ?e False (is_suspended s) s" "moved ?e ?r ?w s"
    using assms(2) by (simp_all add: update_state_def moved_def)
  obtain early s1 where b: "run_state (ota_begin req) s = (early, s1)"
    by (cases "run_state (ota_begin req) s")
  note s1 = tripleD [OF begin_triple st(1) b]
  have m1: "moved ?e ?r ?w s1" using keepsD [OF begin_moved st(2), of req] b by simp
  have "early = None"
    using assms(1,4) b s1 by (cases early) (auto simp: app_api_ota_update_def update_state_def)
  with assms(1) b obtain x s2 where
    l: "ota_loop req (ota_total req) (ota_total req) 0 (- 1) s1 = Some (x, s2)"
    and f: "(case x of Inl r \<Rightarrow> run_op (ret r) | Inr _ \<Rightarrow> run_op (ota_finish req)) s2 = Some (r, s')"
    by (auto simp: app_api_ota_update_def then_pop_Some)
  have "x = Inr ()"
    using assms(4) f ota_loop_update_state [OF l refl] s1 \<open>early = None\<close>
    by (cases x) (auto simp: update_state_def)
  with l f ota_loop_moved [OF l _ m1 assms(3)] obtain b where
    "moved ?e (?r @ b) (?w @ b) s2" "length b = nat (ota_total req)"
    "run_state (ota_finish req) s2 = (r, s')" by auto
  with keepsD [OF finish_moved, of ?e "?r @ b" "?w @ b" s2 req] show ?thesis
    by (auto simp: moved_def)
qed

section \<open>What the loop keeps\<close>

lemma ota_loop_keeps:
  assumes "ota_loop req total_len remaining cur pct s = Some out" "P s"
    and "\<And>rem cur pct. keeps P (ota_pass req total_len rem cur pct)"
  shows "P (snd out)"
  using assms
proof (induction rule: ota_loop.raw_induct [rotated 1, consumes 1])
  case (1 loop req total_len remaining cur pct s out)
  obtain nxt s1 where p: "run_state (ota_pass req total_len remaining cur pct) s = (nxt, s1)"
    by (cases "run_state (ota_pass req total_len remaining cur pct) s")
  with keepsD [OF 1(4) 1(3), of remaining cur pct] have "P s1" by simp
  with 1 p show ?case by (cases nxt) (auto split: if_splits)
qed

end
