(* ===== verification/Cyclic_Task.thy ===== *)
theory Cyclic_Task
  imports Ws_Queue
begin

text \<open>
  \<open>components/cyclic_task\<close>: every interval, a reading of the sensors is queued for the
  WebSocket client as JSON. One round of the task is an operation.
\<close>

abbreviation (input) CYCLIC_TASK_ENV_INTERVAL_MS :: nat where "CYCLIC_TASK_ENV_INTERVAL_MS \<equiv> 5000"

definition env_json :: "env_data \<Rightarrow> u32 \<Rightarrow> u32 \<Rightarrow> string" where
  "env_json env free_heap uptime_sec =
     ''{\"temp\":'' @ fmt_float 1 (temp_aht env) @ '',\"hum\":'' @ fmt_float 0 (hum_aht env) @
     '',\"pres\":'' @ fmt_float 1 (pres_bmp env) @ '',\"ram\":'' @ dec_str (unat free_heap) @
     '',\"up\":'' @ dec_str (unat uptime_sec) @ ''}''"

definition env_monitor_round :: "('x ws_queue_scheme, unit) op" where
  "env_monitor_round = do {
     d0 \<leftarrow> gets (\<lambda>s. stack_env s (trace s));
     (err, env) \<leftarrow> env_sensors_read_all (Some d0);
     (case (err = ESP_OK, env) of
        (True, Some env) \<Rightarrow> do {
          free_heap \<leftarrow> call_word (Time FreeHeap);
          uptime_sec \<leftarrow> uptime_seconds;
          ws_queue_send WS_EVENT_TYPE_ENV_UPDATE (c_trunc 128 (env_json env free_heap uptime_sec));
          ret ()
        }
      | _ \<Rightarrow> ret ());
     vTaskDelay CYCLIC_TASK_ENV_INTERVAL_MS
   }"

definition cyclic_task_env_init :: "('x ws_queue_scheme, esp_err_t) op" where
  "cyclic_task_env_init = do {
     task_created \<leftarrow> call_bool (Rtos (TaskCreate ''env_task''));
     ret (if task_created then ESP_OK else ESP_ERR_NO_MEM)
   }"

section \<open>The buffer is large enough\<close>

lemma length_dec_u32: "length (dec_str (unat (w :: u32))) \<le> 10"
proof -
  have "unat w < 2 ^ 32" using unsigned_less [of w] by simp
  then have "unat w < 10 ^ 10" by simp
  then show ?thesis by (rule length_dec_str) simp
qed

lemma length_env_json:
  assumes "reading_printable d"
  shows "length (env_json d free up) \<le> 108"
proof -
  from assms obtain h t where ht: "hum_aht d = Finite h" "temp_aht d = Finite t" "0 \<le> h"
    "h \<le> 100 + 1 / 1000" "- 50 - 1 / 1000 \<le> t" "t \<le> 150 + 1 / 1000" and p: "float_wf (pres_bmp d)"
    by (auto simp: reading_printable_def aht_in_range_def)
  have "\<bar>h\<bar> * 10 ^ 0 + 1 / 2 < 10 ^ (3 + 0)" using ht(3,4) by simp
  then have lh: "length (fmt_fixed 0 h) \<le> 3" using length_fmt_fixed [of h 0 3] ht(3) by simp
  have "\<bar>t\<bar> * 10 ^ 1 + 1 / 2 < 10 ^ (3 + 1)" using ht(5,6) by (auto simp: abs_if)
  then have lt: "length (fmt_fixed 1 t) \<le> 6"
    using length_fmt_fixed [of t 1 3] by (simp split: if_splits)
  show ?thesis
    using lh lt length_fmt_float_wf [OF p] length_dec_u32 [of free] length_dec_u32 [of up]
    by (simp add: env_json_def ht)
qed

lemma env_json_not_cut: "reading_printable d \<Longrightarrow> c_trunc 128 (env_json d free up) = env_json d free up"
  using length_env_json [of d free up] by (simp add: c_trunc_def)

section \<open>What the operations keep\<close>

lemma env_monitor_keeps:
  assumes "absorbs_on hw_neutral P" "ignores bmp_calib_update P" "ignores t_fine_update P"
    and "\<And>c. absorbs P (Time c)" "\<And>ev d. keeps P (ws_queue_send ev d)"
  shows "keeps P env_monitor_round"
  using assms(4,5) env_keeps [OF assms(1-3)] absorbs_onD [OF assms(1)]
  unfolding env_monitor_round_def uptime_seconds_def
  by (auto intro!: keeps_bind keeps_gets keeps_ret keeps_calls keeps_case_prod
      split: bool.split option.split prod.split)

lemma env_monitor_owned: "keeps (owned B) env_monitor_round"
proof (rule env_monitor_keeps)
  have "hw_neutral c \<Longrightarrow> not_queue c" for c by (cases c) simp_all
  then show "absorbs_on hw_neutral (owned B)" by (auto simp: absorbs_on_def intro: absorbs_owned)
next
  fix ev d show "keeps (owned B) (ws_queue_send ev d)" by (rule keepsI) (rule wsq.send_valid)
qed (auto simp: ignores_def owned_def pending_def heap_wf_def absorbs_def)

end
