(* ===== verification/Storage.thy ===== *)
theory Storage
  imports Helper
begin

text \<open>
  \<open>components/storage\<close>: mounting the LittleFS partition and reading
  \<open>/storage/config.json\<close> over built-in defaults. A \<open>char\<close> array of the
  configuration is the C string it holds. cJSON nodes are values here, so
  \<open>cJSON_Delete\<close> has no counterpart; the file buffer is a heap block.
\<close>

section \<open>State and operations\<close>

record system_config =
  cfg_ip :: string
  cfg_gateway :: string
  cfg_netmask :: string
  cfg_dns :: string
  cfg_https_port :: int
  cfg_ntp_server :: string
  cfg_ntp_timezone :: string
  cfg_default_password :: string

definition storage_init :: "('x platform_scheme, esp_err_t) op" where
  "storage_init = do {
     r \<leftarrow> call_err (Fs LittlefsRegister);
     if r \<noteq> ESP_OK then ret r
     else do {
       r \<leftarrow> call_err (Fs LittlefsInfo);
       if r \<noteq> ESP_OK then ret r else ret ESP_OK
     }
   }"

text \<open>The values written before the file is read (\<open>memset\<close> and four \<open>strncpy\<close>).\<close>

definition config_defaults :: system_config where
  "config_defaults =
     \<lparr>cfg_ip = [], cfg_gateway = [], cfg_netmask = [], cfg_dns = [], cfg_https_port = 443,
      cfg_ntp_server = c_trunc 64 ''pool.ntp.org'',
      cfg_ntp_timezone = c_trunc 64 ''CET-1CEST,M3.5.0,M10.5.0/3'',
      cfg_default_password = c_trunc 64 ''admin''\<rparr>"

text \<open>The macro: an array of \<open>n\<close> bytes takes a string member, anything else leaves it alone.\<close>

definition GET_STRING_SAFE :: "ext_env \<Rightarrow> nat \<Rightarrow> string \<Rightarrow> cjson \<Rightarrow> string \<Rightarrow> string" where
  "GET_STRING_SAFE e n target_arr json_obj key =
     (let item = cJSON_GetObjectItem e (Some json_obj) key
      in if cJSON_IsString item
         then (case valuestring item of Some v \<Rightarrow> c_trunc n v | None \<Rightarrow> target_arr)
         else target_arr)"

definition config_strings :: "ext_env \<Rightarrow> cjson \<Rightarrow> system_config \<Rightarrow> system_config" where
  "config_strings e json c =
     c\<lparr>cfg_ip := GET_STRING_SAFE e 16 (cfg_ip c) json ''ip'',
       cfg_gateway := GET_STRING_SAFE e 16 (cfg_gateway c) json ''gateway'',
       cfg_netmask := GET_STRING_SAFE e 16 (cfg_netmask c) json ''netmask'',
       cfg_dns := GET_STRING_SAFE e 16 (cfg_dns c) json ''dns'',
       cfg_ntp_server := GET_STRING_SAFE e 64 (cfg_ntp_server c) json ''ntp_server'',
       cfg_ntp_timezone := GET_STRING_SAFE e 64 (cfg_ntp_timezone c) json ''ntp_timezone'',
       cfg_default_password := GET_STRING_SAFE e 64 (cfg_default_password c) json ''default_password''\<rparr>"

text \<open>
  The port member: a number is taken as it is, a string goes through \<open>atoi\<close> (which
  reads its argument, so a string node without text is a fault).
\<close>

definition config_port :: "ext_env \<Rightarrow> cjson \<Rightarrow> int \<Rightarrow> ('x platform_scheme, int) op" where
  "config_port e json port = do {
     let port_item = cJSON_GetObjectItem e (Some json) ''port'';
     if port_item = None then ret port
     else if cJSON_IsNumber port_item then ret (valueint port_item)
     else if cJSON_IsString port_item then
       (case valuestring port_item of
          Some v \<Rightarrow> ret (atoi v)
        | None \<Rightarrow> do { modify (\<lambda>s. s\<lparr>mem_fault := True\<rparr>); ret 0 })
     else ret port
   }"

definition clamp_port :: "int \<Rightarrow> int" where
  "clamp_port p = (if p \<le> 0 \<or> p > 65535 then 443 else p)"

text \<open>\<open>config\<close> is the caller's struct, \<open>None\<close> for a null pointer.\<close>

definition storage_load_system_config ::
  "system_config option \<Rightarrow> ('x platform_scheme, esp_err_t \<times> system_config option) op" where
  "storage_load_system_config config =
     (case config of
        None \<Rightarrow> ret (ESP_ERR_INVALID_ARG, None)
      | Some _ \<Rightarrow> do {
          let c = config_defaults;
          buffer \<leftarrow> helper_read_file_to_buffer ''/storage/config.json'';
          (case buffer of
             None \<Rightarrow> ret (ESP_OK, Some c)
           | Some p \<Rightarrow> do {
               contents \<leftarrow> read_str p;
               e \<leftarrow> gets ext;
               (case cJSON_Parse e contents of
                  None \<Rightarrow> do { free_str p; ret (ESP_FAIL, Some c) }
                | Some json \<Rightarrow> do {
                    let c = config_strings e json c;
                    port \<leftarrow> config_port e json (cfg_https_port c);
                    let c = c\<lparr>cfg_https_port := clamp_port port\<rparr>;
                    free_str p;
                    ret (ESP_OK, Some c)
                  })
             })
        })"

lemmas storage_defs =
  storage_init_def config_defaults_def GET_STRING_SAFE_def config_strings_def config_port_def
  clamp_port_def storage_load_system_config_def

section \<open>What a loaded configuration satisfies\<close>

text \<open>Every string fits its array with its terminator and the port is one a socket can bind.\<close>

definition config_wf :: "system_config \<Rightarrow> bool" where
  "config_wf c \<longleftrightarrow>
     length (cfg_ip c) < 16 \<and> length (cfg_gateway c) < 16 \<and> length (cfg_netmask c) < 16 \<and>
     length (cfg_dns c) < 16 \<and> 1 \<le> cfg_https_port c \<and> cfg_https_port c \<le> 65535 \<and>
     length (cfg_ntp_server c) < 64 \<and> length (cfg_ntp_timezone c) < 64 \<and>
     length (cfg_default_password c) < 64"

lemma get_string_length:
  "length t < n \<Longrightarrow> length (GET_STRING_SAFE e n t json k) < n"
  by (auto simp: GET_STRING_SAFE_def Let_def cstr_simps split: option.split)

lemma config_defaults_wf [simp]: "config_wf config_defaults"
  by (simp add: config_wf_def config_defaults_def c_trunc_def)

lemma config_strings_wf: "config_wf c \<Longrightarrow> config_wf (config_strings e json c)"
  by (simp add: config_wf_def config_strings_def get_string_length)

lemma config_clamp_wf: "config_wf c \<Longrightarrow> config_wf (c\<lparr>cfg_https_port := clamp_port p\<rparr>)"
  by (simp add: config_wf_def clamp_port_def)

section \<open>The file buffer\<close>

lemma run_config_port:
  "run_state (config_port e json p) s =
     (let item = cJSON_GetObjectItem e (Some json) ''port''
      in (if item = None then p
          else if cJSON_IsNumber item then valueint item
          else if cJSON_IsString item
          then (case valuestring item of Some v \<Rightarrow> atoi v | None \<Rightarrow> 0) else p,
          if item = Some (CString None) then s\<lparr>mem_fault := True\<rparr> else s))"
  by (cases "cJSON_GetObjectItem e (Some json) ''port''" rule: cJSON_IsString.cases)
    (auto simp: config_port_def Let_def split: option.split)

lemma heap_free_new: "heap s = (h(p := Some v)) \<Longrightarrow> h p = None \<Longrightarrow> heap (exec (free_str p) s) = h"
  by (simp add: run_free_str fun_upd_idem)

lemma run_load_config:
  "run_state (storage_load_system_config (Some c0)) s =
    (let s1 = exec (helper_read_file_to_buffer ''/storage/config.json'') s
     in case result (helper_read_file_to_buffer ''/storage/config.json'') s of
          None \<Rightarrow> ((ESP_OK, Some config_defaults), s1)
        | Some p \<Rightarrow>
            (let s2 = exec (read_str p) s1; contents = result (read_str p) s1
             in case cJSON_Parse (ext s2) contents of
                  None \<Rightarrow> ((ESP_FAIL, Some config_defaults), exec (free_str p) s2)
                | Some json \<Rightarrow>
                    (let c = config_strings (ext s2) json config_defaults;
                         r = run_state (config_port (ext s2) json (cfg_https_port c)) s2
                     in ((ESP_OK, Some (c\<lparr>cfg_https_port := clamp_port (fst r)\<rparr>)),
                         exec (free_str p) (snd r)))))"
  by (simp add: storage_load_system_config_def Let_def case_prod_beta split: option.split)

lemma load_config_wf:
  "case snd (result (storage_load_system_config (Some c0)) s) of
     Some c \<Rightarrow> config_wf c | None \<Rightarrow> False"
  by (simp add: run_load_config Let_def config_strings_wf config_clamp_wf split: option.split)

lemma load_config_heap:
  assumes "heap_wf s"
  shows "heap (exec (storage_load_system_config config) s) = heap s"
proof (cases config)
  case None
  then show ?thesis by (simp add: storage_load_system_config_def)
next
  case (Some c0)
  let ?r = "helper_read_file_to_buffer ''/storage/config.json'' :: (_, nat option) op"
  show ?thesis
  proof (cases "result ?r s")
    case None
    with Some read_file_heap [OF assms, of "''/storage/config.json''"] show ?thesis
      by (simp add: run_load_config)
  next
    case p: (Some p)
    from p read_file_heap [OF assms, of "''/storage/config.json''"] obtain v
      where free: "heap s p = None" and h: "heap (exec ?r s) = (heap s)(p := Some v)"
      by auto
    then have rd: "run_state (read_str p) (exec ?r s) = (v, exec ?r s)"
      by (simp add: run_read_str)
    have port: "heap (snd (run_state (config_port e j n) (exec ?r s))) = heap (exec ?r s)" for e j n
      by (simp add: run_config_port Let_def)
    show ?thesis
      using Some p rd free h port
      by (simp add: run_load_config Let_def heap_free_new split: option.split)
  qed
qed

end
