(* ===== verification/App_Main.thy ===== *)
theory App_Main
  imports App_Api_Ota Cyclic_Task Storage Main_Callbacks
begin

text \<open>
  \<open>app_main\<close> of \<open>main/main.c\<close>: the thirteen stages of the boot in order. A failed
  stage before the screen works aborts (\<open>ESP_ERROR_CHECK\<close>), a later one shows the
  error and halts (\<open>CHECK_CRITICAL\<close>); both are \<open>None\<close>, so that a result means the
  boot went through.
\<close>

section \<open>Checks\<close>

definition ESP_ERROR_CHECK :: "('s, esp_err_t) op \<Rightarrow> ('s, unit) pop" where
  "ESP_ERROR_CHECK m =
     then_pop (run_op m) (\<lambda>err s. if err \<noteq> ESP_OK then None else Some ((), s))"

definition CHECK_CRITICAL :: "('x ui_scheme, esp_err_t) pop \<Rightarrow> string \<Rightarrow> ('x ui_scheme, unit) pop" where
  "CHECK_CRITICAL m msg =
     then_pop m (\<lambda>err.
       if err \<noteq> ESP_OK then
         then_pop (run_op (do { sys_ind_set_error True; sys_ind_fixed_buzzer_sound 2 }))
           (\<lambda>_ s. map_option (Pair ()) (ui_show_critical_error msg err s))
       else run_op (ret ()))"

abbreviation TOTAL_STEPS :: int where "TOTAL_STEPS \<equiv> 13"

definition boot_stage :: "string \<Rightarrow> int \<Rightarrow> ('x ui_scheme, unit) pop" where
  "boot_stage task_name current_step = run_op (ui_show_boot_progress task_name current_step TOTAL_STEPS)"

definition boot_cooldown :: "('x platform_scheme, unit) pop" where
  "boot_cooldown = run_op (vTaskDelay 100)"

fun pop_seq :: "('s, unit) pop list \<Rightarrow> ('s, unit) pop" where
  "pop_seq [] s = Some ((), s)"
| "pop_seq (p # ps) s = then_pop p (\<lambda>_. pop_seq ps) s"

section \<open>Configurations\<close>

definition https_cfg :: "system_config \<Rightarrow> ('x app_api_scheme) https_config" where
  "https_cfg c =
     \<lparr>srv_port = word_of_int (cfg_https_port c), cacert_path = ''/storage/cacert.pem'',
      prvtkey_path = ''/storage/prvtkey.pem'', endpoints = app_api_get_endpoints,
      create_request_ctx = Some app_api_create_ctx, handle_response = Some app_api_handle_response,
      on_running = Some on_server_running, on_stop = Some on_server_stop,
      on_error = Some on_server_error, auth_cb = Some app_api_check_auth,
      on_request_success = Some on_command_action, on_request_error = Some on_command_error\<rparr>"

definition eth_cfg :: "system_config \<Rightarrow> eth_config" where
  "eth_cfg c = \<lparr>eth_ip = Some (cfg_ip c), eth_gateway = cfg_gateway c, eth_netmask = cfg_netmask c,
     eth_dns = Some (cfg_dns c)\<rparr>"

definition eth_callbacks_main :: "('x sys_ind_scheme) eth_callbacks" where
  "eth_callbacks_main = \<lparr>on_link_state_changed = Some sys_ind_led_eth_set_link,
     on_packet_received = Some sys_ind_led_eth_packet_activity\<rparr>"

definition nvs_entries :: "system_config \<Rightarrow> nvs_entry list" where
  "nvs_entries c =
     [\<lparr>nvs_key = Some AUTH_NVS_KEY, nvs_value = Some (cfg_default_password c)\<rparr>,
      \<lparr>nvs_key = Some AUTH_NVS_DEFAULT_KEY, nvs_value = Some (cfg_default_password c)\<rparr>]"

section \<open>The boot\<close>

definition boot_hardware :: "('x app_api_scheme, unit) pop" where
  "boot_hardware = pop_seq
     [ESP_ERROR_CHECK i2c_bus_init, ESP_ERROR_CHECK io_expander_init, ESP_ERROR_CHECK sys_ind_init,
      ESP_ERROR_CHECK ui_init,
      boot_stage ''Booting...'' 1, boot_cooldown]"

text \<open>\<open>nvs_manager_init\<close> aborts when the flash cannot be erased.\<close>

definition nvs_init_pop :: "('x platform_scheme, esp_err_t) pop" where
  "nvs_init_pop =
     then_pop (run_op nvs_manager_init) (\<lambda>r s. case r of None \<Rightarrow> None | Some err \<Rightarrow> Some (err, s))"

definition boot_storage :: "('x app_api_scheme, unit) pop" where
  "boot_storage = pop_seq
     [boot_stage ''Init env sensors'' 2,
      CHECK_CRITICAL (run_op env_sensors_init) ''Env sensors fail'', boot_cooldown,
      boot_stage ''Init NVS flash'' 3,
      CHECK_CRITICAL nvs_init_pop ''NVS init fail'', boot_cooldown,
      boot_stage ''Mounting storage'' 4,
      CHECK_CRITICAL (run_op storage_init) ''Storage fail'', boot_cooldown]"

text \<open>Stage 5: the configuration; only a loaded one gets past the check.\<close>

definition boot_config :: "('x app_api_scheme, system_config) pop" where
  "boot_config =
     then_pop (boot_stage ''Loading config'' 5) (\<lambda>_.
     then_pop (run_op (storage_load_system_config (Some config_defaults))) (\<lambda>(err, cfg).
     then_pop (CHECK_CRITICAL (run_op (ret err)) ''Config fail'') (\<lambda>_ s.
       case cfg of
         None \<Rightarrow> None
       | Some c \<Rightarrow>
           then_pop (CHECK_CRITICAL
             (run_op (nvs_manager_save_strings_batch AUTH_NVS_NS (Some (nvs_entries c))))
             ''NVS persist fail'') (\<lambda>_.
           then_pop boot_cooldown (\<lambda>_. run_op (ret c))) s)))"

definition boot_services :: "system_config \<Rightarrow> ('x app_api_scheme, unit) pop" where
  "boot_services c = pop_seq
     [boot_stage ''Config IO ports'' 6,
      CHECK_CRITICAL (run_op (io_input_init (Some io_button_get_buttons))) ''IO input fail'',
      CHECK_CRITICAL (run_op uart_bus_rs485_init) ''RS485 fail'',
      CHECK_CRITICAL (run_op uart_bus_rs232_init) ''RS232 fail'', boot_cooldown,
      boot_stage ''Start services'' 7,
      CHECK_CRITICAL (run_op (call_err (Net NetifInit))) ''Netif fail'',
      CHECK_CRITICAL (run_op (call_err (Net EventLoopCreate))) ''EventLoop fail'',
      CHECK_CRITICAL (run_op (call_err (Net GpioIsrInstall))) ''GPIO ISR fail'', boot_cooldown,
      boot_stage ''Config HTTPS'' 8,
      CHECK_CRITICAL (run_op ws_queue_init) ''WS queue fail'',
      CHECK_CRITICAL (run_op ws_dispatcher_init) ''WS disp fail'',
      CHECK_CRITICAL (run_op (ws_cmd_router_init True True)) ''WS router fail'',
      CHECK_CRITICAL (run_op (https_server_service_init (Some (https_cfg c)))) ''HTTPS fail'',
      boot_cooldown]"

definition boot_network :: "system_config \<Rightarrow> ('x app_api_scheme, unit) pop" where
  "boot_network c = pop_seq
     [boot_stage ''Init Ethernet'' 9,
      CHECK_CRITICAL (run_op (eth_w5500_init (Some (eth_cfg c)))) ''Ethernet fail'',
      boot_stage ''Check eth link'' 10,
      (\<lambda>s. map_option (Pair ()) (eth_w5500_force_link_blocking (Some on_eth_boot_wait) s)),
      boot_cooldown,
      boot_stage ''Start NTP sync'' 11,
      CHECK_CRITICAL (run_op (ntp_service_init (Some (cfg_ntp_server c)) (Some (cfg_ntp_timezone c))))
        ''NTP fail sync'', boot_cooldown,
      boot_stage ''Init tasks'' 12,
      CHECK_CRITICAL (run_op cyclic_task_env_init) ''Tasks fail'', boot_cooldown]"

definition boot_ready :: "('x app_api_scheme, unit) pop" where
  "boot_ready = pop_seq
     [boot_stage ''System ready!'' 13,
      run_op (sys_ind_fixed_buzzer_sound 1),
      run_op (vTaskDelay 500),
      CHECK_CRITICAL (run_op ui_manager_init) ''UI manager fail'']"

text \<open>The result is the configuration, which the server and the network were started with.\<close>

definition app_main :: "('x app_api_scheme, system_config) pop" where
  "app_main =
     then_pop boot_hardware (\<lambda>_.
     then_pop boot_storage (\<lambda>_.
     then_pop boot_config (\<lambda>c.
     then_pop (boot_services c) (\<lambda>_.
     then_pop (boot_network c) (\<lambda>_.
     then_pop boot_ready (\<lambda>_. run_op (ret c)))))))"

section \<open>Checks stop the boot\<close>

lemma halt_loop_None [simp]: "halt_loop s = None"
proof -
  have "halt_loop s = Some r \<Longrightarrow> False" for r
    by (induction rule: halt_loop.raw_induct [rotated 1, consumes 1]) blast
  then show ?thesis by (cases "halt_loop s") auto
qed

lemma critical_error_halts [simp]: "ui_show_critical_error msg err s = None"
  by (simp add: ui_show_critical_error_def)

lemma check_Some:
  "ESP_ERROR_CHECK m s = Some (u, s') \<longleftrightarrow> run_state m s = (ESP_OK, s')"
  by (cases "run_state m s") (auto simp: ESP_ERROR_CHECK_def)

lemma critical_Some: "CHECK_CRITICAL m msg s = Some (u, s') \<longleftrightarrow> m s = Some (ESP_OK, s')"
  by (auto simp: CHECK_CRITICAL_def then_pop_def case_prod_beta split: option.split)

lemma pop_seq_Cons: "pop_seq (p # ps) s = Some r \<longleftrightarrow> (\<exists>s1. p s = Some ((), s1) \<and> pop_seq ps s1 = Some r)"
  by (auto simp: then_pop_Some)

section \<open>What the boot keeps\<close>

lemma keeps_check [keeps_intro]: "keeps P m \<Longrightarrow> keeps_pop P (ESP_ERROR_CHECK m)"
  unfolding keeps_pop_def check_Some keeps_def by (metis snd_conv)

lemma keeps_critical [keeps_intro]: "keeps_pop P m \<Longrightarrow> keeps_pop P (CHECK_CRITICAL m msg)"
  unfolding keeps_pop_def critical_Some by blast

lemma keeps_pop_seq [keeps_intro]: "(\<And>p. p \<in> set ps \<Longrightarrow> keeps_pop P p) \<Longrightarrow> keeps_pop P (pop_seq ps)"
proof (induction ps)
  case Nil
  show ?case by (simp add: keeps_pop_def)
next
  case (Cons p ps)
  then have "keeps_pop P p" "keeps_pop P (pop_seq ps)" by simp_all
  then show ?case unfolding keeps_pop_def pop_seq_Cons by blast
qed

lemma keeps_pop_case [keeps_intro]:
  "(\<And>a. keeps_pop P (f a)) \<Longrightarrow> keeps_pop P (\<lambda>s. case x of None \<Rightarrow> None | Some a \<Rightarrow> f a s)"
  by (cases x) (simp_all add: keeps_pop_def)

end
