(* ===== verification/Firmware.thy ===== *)
theory Firmware
  imports App_Main
begin

text \<open>
  The running firmware: its tasks, timer callbacks, network events and requests as a
  step relation, and what every step keeps. \<open>world_pred\<close> is the class of state
  predicates that no operation of the program can break: they are unaffected by calls
  outside the two-wire bus and the operating system and by the variables of the
  components above the screen, and they are kept by the screen and indicator operations
  (\<open>app_pred\<close>) and by the page carousel.
\<close>

section \<open>Predicates of the whole program\<close>

text \<open>Calls that change what the flash store holds are treated apart: few operations make them.\<close>

fun nvs_write :: "call \<Rightarrow> bool" where
  "nvs_write (Nvs (NvsSetStr _ _ _)) = True"
| "nvs_write (Nvs NvsFlashErase) = True"
| "nvs_write _ = False"

fun soft_call :: "call \<Rightarrow> bool" where
  "soft_call (I2c _) = False"
| "soft_call (Rtos _) = False"
| "soft_call c = (\<not> nvs_write c)"

definition world_fields_free :: "('x app_api_scheme \<Rightarrow> bool) \<Rightarrow> bool" where
  "world_fields_free P \<longleftrightarrow>
     ignores bmp_calib_update P \<and> ignores t_fine_update P \<and> ignores page_mac_buf_update P \<and>
     ignores lcd_backlight_off_update P \<and> ignores btns_update P \<and>
     ignores heap_update P \<and> ignores next_ptr_update P \<and> ignores mem_fault_update P \<and>
     ignores s_ws_queue_update P \<and> ignores s_active_socket_update P \<and> ignores s_server_handle_update P \<and>
     ignores server_update P \<and> ignores cert_buffer_update P \<and> ignores key_buffer_update P \<and>
     ignores server_ctx_update P \<and> ignores api_ctxs_update P \<and> ignores next_ctx_update P"

text \<open>The command table and the callbacks of the router are written once, at boot.\<close>

definition router_fields_free :: "('x app_api_scheme \<Rightarrow> bool) \<Rightarrow> bool" where
  "router_fields_free P \<longleftrightarrow>
     ignores s_commands_update P \<and> ignores s_on_executed_cb_update P \<and> ignores s_on_error_cb_update P"

definition base_pred :: "('x app_api_scheme \<Rightarrow> bool) \<Rightarrow> bool" where
  "base_pred P \<longleftrightarrow> app_pred P \<and> absorbs_on soft_call P \<and> world_fields_free P"

definition world_pred :: "('x app_api_scheme \<Rightarrow> bool) \<Rightarrow> bool" where
  "world_pred P \<longleftrightarrow> base_pred P \<and>
     keeps P auto_scroll_callback \<and> keeps P ui_manager_switch_mode \<and> keeps P ui_manager_manual_mode \<and>
     keeps P ui_manager_suspend \<and> keeps P ui_manager_resume"

lemma base_pred_app: "base_pred P \<Longrightarrow> app_pred P"
  by (simp add: base_pred_def)

lemma base_pred_soft: "base_pred P \<Longrightarrow> soft_call c \<Longrightarrow> absorbs P c"
  by (simp add: base_pred_def absorbs_on_def)

lemma base_pred_free [simplified world_fields_free_def]: "base_pred P \<Longrightarrow> world_fields_free P"
  by (simp add: base_pred_def)

lemma world_pred_base: "world_pred P \<Longrightarrow> base_pred P"
  by (simp add: world_pred_def)

lemma world_pred_manager:
  assumes "world_pred P"
  shows "keeps P auto_scroll_callback" "keeps P ui_manager_switch_mode" "keeps P ui_manager_manual_mode"
    "keeps P ui_manager_suspend" "keeps P ui_manager_resume"
  using assms by (simp_all add: world_pred_def)

lemma base_pred_calls:
  assumes "base_pred P"
  shows "absorbs P (Time t)" "absorbs P (Net n)" "\<not> nvs_write (Nvs v) \<Longrightarrow> absorbs P (Nvs v)" "absorbs P (Uart u)"
    "absorbs P (Queue q)" "absorbs P (Mem m)" "absorbs P (Httpd h)" "absorbs P (Fs f)" "absorbs P (Ota ot)"
    "hw_neutral c \<Longrightarrow> absorbs P c"
  using base_pred_soft [OF assms] app_pred_absorbs [OF base_pred_app [OF assms]] by simp_all

lemma base_pred_nvs: "base_pred P \<Longrightarrow> absorbs_on nvs_write P \<Longrightarrow> absorbs P (Nvs v)"
  using base_pred_calls(3) absorbs_onD by blast

section \<open>What every operation keeps\<close>

lemma world_queue:
  assumes "base_pred P"
  shows "keeps P (ws_queue_send ev d)" "keeps P ws_queue_receive" "keeps P ws_queue_init"
  using base_pred_calls [OF assms] base_pred_free [OF assms] by (auto intro!: queue_keeps)

lemma world_dispatcher:
  assumes "base_pred P"
  shows "keeps P ws_task_round" "keeps P (ws_dispatcher_add_client h sock)"
    "keeps P (ws_dispatcher_remove_client sock)"
  using base_pred_calls [OF assms] base_pred_free [OF assms] by (auto intro!: dispatcher_keeps)

lemma world_memory:
  assumes "base_pred P"
  shows "keeps P (malloc_buf n v)" "keeps P (malloc_str w)" "keeps P (free_str p)" "keeps P (read_str p)"
    "keeps P (free_opt q)" "keeps P (wipe_and_free p)" "keeps P (helper_read_file_to_buffer path)"
proof -
  note free = base_pred_free [OF assms]
  note calls = base_pred_calls [OF assms]
  show base: "keeps P (malloc_buf n v)" "keeps P (malloc_str w)" "keeps P (free_str p)" "keeps P (read_str p)"
    for p
    unfolding malloc_str_def malloc_buf_def free_str_def read_str_def
    using free calls by (auto intro!: keeps_intro simp: ignoresD split: option.split)
  show "keeps P (free_opt q)" "keeps P (wipe_and_free p)"
    unfolding free_opt_def wipe_and_free_def
    using free by (auto intro!: keeps_intro base simp: ignoresD split: option.split)
  show "keeps P (helper_read_file_to_buffer path)"
    using free calls by (auto intro!: read_file_keeps)
qed

text \<open>Once it runs, the firmware writes one entry of the flash store: the active password.\<close>

definition password_pred :: "('x app_api_scheme \<Rightarrow> bool) \<Rightarrow> bool" where
  "password_pred P \<longleftrightarrow> (\<forall>v. keeps P (nvs_manager_save_str AUTH_NVS_NS AUTH_NVS_KEY v))"

lemma password_pred_nvs: "base_pred P \<Longrightarrow> absorbs_on nvs_write P \<Longrightarrow> password_pred P"
  unfolding password_pred_def by (intro allI nvs_keeps(1) base_pred_nvs)

lemma world_nvs:
  assumes "base_pred P"
  shows "keeps P (nvs_manager_load_str ns k n)"
    "password_pred P \<Longrightarrow> keeps P (nvs_manager_save_str AUTH_NVS_NS AUTH_NVS_KEY v)"
  using base_pred_calls [OF assms]
  by (auto intro!: keeps_intro simp: nvs_manager_load_str_def password_pred_def)

lemma world_input:
  assumes "world_pred P" "password_pred P"
  shows "keeps P io_input_round" "keeps P (run_callback cb a)"
proof -
  note free = base_pred_free [OF world_pred_base [OF assms(1)]]
  note app = base_pred_app [OF world_pred_base [OF assms(1)]]
  have cb: "keeps P (run_callback cb a)" for cb a
  proof -
    have "keeps P (on_reset_btn_click a)"
      unfolding on_reset_btn_click_def
      by (intro keeps_if keeps_bind keeps_case_prod keeps_ret world_nvs [OF world_pred_base [OF assms(1)]] assms(2)
          app_pred_ui [OF app])
    moreover note [intro!] = world_pred_manager [OF assms(1)] app_pred_ui [OF app] app_pred_ind [OF app]
    have "keeps P (on_menu_btn_click a)" "keeps P (on_lcd_toggle_backlight a)"
      unfolding button_defs using free by (auto intro!: keeps_intro simp: ignoresD)
    ultimately
    show ?thesis by (cases cb) simp_all
  qed
  then show "keeps P (run_callback cb a)" .
  show "keeps P io_input_round"
    using free cb app_pred_hw [OF app] by (auto intro!: input_round_keeps)
qed

lemma world_env:
  assumes "base_pred P"
  shows "keeps P env_sensors_init" "keeps P (env_sensors_read_all d)" "keeps P env_monitor_round"
  using base_pred_free [OF assms] base_pred_calls [OF assms] world_queue [OF assms]
    app_pred_hw [OF base_pred_app [OF assms]]
  by (auto intro!: env_keeps env_monitor_keeps)

lemma world_callbacks:
  assumes "base_pred P"
  shows "keeps P on_server_running" "keeps P on_server_stop" "keeps P (on_server_error err)"
    "keeps P (on_command_action n)" "keeps P (on_command_error n err)" "keeps P (on_eth_boot_wait b)"
  by (rule callbacks_keep [OF base_pred_app [OF assms]])+

lemma world_handle:
  assumes "base_pred P"
  shows "keeps P (ws_cmd_handle payload)"
  using base_pred_free [OF assms] base_pred_calls [OF assms] world_queue [OF assms]
    base_pred_app [OF assms]
  by (auto intro!: handle_keeps)

lemma world_server:
  assumes "base_pred P"
  shows "keeps P https_server_stop" "keeps P (https_server_start cfg)"
    "keeps P (https_server_connection_handler (Some (https_cfg c)) ev)"
    "keeps P (https_server_service_init (Some (https_cfg c)))"
proof -
  note free = base_pred_free [OF assms]
  note calls = base_pred_calls [OF assms]
  note mem = world_memory [OF assms]
  show stop: "keeps P https_server_stop"
    unfolding https_server_stop_def using free calls by (auto intro!: keeps_intro mem simp: ignoresD)
  have reg: "keeps P (for_each es register_endpoint)" for es
    using calls by (intro register_frame) auto
  show start: "keeps P (https_server_start cfg)" for cfg
    unfolding https_server_start_def
    using free calls by (auto intro!: keeps_intro mem stop reg simp: ignoresD split: option.split)
  show "keeps P (https_server_connection_handler (Some (https_cfg c)) ev)"
    unfolding https_server_connection_handler_def
    by (auto intro!: keeps_intro start stop world_callbacks [OF assms] simp: https_cfg_def split: option.split)
  show "keeps P (https_server_service_init (Some (https_cfg c)))"
    unfolding https_server_service_init_def
    using free calls by (auto intro!: keeps_intro mem simp: ignoresD split: option.split)
qed

lemma world_ctx:
  assumes "base_pred P"
  shows "keeps P (update_ctx req f)" "keeps P (app_api_return_err req st e nm)"
    "keeps P (app_api_return_ok req)" "keeps P (app_api_return_json req j)"
    "keeps P (app_api_create_ctx req)" "keeps P (app_api_handle_response req p r)"
    "keeps P (app_api_check_auth req)"
proof -
  note free = base_pred_free [OF assms]
  note calls = base_pred_calls [OF assms]
  show upd: "keeps P (update_ctx req f)" for f
    unfolding update_ctx_def
    using free by (auto intro!: keeps_intro simp: ignoresD split: user_ctx.split option.split)
  show "keeps P (app_api_return_err req st e nm)" "keeps P (app_api_return_ok req)"
    "keeps P (app_api_return_json req j)"
    unfolding app_api_return_err_def app_api_return_ok_def app_api_return_json_def
    by (auto intro!: keeps_intro upd)
  show "keeps P (app_api_create_ctx req)"
    unfolding app_api_create_ctx_def using free calls by (auto intro!: keeps_intro simp: ignoresD)
  have "keeps P (write_response c)" for c
    unfolding write_response_def send_json_def
    using free calls by (auto intro!: keeps_intro simp: ignoresD split: option.split)
  then show "keeps P (app_api_handle_response req p r)"
    unfolding app_api_handle_response_def Let_def
    using free calls by (auto intro!: keeps_intro simp: ignoresD split: option.split)
  show "keeps P (app_api_check_auth req)"
    unfolding app_api_check_auth_def nvs_manager_load_str_def Let_def using calls by (auto intro!: keeps_intro)
qed

lemma world_ws:
  assumes "base_pred P"
  shows "keeps P (app_api_ws req)"
proof -
  have ask: "keeps P (ask f (Httpd c))" for f and c :: httpd_call
    using base_pred_calls(7) [OF assms, of c] by (simp add: keeps_def run_ask absorbs_def)
  show ?thesis
    unfolding app_api_ws_def
    using base_pred_free [OF assms] base_pred_calls [OF assms]
    by (auto intro!: keeps_intro ask world_memory [OF assms] world_dispatcher [OF assms]
        world_handle [OF assms] simp: ignoresD split: option.split)
qed

lemma world_password:
  assumes "base_pred P" "password_pred P"
  shows "keeps P (app_api_auth_change_password req)" "keeps P (app_api_auth_reset_password req)"
  unfolding app_api_auth_change_password_def app_api_auth_reset_password_def Let_def
  by (intro keeps_if keeps_bind keeps_case_prod keeps_gets keeps_calls base_pred_calls [OF assms(1)]
      world_ctx [OF assms(1)] world_nvs [OF assms(1)] assms(2))+

lemma world_ota:
  assumes "world_pred P"
  shows "keeps_pop P (app_api_ota_update req)" "keeps P ota_reboot_task"
proof -
  note calls = base_pred_calls [OF world_pred_base [OF assms]]
  note ops = world_pred_manager [OF assms] world_ctx [OF world_pred_base [OF assms]] app_pred_ui [OF base_pred_app [OF world_pred_base [OF assms]]]
  have ev: "keeps P (send_ota_progress_event k n)" for k n
    unfolding send_ota_progress_event_def by (auto intro!: keeps_intro world_queue [OF world_pred_base [OF assms]])
  have pass: "keeps P (ota_pass req n rem cur pct)" for n rem cur pct
    unfolding ota_pass_def ota_show_progress_def Let_def
    using calls by (auto intro!: keeps_intro ev ops)
  have loop: "keeps_pop P (ota_loop req n rem cur pct)" for n rem cur pct
    unfolding keeps_pop_def
    by (intro allI impI, erule ota_loop_keeps [where out = "(_, _)", simplified]) (simp_all add: pass)
  have "keeps P (ota_begin req)" "keeps P (ota_finish req)"
    unfolding ota_begin_def ota_finish_def Let_def
    using calls by (auto intro!: keeps_intro ev ops)
  then show "keeps_pop P (app_api_ota_update req)"
    unfolding app_api_ota_update_def
    by (auto intro!: keeps_intro loop split: option.split sum.split)
  show "keeps P ota_reboot_task"
    unfolding ota_reboot_task_def using calls by (auto intro!: keeps_intro ops)
qed

section \<open>Requests\<close>

lemma world_endpoint:
  assumes "world_pred P" "ep \<in> set app_api_get_endpoints" "ep_handler ep = Some h"
    and "password_pred P \<or> ep_uri ep = ''/api/update'' \<or> ep_is_ws ep"
  shows "keeps_pop P (h req)"
  using assms(2-4) world_password [OF world_pred_base [OF assms(1)]] world_ws [OF world_pred_base [OF assms(1)]] world_ota [OF assms(1)]
  by (auto simp: app_api_get_endpoints_def intro!: keeps_run_op)

lemma world_finish:
  assumes "base_pred P"
  shows "keeps P (middleware_finish (Some (https_cfg c)) ep req p r)"
  unfolding middleware_finish_def https_cfg_def
  by (auto intro!: keeps_intro world_ctx [OF assms] world_callbacks [OF assms])

lemma world_middleware:
  assumes "world_pred P" "ep \<in> set app_api_get_endpoints"
    and "password_pred P \<or> ep_uri ep = ''/api/update'' \<or> ep_is_ws ep"
  shows "keeps_pop P (http_middleware (Some (https_cfg c)) (Some ep) req)"
proof -
  note ctx = world_ctx [OF world_pred_base [OF assms(1)]]
  note calls = base_pred_calls [OF world_pred_base [OF assms(1)]]
  have auth: "keeps P (middleware_auth (Some (https_cfg c)) ep req)"
    unfolding middleware_auth_def https_cfg_def by (auto intro!: keeps_intro ctx)
  have create: "keeps P (middleware_ctx (Some (https_cfg c)) req)"
    unfolding middleware_ctx_def https_cfg_def by (auto intro!: ctx)
  note finish = world_finish [OF world_pred_base [OF assms(1)]]
  show ?thesis
    unfolding http_middleware_def
    using calls auth create finish world_endpoint [OF assms(1,2) _ assms(3)]
    by (auto intro!: keeps_intro split: option.split)
qed

lemma world_ws_auth:
  "base_pred P \<Longrightarrow> keeps P (ws_auth_callback (Some (https_cfg c)) req)"
  unfolding ws_auth_callback_def https_cfg_def
  by (auto intro!: keeps_intro world_ctx)

section \<open>The boot\<close>

lemma link_keeps:
  assumes "\<And>n. keeps P (eth_w5500_wait_for_link n)" "\<And>b. keeps P (cb b)" "absorbs P (Rtos (TaskDelay 100))"
  shows "keeps_pop P (\<lambda>s. map_option (Pair ()) (eth_w5500_force_link_blocking (Some cb) s))"
proof -
  have "keeps P (do { cb False; vTaskDelay 100 })" using assms(2,3) by (auto intro!: keeps_intro)
  note round = keepsD [OF this keepsD [OF assms(1)]]
  have "P (link_round (Some cb) s)" if "P s" for s
    unfolding link_round_def option.case using that by (rule round)
  then have rounds: "P ((link_round (Some cb) ^^ k) s)" if "P s" for s k
    using that by (induction k) simp_all
  have loop: "P s'" if "link_wait_loop (Some cb) s = Some s'" "P s" for s s'
    using link_wait_loop_returns [OF that(1)] rounds [OF that(2)] keepsD [OF assms(1)] by blast
  show ?thesis
    unfolding keeps_pop_def eth_w5500_force_link_blocking_def Let_def
    using keepsD [OF assms(1)] keepsD [OF assms(2)] loop
    by (auto split: if_splits prod.splits) (metis snd_conv)+
qed

text \<open>The stages' operations, one by one.\<close>

lemma boot_nvs_keep:
  assumes "base_pred P" "absorbs_on nvs_write P"
  shows "keeps_pop P nvs_init_pop" "keeps P (nvs_manager_save_strings_batch ns es)"
proof -
  note nvs = nvs_keeps [OF base_pred_nvs [OF assms]]
  show "keeps P (nvs_manager_save_strings_batch ns es)" by (rule nvs)
  show "keeps_pop P nvs_init_pop"
    using keepsD [OF nvs(3)]
    unfolding nvs_init_pop_def keeps_pop_def then_pop_Some
    by (auto split: option.splits) (metis snd_conv)
qed

lemma boot_ops_keep:
  assumes "base_pred P"
  shows "keeps_pop P (boot_stage m k)" "keeps_pop P boot_cooldown" "keeps P storage_init" "keeps P env_sensors_init" "keeps P (storage_load_system_config d)"
    "keeps P (io_input_init bs)" "router_fields_free P \<Longrightarrow> keeps P (ws_cmd_router_init x y)"
    "keeps P uart_bus_rs485_init" "keeps P uart_bus_rs232_init"
    "keeps P (call_err (Net NetifInit))" "keeps P (call_err (Net EventLoopCreate))"
    "keeps P (call_err (Net GpioIsrInstall))" "keeps P ws_queue_init" "keeps P ws_dispatcher_init"
    "keeps P (https_server_service_init hc)" "keeps P (eth_w5500_init ec)"
    "keeps_pop P (\<lambda>s. map_option (Pair ()) (eth_w5500_force_link_blocking (Some on_eth_boot_wait) s))"
    "keeps P (ntp_service_init srv tz)" "keeps P cyclic_task_env_init"
proof -
  note calls = base_pred_calls [OF assms(1)]
  note free = base_pred_free [OF assms(1)]
  note app = base_pred_app [OF assms(1)]
  show "keeps_pop P (boot_stage m k)" "keeps_pop P boot_cooldown"
    unfolding boot_stage_def boot_cooldown_def
    using calls by (auto intro!: keeps_intro app_pred_ui [OF app])
  show "keeps P env_sensors_init" by (rule world_env [OF assms(1)])
  show "keeps P storage_init" unfolding storage_init_def using calls by (auto intro!: keeps_intro)
  show "keeps P (storage_load_system_config d)"
    unfolding storage_load_system_config_def config_port_def Let_def
    using calls free
    by (auto intro!: keeps_intro world_memory [OF assms(1)] simp: ignoresD split: option.split)
  show "keeps P (ws_cmd_router_init x y)" if "router_fields_free P"
    unfolding ws_cmd_router_init_def ws_cmd_register_def Let_def
    using that by (auto intro!: keeps_intro simp: router_fields_free_def ignoresD split: option.split)
  show "keeps P (io_input_init bs)" "keeps P uart_bus_rs485_init" "keeps P uart_bus_rs232_init"
    unfolding io_input_init_def Let_def uart_bus_rs485_init_def uart_bus_rs232_init_def
    using free calls by (auto intro!: keeps_intro simp: ignoresD split: option.split)
  show "keeps P (call_err (Net NetifInit))" "keeps P (call_err (Net EventLoopCreate))"
    "keeps P (call_err (Net GpioIsrInstall))" "keeps P ws_dispatcher_init"
    unfolding ws_dispatcher_init_def using calls by (auto intro!: keeps_intro)
  show "keeps P ws_queue_init" by (rule world_queue [OF assms(1)])
  show "keeps P (https_server_service_init hc)" 
    unfolding https_server_service_init_def
    using calls free by (auto intro!: keeps_intro world_memory [OF assms(1)] simp: ignoresD split: option.split)
  have or_free: "keeps P m \<Longrightarrow> keeps P (or_free q e m)" for q e m
    unfolding or_free_def by (auto intro!: keeps_intro world_memory [OF assms(1)])
  show "keeps P (eth_w5500_init ec)"
    unfolding eth_w5500_init_def
    using calls eth_keeps [OF calls(2)]
    by (auto intro!: keeps_intro or_free world_memory [OF assms(1)] split: option.split)
  show "keeps_pop P (\<lambda>s. map_option (Pair ()) (eth_w5500_force_link_blocking (Some on_eth_boot_wait) s))"
    by (rule link_keeps) (use calls eth_keeps [OF calls(2)] world_callbacks(6) [OF assms(1)] in auto)
  show "keeps P (ntp_service_init srv tz)" "keeps P cyclic_task_env_init"
    unfolding cyclic_task_env_init_def using calls by (auto intro!: keeps_intro ntp_keeps)
qed

lemma boot_before_manager:
  assumes "base_pred P"
  shows "absorbs_on nvs_write P \<Longrightarrow> keeps_pop P boot_storage" "absorbs_on nvs_write P \<Longrightarrow> keeps_pop P boot_config"
    "router_fields_free P \<Longrightarrow> keeps_pop P (boot_services c)" "keeps_pop P (boot_network c)"
proof -
  note ops = boot_ops_keep [OF assms]
  note nvs = boot_nvs_keep [OF assms]
  show "keeps_pop P (boot_services c)" if "router_fields_free P"
    unfolding boot_services_def using that
    by (auto intro!: keeps_pop_seq keeps_critical keeps_run_op ops)
  show "keeps_pop P (boot_network c)"
    unfolding boot_network_def by (auto intro!: keeps_pop_seq keeps_critical keeps_run_op ops)
  show "keeps_pop P boot_storage" if "absorbs_on nvs_write P"
    unfolding boot_storage_def using that
    by (auto intro!: keeps_pop_seq keeps_critical keeps_run_op ops nvs)
  show "keeps_pop P boot_config" if "absorbs_on nvs_write P"
    unfolding boot_config_def using that
    by (auto intro!: keeps_then_pop keeps_critical keeps_run_op keeps_ret ops nvs keeps_pop_case split: prod.split)
qed

lemma world_boot_tail:
  assumes "base_pred P" "keeps P ui_manager_init"
  shows "keeps_pop P boot_ready"
  unfolding boot_ready_def boot_stage_def
  using base_pred_calls [OF assms(1)] assms(2)
  by (auto intro!: keeps_pop_seq keeps_critical keeps_run_op keeps_intro
      app_pred_ui [OF base_pred_app [OF assms(1)]] app_pred_ind [OF base_pred_app [OF assms(1)]])


section \<open>The machine after the boot\<close>

text \<open>The static variables at power-on.\<close>

definition power_on :: "'x app_api_scheme \<Rightarrow> bool" where
  "power_on s \<longleftrightarrow>
     trace s = [] \<and> heap s = Map.empty \<and> \<not> mem_fault s \<and> \<not> bus_mutex s \<and> \<not> io_mutex s \<and>
     \<not> is_error_state s \<and> \<not> act_led_timer s \<and> \<not> cmd_led_timer s \<and> \<not> buzzer_timer s \<and>
     buzzer_beep_counter s = 0 \<and> \<not> buzzer_state s \<and>
     saved_line_0 s = replicate 16 (CHR '' '') \<and> saved_line_1 s = replicate 16 (CHR '' '') \<and>
     \<not> ui_temp_msg_timer s \<and> \<not> is_error_active s \<and> \<not> is_temp_active s \<and>
     current_page s = PAGE_SYSTEM \<and> auto_mode s \<and> \<not> is_suspended s \<and> \<not> auto_scroll_timer s \<and>
     \<not> lcd_backlight_off s \<and> btns s = [] \<and> \<not> s_ws_queue s \<and> s_active_socket s = - 1 \<and>
     s_server_handle s = None \<and> s_commands s = [] \<and> \<not> server s \<and> cert_buffer s = None \<and>
     key_buffer s = None \<and> server_ctx s = None \<and> api_ctxs s = Map.empty"

lemma boot_hardware_Some:
  "boot_hardware s = Some ((), s') \<longleftrightarrow>
    (\<exists>s1 s2 s3 s4. run_state i2c_bus_init s = (ESP_OK, s1) \<and> run_state io_expander_init s1 = (ESP_OK, s2) \<and>
      run_state sys_ind_init s2 = (ESP_OK, s3) \<and> run_state ui_init s3 = (ESP_OK, s4) \<and>
      s' = exec (vTaskDelay 100) (exec (ui_show_boot_progress ''Booting...'' 1 13) s4))"
proof -
  have unit: "run_op m s = Some ((), s') \<longleftrightarrow> s' = exec m s" for m :: "('y, unit) op" and s s'
    by (auto simp: prod_eq_iff)
  have nil: "pop_seq [] s = Some ((), s') \<longleftrightarrow> s' = s" for s s' :: 'y by auto
  show ?thesis
    unfolding boot_hardware_def pop_seq_Cons check_Some boot_stage_def boot_cooldown_def unit nil by blast
qed

lemma bus_init_facts:
  assumes "run_state i2c_bus_init s = (r, s1)" "trace s = []"
  shows "ext s1 = ext s" "mutex_mon (trace s1) = (False, False, True)" "pcf_writes a (trace s1) = []"
  using assms by (auto simp: i2c_bus_init_def mutex_mon_def split: if_splits)

text \<open>Without the mutex of the bus nothing reaches the display, and \<open>ui_init\<close> says so.\<close>

lemma no_bus_no_ui: "\<not> bus_mutex s \<Longrightarrow> result ui_init s \<noteq> ESP_OK"
  by (simp add: ui_init_def lcd_driver_init_def lcd_driver_write_nibble_def run_simps Let_def)

lemma bus_mutex_kept:
  "bus_mutex (exec io_expander_init s) = bus_mutex s" "bus_mutex (exec sys_ind_init s) = bus_mutex s"
proof -
  show "bus_mutex (exec io_expander_init s) = bus_mutex s"
    by (simp add: io_expander_init_def commit_to_hardware_def run_simps)
  show "bus_mutex (exec sys_ind_init s) = bus_mutex s"
    by (rule keeps_field, rule sys_ind_init_keeps)
      (auto simp: absorbs_on_def absorbs_def ignores_def keeps_def exec_set_level)
qed

lemma boot_ext:
  "ext (exec io_expander_init s) = ext s" "ext (exec sys_ind_init s) = ext s"
proof -
  show "ext (exec io_expander_init s) = ext s"
    by (simp add: io_expander_init_def commit_to_hardware_def run_simps)
  show "ext (exec sys_ind_init s) = ext s"
    by (rule keeps_field, rule sys_ind_init_keeps)
      (auto simp: absorbs_on_def absorbs_def ignores_def keeps_def exec_set_level)
qed

lemma boot_screen_vars:
  "saved_line_0 (exec i2c_bus_init s) = saved_line_0 s" "saved_line_1 (exec i2c_bus_init s) = saved_line_1 s"
  "is_error_active (exec i2c_bus_init s) = is_error_active s"
  "is_temp_active (exec i2c_bus_init s) = is_temp_active s"
  "saved_line_0 (exec io_expander_init s) = saved_line_0 s"
  "saved_line_1 (exec io_expander_init s) = saved_line_1 s"
  "is_error_active (exec io_expander_init s) = is_error_active s"
  "is_temp_active (exec io_expander_init s) = is_temp_active s"
  by (simp_all add: i2c_bus_init_def io_expander_init_def commit_to_hardware_def run_simps)

lemma expander_init_machine:
  assumes "run_state io_expander_init s1 = (ESP_OK, s2)" "bus_mutex s1" "take_ok (ext s1)"
    and "mutex_mon (trace s1) = (False, False, True)" "pcf_writes 0x20 (trace s1) = []"
    and "pcf_writes 0x27 (trace s1) = []"
  shows "bus_inv s2" "inputs_high s2" "expander_coherent s2" "pcf_writes 0x27 (trace s2) = []"
  using assms
  by (auto simp: io_expander_init_def commit_to_hardware_def run_simps bus_inv_def inputs_high_def
      expander_coherent_def push_bit_eq_mult mutex_mon_append split: if_splits)

text \<open>The indicators' start-up touches the display's lines and the error flags no more than anything else does.\<close>

definition display_fresh :: "'x ui_scheme \<Rightarrow> bool" where
  "display_fresh s \<longleftrightarrow> lcd_writes (trace s) = [] \<and> \<not> is_error_active s \<and> \<not> is_temp_active s \<and>
     saved_line_0 s = replicate 16 (CHR '' '') \<and> saved_line_1 s = replicate 16 (CHR '' '')"

lemma sys_ind_init_fresh: "keeps display_fresh sys_ind_init"
  by (rule sys_ind_init_keeps)
    (auto simp: absorbs_on_def absorbs_def display_fresh_def ignores_def hw_neutral_no_write keeps_def
      exec_set_level)

lemma sys_ind_init_machine: "keeps machine_inv sys_ind_init"
  by (rule sys_ind_init_keeps)
    (auto intro: absorbs_on_hw absorbs_machine keeps_machine_set_level
      simp: machine_free(2) [unfolded ind_fields_free_def])

lemma ui_init_machine: "keeps machine_inv ui_init"
  by (intro ui_keeps absorbs_on_hw absorbs_machine keeps_machine_nibble machine_free)

subsection \<open>The display's initialisation\<close>

lemma nibble_pair_sync:
  "lcd_sync (lcd_writes (nibble_calls (nibble_data a 0)) @ lcd_writes (nibble_calls (nibble_data b 0)))"
proof -
  have "latches ([nibble_data a 0, nibble_data a 0 OR 4, nibble_data a 0 AND NOT 4] @
      [nibble_data b 0, nibble_data b 0 OR 4, nibble_data b 0 AND NOT 4]) =
    [(False, a AND 0xF0), (False, b AND 0xF0)]"
    by (subst latches_append) (use nibble_low [of 0 a] in \<open>simp_all add: nibble_latch [of 0, simplified]\<close>)
  with nibble_low [of 0 b] show ?thesis unfolding lcd_sync_def nibble_writes by simp
qed

lemma run_lcd_init:
  assumes "lcd_ready s"
  shows "\<exists>t. run_state lcd_driver_init s = (ESP_OK, s\<lparr>trace := trace s @ t\<rparr>) \<and> lcd_sync (lcd_writes t)"
proof -
  let ?n = "\<lambda>v. nibble_calls (nibble_data v 0)"
  let ?t = "[Rtos (TaskDelay 50)] @ ?n 0x30 @ [Rtos (TaskDelay 5)] @ ?n 0x30 @ [Rtos (TaskDelay 1)] @
    ?n 0x30 @ [Rtos (TaskDelay 1)] @ ?n 0x20 @ byte_calls 0x28 0 @ byte_calls 0x08 0 @
    byte_calls 1 0 @ [Rtos (TaskDelay 2)] @ byte_calls 0x06 0 @ byte_calls 0x0C 0"
  have "lcd_sync ((lcd_writes (?n 0x30) @ lcd_writes (?n 0x30)) @ (lcd_writes (?n 0x30) @ lcd_writes (?n 0x20)) @
      lcd_writes (byte_calls 0x28 0) @ lcd_writes (byte_calls 0x08 0) @ lcd_writes (byte_calls 1 0) @
      lcd_writes (byte_calls 0x06 0) @ lcd_writes (byte_calls 0x0C 0))"
    by (intro lcd_sync_append nibble_pair_sync byte_writes_sync) simp_all
  then have "lcd_sync (lcd_writes ?t)" by simp
  moreover have "run_state lcd_driver_init s = (ESP_OK, s\<lparr>trace := trace s @ ?t\<rparr>)"
    using assms by (simp add: lcd_driver_init_def run_write_nibble run_lcd_cmd run_lcd_clear)
  ultimately show ?thesis by blast
qed

lemma run_create_char:
  "lcd_ready s \<Longrightarrow> run_state (lcd_driver_create_char v bs) s =
     (ESP_OK, s\<lparr>trace := trace s @ byte_calls (0x40 OR push_bit 3 (v AND 0x7)) 0 @ data_calls (take 8 bs)\<rparr>)"
  by (simp add: lcd_driver_create_char_def run_lcd_cmd run_send_data)

lemma ui_init_inv:
  assumes "display_fresh s" "lcd_ready s" "run_state ui_init s = (ESP_OK, s')" "ui_temp_msg_timer s'"
  shows "ui_inv s'"
proof -
  obtain t where t: "run_state lcd_driver_init s = (ESP_OK, s\<lparr>trace := trace s @ t\<rparr>)" "lcd_sync (lcd_writes t)"
    using run_lcd_init [OF assms(2)] by blast
  let ?u = "trace s @ t @ byte_calls (0x40 OR push_bit 3 (1 AND 0x7)) 0 @ data_calls (take 8 lcd_icon_rectangle_full) @
    byte_calls (0x40 OR push_bit 3 (2 AND 0x7)) 0 @ data_calls (take 8 lcd_icon_degree) @
    [Rtos (TimerCreate UiTimer 2000 False)]"
  have s': "s' = s\<lparr>ui_temp_msg_timer := ui_temp_msg_timer s', trace := ?u @ byte_calls 1 0 @ [Rtos (TaskDelay 2)]\<rparr>"
    using assms(2,3) t(1)
    by (auto simp: ui_init_def run_create_char run_lcd_clear)
  have "lcd_sync (lcd_writes (trace s) @ lcd_writes t @
      lcd_writes (byte_calls (0x40 OR push_bit 3 (1 AND 0x7)) 0) @ lcd_writes (data_calls (take 8 lcd_icon_rectangle_full)) @
      lcd_writes (byte_calls (0x40 OR push_bit 3 (2 AND 0x7)) 0) @ lcd_writes (data_calls (take 8 lcd_icon_degree)))"
    using assms(1) t(2) by (intro lcd_sync_append byte_writes_sync data_writes_sync) (simp_all add: display_fresh_def)
  then have sync: "trace_sync ?u" by simp
  have "trace_sync (?u @ byte_calls 1 0)" by (rule trace_sync_byte [OF sync]) simp
  moreover have "screen_row (?u @ byte_calls 1 0) r = replicate 16 0x20" if "r < 2" for r
    by (rule screen_row_clear [OF sync that])
  ultimately have "trace_sync (trace s')" and "\<And>r. r < 2 \<Longrightarrow> screen_row (trace s') r = replicate 16 0x20"
    using screen_row_quiet [of "Rtos (TaskDelay 2)" "?u @ byte_calls 1 0"]
    by (subst s', simp)+
  moreover have "lcd_ready s'" using assms(2) by (subst s') (simp add: lcd_ready_def)
  moreover have "saved_line_0 s' = replicate 16 (CHR '' '')" "saved_line_1 s' = replicate 16 (CHR '' '')"
    using assms(1) by (subst s', simp add: display_fresh_def)+
  ultimately show ?thesis
    using assms(4) by (simp add: ui_inv_def ui_lines_wf_def shows_lines_def bytes_of_string_def)
qed

text \<open>The popup timer is there when FreeRTOS could create it.\<close>

definition ui_timer_ok :: "ext_env \<Rightarrow> bool" where
  "ui_timer_ok e \<longleftrightarrow> (\<forall>t n p. bool_of e t (Rtos (TimerCreate UiTimer n p)))"

lemma ui_init_timer:
  assumes "lcd_ready s" "run_state ui_init s = (ESP_OK, s')" "ui_timer_ok (ext s)"
  shows "ui_temp_msg_timer s'"
proof -
  obtain t where "run_state lcd_driver_init s = (ESP_OK, s\<lparr>trace := trace s @ t\<rparr>)"
    using run_lcd_init [OF assms(1)] by blast
  with assms show ?thesis
    by (auto simp: ui_init_def run_create_char run_lcd_clear ui_timer_ok_def)
qed

lemma delay_keeps: "keeps machine_inv (vTaskDelay n)" "keeps ui_inv (vTaskDelay n)"
  by (intro keeps_calls absorbs_onD [OF absorbs_machine] absorbs_onD [OF absorbs_ui_inv]; simp)+

lemma stage_inv:
  "machine_inv s \<Longrightarrow> machine_inv (exec (vTaskDelay k) (exec (ui_show_boot_progress tx i n) s))"
  "ui_inv s \<Longrightarrow> ui_inv (exec (vTaskDelay k) (exec (ui_show_boot_progress tx i n) s))"
proof -
  assume "machine_inv s"
  then have "machine_inv (exec (ui_show_boot_progress tx i n) s)"
    by (rule keepsD [OF app_pred_ui(7) [OF app_pred_machine]])
  then show "machine_inv (exec (vTaskDelay k) (exec (ui_show_boot_progress tx i n) s))"
    by (rule keepsD [OF delay_keeps(1)])
next
  assume "ui_inv s"
  then have "ui_inv (exec (ui_show_boot_progress tx i n) s)"
    by (rule keepsD [OF app_pred_ui(7) [OF app_pred_ui_inv]])
  then show "ui_inv (exec (vTaskDelay k) (exec (ui_show_boot_progress tx i n) s))"
    by (rule keepsD [OF delay_keeps(2)])
qed

text \<open>
  A boot that gets through its first four checks has a working bus, mutexes in
  order, the expander in step with its shadow register and, when the popup timer
  could be created, the display in step with the saved lines.
\<close>

lemma boot_hardware_establishes:
  assumes "boot_hardware s = Some ((), s')" "power_on s" "take_ok (ext s)"
  shows "machine_inv s'" "i2c_ok (ext s) \<Longrightarrow> ui_timer_ok (ext s) \<Longrightarrow> ui_inv s'"
proof -
  from assms(1) obtain s1 s2 s3 s4 where
    r1: "run_state i2c_bus_init s = (ESP_OK, s1)" and r2: "run_state io_expander_init s1 = (ESP_OK, s2)" and
    r3: "run_state sys_ind_init s2 = (ESP_OK, s3)" and r4: "run_state ui_init s3 = (ESP_OK, s4)" and
    s': "s' = exec (vTaskDelay 100) (exec (ui_show_boot_progress ''Booting...'' 1 13) s4)"
    unfolding boot_hardware_Some by blast
  have "trace s = []" using assms(2) by (simp add: power_on_def)
  note bus = bus_init_facts [OF r1 this]
  have "bus_mutex s1"
  proof (rule ccontr)
    assume "\<not> bus_mutex s1"
    then have "\<not> bus_mutex s3"
      using bus_mutex_kept(1) [of s1] bus_mutex_kept(2) [of s2] r2 r3 by simp
    from no_bus_no_ui [OF this] r4 show False by simp
  qed
  with bus assms(3) have "machine_inv s2" and quiet: "lcd_writes (trace s2) = []"
    using expander_init_machine [OF r2] by (simp_all add: machine_inv_def)
  then have m3: "machine_inv s3" using keepsD [OF sys_ind_init_machine, of s2] r3 by simp
  then have m4: "machine_inv s4" using keepsD [OF ui_init_machine, of s3] r4 by simp
  show "machine_inv s'"
    unfolding s' by (rule stage_inv(1) [OF m4])
  show "ui_inv s'" if io: "i2c_ok (ext s)" and timer: "ui_timer_ok (ext s)"
  proof -
    have e3: "ext s3 = ext s" using bus(1) boot_ext(1) [of s1] boot_ext(2) [of s2] r2 r3 by simp
    with m3 io have ready: "lcd_ready s3" by (simp add: lcd_ready_def machine_inv_def bus_inv_def)
    have "display_fresh s2"
      using quiet boot_screen_vars [of s] boot_screen_vars [of s1] r1 r2 assms(2)
      by (simp add: display_fresh_def power_on_def)
    then have fresh: "display_fresh s3" using keepsD [OF sys_ind_init_fresh, of s2] r3 by simp
    have "ui_temp_msg_timer s4" using ui_init_timer [OF ready r4] timer e3 by simp
    from ui_init_inv [OF fresh ready r4 this] have "ui_inv s4" .
    then show ?thesis
      unfolding s' by (rule stage_inv(2))
  qed
qed

end
