(* ===== verification/System.thy ===== *)
theory System
  imports Firmware
begin

text \<open>
  The firmware as a transition system: \<open>fw_step\<close> has one rule per task round, timer
  callback, network event and request, and \<open>fw_reachable\<close> starts from a boot that went
  through. A step runs its operation to the end; rounds of different tasks are not
  interleaved within one another.
\<close>

section \<open>Steps\<close>

inductive fw_step :: "system_config \<Rightarrow> 'x app_api_scheme \<Rightarrow> 'x app_api_scheme \<Rightarrow> bool" for c where
  heartbeat: "fw_step c s (exec sys_ind_led_heartbeat_round s)"
| led_timer: "p \<in> {PCF_PIN_OUT_LED_ETH_ACT, PCF_PIN_OUT_LED_CMD} \<Longrightarrow> fw_step c s (exec (turn_off_led_callback p) s)"
| buzzer_timer_fires: "fw_step c s (exec buzzer_callback s)"
| popup_timer: "fw_step c s (exec ui_restore_timer_callback s)"
| scroll_timer: "fw_step c s (exec auto_scroll_callback s)"
| input_task: "fw_step c s (exec io_input_round s)"
| dispatcher_task: "fw_step c s (exec ws_task_round s)"
| env_task: "fw_step c s (exec env_monitor_round s)"
| link_event: "fw_step c s (exec (eth_event_handler (Some eth_callbacks_main) ev) s)"
| server_event: "fw_step c s (exec (https_server_connection_handler (Some (https_cfg c)) ev) s)"
| packet: "fw_step c s (exec (pkt_eth_input_proxy (Some eth_callbacks_main) buf) s)"
| request:
    "ep \<in> set app_api_get_endpoints \<Longrightarrow> \<not> ep_is_ws ep \<Longrightarrow>
     http_middleware (Some (https_cfg c)) (Some ep) req s = Some (r, s') \<Longrightarrow> fw_step c s s'"
| ws_refused:
    "run_state (ws_auth_callback (Some (https_cfg c)) req) s = (r, s') \<Longrightarrow> r \<noteq> ESP_OK \<Longrightarrow> fw_step c s s'"
| ws_opened:
    "run_state (ws_auth_callback (Some (https_cfg c)) req) s = (ESP_OK, s1) \<Longrightarrow> req_method req = HTTP_GET \<Longrightarrow>
     fw_step c s (exec (app_api_ws req) s1)"
| ws_frame: "req_method req \<noteq> HTTP_GET \<Longrightarrow> fw_step c s (exec (app_api_ws req) s)"
| reboot_task: "fw_step c s (exec ota_reboot_task s)"

inductive fw_reachable :: "ext_env \<Rightarrow> system_config \<Rightarrow> 'x app_api_scheme \<Rightarrow> bool" for e c where
  booted: "power_on s \<Longrightarrow> ext s = e \<Longrightarrow> app_main s = Some (c, s') \<Longrightarrow> fw_reachable e c s'"
| step: "fw_reachable e c s \<Longrightarrow> fw_step c s s' \<Longrightarrow> fw_reachable e c s'"

inductive_cases fw_stepE: "fw_step c s s'"

section \<open>Predicates every step keeps\<close>

lemma world_indicators:
  assumes "base_pred P"
  shows "keeps P sys_ind_led_heartbeat_round" "keeps P (turn_off_led_callback p)" "keeps P buzzer_callback"
    "keeps P (eth_event_handler (Some eth_callbacks_main) ev)" "keeps P (pkt_eth_input_proxy (Some eth_callbacks_main) buf)"
proof -
  note app = base_pred_app [OF assms]
  note hw = app_pred_hw [OF app]
  have pin: "keeps P (io_expander_set_level q l)" for q l by (rule app_pred_set_level [OF app])
  show "keeps P sys_ind_led_heartbeat_round" "keeps P (turn_off_led_callback p)"
    by (rule sys_ind_led_keeps [OF hw pin])+
  show "keeps P buzzer_callback"
    using app by (intro sys_ind_buzzer_keeps hw pin) (simp_all add: app_pred_def ind_fields_free_def)
  show "keeps P (eth_event_handler (Some eth_callbacks_main) ev)"
    unfolding eth_event_handler_def eth_callbacks_main_def
    by (auto intro!: keeps_ret app_pred_ind [OF app] split: net_event.split)
  show "keeps P (pkt_eth_input_proxy (Some eth_callbacks_main) buf)"
    unfolding pkt_eth_input_proxy_def eth_callbacks_main_def
    using base_pred_calls [OF assms] by (auto intro!: keeps_intro app_pred_ind [OF app])
qed

text \<open>Only two kinds of step can write the flash store: a request to a plain endpoint, and the input task.\<close>

lemma world_step_cases:
  assumes "world_pred P" "fw_step c s s'" "P s"
  shows "P s' \<or> s' = exec io_input_round s \<or>
    (\<exists>ep req r. ep \<in> set app_api_get_endpoints \<and> \<not> ep_is_ws ep \<and>
      http_middleware (Some (https_cfg c)) (Some ep) req s = Some (r, s'))"
proof -
  note base = world_pred_base [OF assms(1)]
  have auth: "P s1" if "run_state (ws_auth_callback (Some (https_cfg c)) req) s = (r, s1)" for req r s1
    using keepsD [OF world_ws_auth [OF base] assms(3), of c req] that by simp
  from assms(2) show ?thesis
  proof cases
    case (request ep req r)
    then show ?thesis by blast
  next
    case (ws_opened req s1)
    with keepsD [OF world_ws [OF base] auth] show ?thesis by auto
  qed (use assms(3) keepsD [OF world_indicators(1) [OF base]] keepsD [OF world_indicators(2) [OF base]]
      keepsD [OF world_indicators(3) [OF base]] keepsD [OF world_indicators(4) [OF base]]
      keepsD [OF world_indicators(5) [OF base]] keepsD [OF app_pred_ui(3) [OF base_pred_app [OF base]]]
      keepsD [OF world_pred_manager(1) [OF assms(1)]]
      keepsD [OF world_dispatcher(1) [OF base]] keepsD [OF world_env(3) [OF base]]
      keepsD [OF world_server(3) [OF base]] keepsD [OF world_ws [OF base]] keepsD [OF world_ota(2) [OF assms(1)]]
      auth in auto)
qed

lemma world_step:
  assumes "world_pred P" "fw_step c s s'" "P s" "password_pred P"
  shows "P s'"
proof -
  have "P (exec io_input_round s)" by (rule keepsD [OF world_input(1) [OF assms(1,4)] assms(3)])
  moreover have "keeps_pop P (http_middleware (Some (https_cfg c)) (Some ep) req)"
    if "ep \<in> set app_api_get_endpoints" for ep req
    by (rule world_middleware [OF assms(1) that]) (simp add: assms(4))
  ultimately show ?thesis
    using world_step_cases [OF assms(1-3)] assms(3) by (blast dest: keeps_popD)
qed

section \<open>The invariants are such predicates\<close>

lemma soft_neutral: "soft_call c \<Longrightarrow> neutral c"
  by (cases c) simp_all

lemma world_pred_intro:
  assumes "base_pred P" "manager_fields_free P" "\<And>c. scroll_call c \<Longrightarrow> absorbs P c"
  shows "world_pred P" "keeps P ui_manager_init"
proof -
  have free: "render_fields_free P"
    using base_pred_free [OF assms(1)] by (simp add: render_fields_free_def)
  note ops = ui_manager_keeps [OF base_pred_app [OF assms(1)] free assms(2) base_pred_calls(1,2) [OF assms(1)] assms(3)]
  then show "world_pred P" "keeps P ui_manager_init" by (simp_all add: world_pred_def assms(1))
qed

lemma base_machine: "base_pred machine_inv"
  unfolding base_pred_def
  using app_pred_machine absorbs_machine soft_neutral
  by (auto simp: absorbs_on_def world_fields_free_def ignores_def machine_inv_def bus_inv_def
      inputs_high_def expander_coherent_def)

lemma base_ui_inv: "base_pred ui_inv"
  unfolding base_pred_def
  using app_pred_ui_inv absorbs_ui_inv soft_neutral
  by (auto simp: absorbs_on_def world_fields_free_def ignores_def ui_inv_def lcd_ready_def ui_lines_wf_def)

lemma scroll_neutral: "scroll_call c \<Longrightarrow> neutral c"
  by (cases c rule: scroll_call.cases) simp_all

lemma world_machine: "world_pred machine_inv" "keeps (machine_inv :: 'x app_api_scheme \<Rightarrow> bool) ui_manager_init"
  by (intro world_pred_intro base_machine;
      auto simp: manager_fields_free_def ignores_def machine_inv_def bus_inv_def inputs_high_def
        expander_coherent_def intro: absorbs_onD [OF absorbs_machine] scroll_neutral)+

lemma world_ui_inv: "world_pred ui_inv" "keeps (ui_inv :: 'x app_api_scheme \<Rightarrow> bool) ui_manager_init"
  by (intro world_pred_intro base_ui_inv;
      auto simp: manager_fields_free_def ignores_def ui_inv_def lcd_ready_def ui_lines_wf_def
        intro: absorbs_onD [OF absorbs_ui_inv] scroll_neutral)+

lemma low_not_scroll: "low_call c \<Longrightarrow> \<not> scroll_call c"
  by (cases c) auto

lemma soft_not_scroll: "soft_call c \<Longrightarrow> \<not> scroll_call c"
  by (cases c) auto

lemma world_scroll: "world_pred scroll_inv"
proof -
  have "app_pred scroll_inv"
    by (rule app_pred_frame)
      (auto simp: scroll_inv_def absorbs_on_def absorbs_def scroll_step_other low_not_scroll ignores_def
        ui_fields_free_def ind_fields_free_def)
  then have "base_pred scroll_inv"
    by (auto simp: base_pred_def scroll_inv_def absorbs_on_def absorbs_def scroll_step_other soft_not_scroll
        world_fields_free_def ignores_def)
  then show ?thesis
    by (simp add: world_pred_def scroll_inv_auto scroll_inv_manual scroll_inv_switch scroll_inv_suspend
        scroll_inv_resume)
qed

text \<open>The external parameter is one for the whole run.\<close>

lemma world_ext: "world_pred (\<lambda>s :: 'x app_api_scheme. ext s = e)" "keeps (\<lambda>s :: 'x app_api_scheme. ext s = e) ui_manager_init"
proof -
  have "app_pred (\<lambda>s :: 'x app_api_scheme. ext s = e)"
    by (rule app_pred_frame)
      (auto simp: absorbs_on_def absorbs_def ignores_def ui_fields_free_def ind_fields_free_def)
  then have base: "base_pred (\<lambda>s :: 'x app_api_scheme. ext s = e)"
    by (auto simp: base_pred_def absorbs_on_def absorbs_def world_fields_free_def ignores_def)
  show "world_pred (\<lambda>s :: 'x app_api_scheme. ext s = e)" "keeps (\<lambda>s :: 'x app_api_scheme. ext s = e) ui_manager_init"
    by (intro world_pred_intro base; auto simp: manager_fields_free_def ignores_def absorbs_def)+
qed

text \<open>The carousel's variables before its start.\<close>

definition carousel_fresh :: "'x ui_manager_scheme \<Rightarrow> bool" where
  "carousel_fresh s \<longleftrightarrow> auto_mode s \<and> \<not> is_suspended s"

text \<open>None of them looks at the flash store.\<close>

lemma nvs_write_absorbed:
  "absorbs_on nvs_write (machine_inv :: 'x app_api_scheme \<Rightarrow> bool)"
  "absorbs_on nvs_write (ui_inv :: 'x app_api_scheme \<Rightarrow> bool)"
  "absorbs_on nvs_write (scroll_inv :: 'x app_api_scheme \<Rightarrow> bool)"
  "absorbs_on nvs_write (\<lambda>s :: 'x app_api_scheme. ext s = e)"
  "absorbs_on nvs_write (carousel_fresh :: 'x app_api_scheme \<Rightarrow> bool)"
proof -
  have quiet: "neutral c \<and> \<not> scroll_call c" if "nvs_write c" for c
    using that by (cases c rule: nvs_write.cases) simp_all
  show "absorbs_on nvs_write (machine_inv :: 'x app_api_scheme \<Rightarrow> bool)"
    "absorbs_on nvs_write (ui_inv :: 'x app_api_scheme \<Rightarrow> bool)"
    using quiet by (auto simp: absorbs_on_def intro: absorbs_onD [OF absorbs_machine] absorbs_onD [OF absorbs_ui_inv])
  show "absorbs_on nvs_write (scroll_inv :: 'x app_api_scheme \<Rightarrow> bool)"
    using quiet by (auto simp: absorbs_on_def absorbs_def scroll_inv_def scroll_step_other)
qed (auto simp: absorbs_on_def absorbs_def carousel_fresh_def)

lemma password_preds:
  "password_pred (machine_inv :: 'x app_api_scheme \<Rightarrow> bool)" "password_pred (ui_inv :: 'x app_api_scheme \<Rightarrow> bool)"
  "password_pred (scroll_inv :: 'x app_api_scheme \<Rightarrow> bool)" "password_pred (\<lambda>s :: 'x app_api_scheme. ext s = e)"
  by (intro password_pred_nvs nvs_write_absorbed base_machine base_ui_inv world_pred_base [OF world_scroll]
      world_pred_base [OF world_ext(1)])+

text \<open>Nor at the command table.\<close>

lemma router_free:
  "router_fields_free (machine_inv :: 'x app_api_scheme \<Rightarrow> bool)"
  "router_fields_free (ui_inv :: 'x app_api_scheme \<Rightarrow> bool)"
  "router_fields_free (\<lambda>s :: 'x app_api_scheme. ext s = e)"
  "router_fields_free (carousel_fresh :: 'x app_api_scheme \<Rightarrow> bool)"
  by (simp_all add: router_fields_free_def ignores_def machine_inv_def bus_inv_def inputs_high_def
      expander_coherent_def ui_inv_def lcd_ready_def ui_lines_wf_def carousel_fresh_def)

lemma app_carousel: "app_pred carousel_fresh"
  by (rule app_pred_frame)
    (auto simp: carousel_fresh_def absorbs_on_def absorbs_def ignores_def ui_fields_free_def ind_fields_free_def)

lemma base_carousel: "base_pred carousel_fresh"
  using app_carousel
  by (auto simp: base_pred_def carousel_fresh_def absorbs_on_def absorbs_def world_fields_free_def ignores_def)

section \<open>The whole boot\<close>

lemma app_main_Some:
  "app_main s = Some (c, s') \<longleftrightarrow>
    (\<exists>s1 s2 s3 s4 s5. boot_hardware s = Some ((), s1) \<and> boot_storage s1 = Some ((), s2) \<and>
      boot_config s2 = Some (c, s3) \<and> boot_services c s3 = Some ((), s4) \<and>
      boot_network c s4 = Some ((), s5) \<and> boot_ready s5 = Some ((), s'))"
proof -
  have last: "run_op (ret c) s6 = Some r \<longleftrightarrow> r = (c, s6)" for c :: system_config and r and s6 :: "'a app_api_scheme"
    by auto
  show ?thesis unfolding app_main_def then_pop_Some last by auto
qed

text \<open>What the first stage establishes and the rest keeps holds after the boot.\<close>

lemma boot_invariant:
  assumes "app_main s = Some (c, s')" "base_pred P" "keeps P ui_manager_init" "absorbs_on nvs_write P"
    and "router_fields_free P"
    and "\<And>s1. boot_hardware s = Some ((), s1) \<Longrightarrow> P s1"
  shows "P s'"
proof -
  note tail = boot_before_manager(1,2) [OF assms(2,4)] boot_before_manager(3) [OF assms(2,5)]
    boot_before_manager(4) [OF assms(2)]
    world_boot_tail [OF assms(2,3)]
  from assms(1) obtain s1 s2 s3 s4 s5 where b: "boot_hardware s = Some ((), s1)" "boot_storage s1 = Some ((), s2)"
      "boot_config s2 = Some (c, s3)" "boot_services c s3 = Some ((), s4)"
      "boot_network c s4 = Some ((), s5)" "boot_ready s5 = Some ((), s')"
    unfolding app_main_Some by blast
  from assms(6) [OF b(1)] have "P s2" by (rule keeps_popD [OF tail(1) _ b(2)])
  then have "P s3" by (rule keeps_popD [OF tail(2) _ b(3)])
  then have "P s4" by (rule keeps_popD [OF tail(3) _ b(4)])
  then have "P s5" by (rule keeps_popD [OF tail(4) _ b(5)])
  then show "P s'" by (rule keeps_popD [OF tail(5) _ b(6)])
qed

lemma boot_machine:
  assumes "app_main s = Some (c, s')" "power_on s" "take_ok (ext s)"
  shows "machine_inv s'"
  by (rule boot_invariant [OF assms(1) base_machine world_machine(2) nvs_write_absorbed(1) router_free(1)])
    (rule boot_hardware_establishes(1) [OF _ assms(2,3)])

lemma boot_ui_inv:
  assumes "app_main s = Some (c, s')" "power_on s" "take_ok (ext s)" "i2c_ok (ext s)" "ui_timer_ok (ext s)"
  shows "ui_inv s'"
  by (rule boot_invariant [OF assms(1) base_ui_inv world_ui_inv(2) nvs_write_absorbed(2) router_free(2)])
    (rule boot_hardware_establishes(2) [OF _ assms(2-5)])

text \<open>The first stage writes only the variables of the bus, the expander, the indicators and the screen.\<close>

lemma hardware_frame:
  assumes "absorbs_on low_call P" "ui_fields_free P" "ind_fields_free P"
    and "ignores port_shadow_update P" "ignores bus_mutex_update P" "ignores io_mutex_update P"
  shows "keeps_pop P boot_hardware"
proof -
  have app: "app_pred P" by (rule app_pred_frame [OF assms(1,4,2,3)])
  note hw = app_pred_hw [OF app]
  note [intro] = absorbs_onD [OF assms(1)]
  have lock: "keeps P i2c_bus_lock" "keeps P i2c_bus_unlock" "keeps P (i2c_bus_pcf8574_write_byte a d)" for a d
    unfolding i2c_bus_lock_def i2c_bus_unlock_def i2c_bus_pcf8574_write_byte_def by (auto intro!: keeps_intro)
  have "keeps P i2c_bus_init" "keeps P io_expander_init"
    unfolding i2c_bus_init_def io_expander_init_def commit_to_hardware_def
    using assms(4-6) by (auto intro!: keeps_intro lock simp: ignoresD)
  moreover have "keeps P sys_ind_init"
    using assms(3) by (intro sys_ind_init_keeps hw app_pred_set_level [OF app]) (simp_all add: ind_fields_free_def)
  moreover have "keeps P (lcd_driver_write_nibble n m)" for n m
    unfolding lcd_driver_write_nibble_def Let_def by (auto intro!: keeps_intro lock)
  then have "keeps P ui_init" by (intro ui_keeps hw assms(2))
  moreover have "absorbs P (Rtos (TaskDelay 100))" by (rule absorbs_onD [OF hw]) simp
  ultimately show ?thesis
    unfolding boot_hardware_def boot_stage_def boot_cooldown_def
    by (auto intro!: keeps_pop_seq keeps_check keeps_run_op keeps_calls app_pred_ui [OF app])
qed

lemma hardware_carousel: "keeps_pop carousel_fresh boot_hardware"
  by (rule hardware_frame)
    (auto simp: carousel_fresh_def absorbs_on_def absorbs_def ignores_def ui_fields_free_def ind_fields_free_def)

lemma hardware_ext: "keeps_pop (\<lambda>s. ext s = e) boot_hardware"
  by (rule hardware_frame)
    (auto simp: absorbs_on_def absorbs_def ignores_def ui_fields_free_def ind_fields_free_def)

lemma boot_ext_kept:
  assumes "app_main s = Some (c, s')"
  shows "ext s' = ext s"
  by (rule boot_invariant [OF assms world_pred_base [OF world_ext(1)] world_ext(2) nvs_write_absorbed(4) router_free(3)])
    (rule keeps_popD [OF hardware_ext], simp_all)

text \<open>The last thing the boot does is to start the carousel.\<close>

lemma boot_ready_Some:
  fixes s :: "'a app_api_scheme"
  assumes "boot_ready s = Some ((), s')"
  shows "\<exists>s1. run_state ui_manager_init s1 = (ESP_OK, s') \<and> (\<forall>P. base_pred P \<longrightarrow> P s \<longrightarrow> P s1)"
proof -
  define pre :: "('a app_api_scheme, unit) op" where "pre = do { ui_show_boot_progress ''System ready!'' 13 13; sys_ind_fixed_buzzer_sound 1; vTaskDelay 500 }"
  have "run_state ui_manager_init (exec pre s) = (ESP_OK, s')"
    using assms unfolding boot_ready_def pop_seq_Cons critical_Some boot_stage_def pre_def
    by (auto simp: case_prod_beta)
  moreover have "P (exec pre s)" if "base_pred P" "P s" for P
  proof -
    have "keeps P pre"
      unfolding pre_def using base_pred_calls [OF that(1)]
      by (auto intro!: keeps_intro app_pred_ui [OF base_pred_app [OF that(1)]] app_pred_ind [OF base_pred_app [OF that(1)]])
    then show ?thesis using that(2) by (rule keepsD)
  qed
  ultimately show ?thesis by blast
qed

lemma boot_scroll:
  assumes "app_main s = Some (c, s')" "power_on s"
  shows "scroll_inv s'"
proof -
  from assms(1) obtain s1 s2 s3 s4 s5 where b: "boot_hardware s = Some ((), s1)" "boot_storage s1 = Some ((), s2)"
      "boot_config s2 = Some (c, s3)" "boot_services c s3 = Some ((), s4)"
      "boot_network c s4 = Some ((), s5)" "boot_ready s5 = Some ((), s')"
    unfolding app_main_Some by blast
  have "carousel_fresh s" using assms(2) by (simp add: power_on_def carousel_fresh_def)
  then have "carousel_fresh s1" by (rule keeps_popD [OF hardware_carousel _ b(1)])
  then have "carousel_fresh s2" by (rule keeps_popD [OF boot_before_manager(1) [OF base_carousel nvs_write_absorbed(5)] _ b(2)])
  then have "carousel_fresh s3" by (rule keeps_popD [OF boot_before_manager(2) [OF base_carousel nvs_write_absorbed(5)] _ b(3)])
  then have "carousel_fresh s4" by (rule keeps_popD [OF boot_before_manager(3) [OF base_carousel router_free(4)] _ b(4)])
  then have s5: "carousel_fresh s5" by (rule keeps_popD [OF boot_before_manager(4) [OF base_carousel] _ b(5)])
  obtain s6 where m: "run_state ui_manager_init s6 = (ESP_OK, s')" and s6: "carousel_fresh s6"
    using boot_ready_Some [OF b(6)] base_carousel s5 by blast
  from scroll_inv_init [of s6] s6 m show ?thesis by (simp add: carousel_fresh_def)
qed

section \<open>Reachable states\<close>

lemma reachable_pred:
  assumes "fw_reachable e c s" "world_pred P" "password_pred P"
    and "\<And>s s'. power_on s \<Longrightarrow> ext s = e \<Longrightarrow> app_main s = Some (c, s') \<Longrightarrow> P s'"
  shows "P s"
  using assms(1)
proof induction
  case (booted s s')
  then show ?case by (rule assms(4))
next
  case (step s s')
  from world_step [OF assms(2) step.hyps(2) step.IH assms(3)] show ?case .
qed

lemma reachable_ext: "fw_reachable e c s \<Longrightarrow> ext s = e"
  by (erule reachable_pred [OF _ world_ext(1) password_preds(4)]) (simp add: boot_ext_kept)

lemma reachable_machine: "fw_reachable e c s \<Longrightarrow> take_ok e \<Longrightarrow> machine_inv s"
  by (erule reachable_pred [OF _ world_machine(1) password_preds(1)]) (auto intro: boot_machine)

lemma reachable_ui_inv:
  "fw_reachable e c s \<Longrightarrow> take_ok e \<Longrightarrow> i2c_ok e \<Longrightarrow> ui_timer_ok e \<Longrightarrow> ui_inv s"
  by (erule reachable_pred [OF _ world_ui_inv(1) password_preds(2)]) (auto intro: boot_ui_inv)

lemma reachable_scroll: "fw_reachable e c s \<Longrightarrow> scroll_inv s"
  by (erule reachable_pred [OF _ world_scroll password_preds(3)]) (rule boot_scroll)

end
