(* ===== verification/Security.thy ===== *)
theory Security
  imports System
begin

text \<open>
  The password over a whole run: what the boot stores, which steps can change it, and
  who can cause them. The content of the flash store is \<open>stored\<close>, read off the calls.
\<close>

section \<open>Predicates on the store\<close>

definition store_sat :: "(string \<times> string \<Rightarrow> string option) \<Rightarrow> ext_env \<Rightarrow>
    ((string \<Rightarrow> string \<Rightarrow> string option) \<Rightarrow> bool) \<Rightarrow> 'x platform_scheme \<Rightarrow> bool" where
  "store_sat f e Q s \<longleftrightarrow> ext s = e \<and> Q (stored f s)"

lemma stored_eq: "stored f s = (\<lambda>ns k. snd (nvs_view (ext s) f (trace s)) (ns, k))"
  by (simp add: stored_def fun_eq_iff)

lemma stored_call:
  assumes "\<not> nvs_write c"
  shows "stored f (s\<lparr>trace := trace s @ [c]\<rparr>) = stored f s"
proof -
  have "snd (nvs_step e t st c) = snd st" for e t st
    using assms by (cases "(e, t, st, c)" rule: nvs_step.cases) auto
  then show ?thesis by (simp add: stored_def fun_eq_iff)
qed

lemma absorbs_store: "\<not> nvs_write c \<Longrightarrow> absorbs (store_sat f e Q) c"
  by (simp add: absorbs_def store_sat_def stored_call)

lemma stored_fields:
  "ui_fields_free (store_sat f e Q)" "ind_fields_free (store_sat f e Q)"
  "ignores port_shadow_update (store_sat f e Q)" "manager_fields_free (store_sat f e Q)"
  "world_fields_free (store_sat f e Q)"
  by (simp_all add: ignores_def store_sat_def stored_eq ui_fields_free_def ind_fields_free_def
      manager_fields_free_def world_fields_free_def)

lemma stored_router: "router_fields_free (store_sat f e Q)"
  by (simp add: router_fields_free_def ignores_def store_sat_def stored_eq)

lemma app_store: "app_pred (store_sat f e Q)"
proof -
  have "low_call c \<Longrightarrow> \<not> nvs_write c" for c
    by (cases c rule: nvs_write.cases; simp)
  then show ?thesis
    by (intro app_pred_frame) (simp_all add: absorbs_on_def absorbs_store stored_fields)
qed

text \<open>Whatever does not write the flash store keeps every such predicate.\<close>

lemma world_store:
  "world_pred (store_sat f e Q :: 'x app_api_scheme \<Rightarrow> bool)"
  "keeps (store_sat f e Q :: 'x app_api_scheme \<Rightarrow> bool) ui_manager_init"
proof -
  have soft: "soft_call c \<Longrightarrow> \<not> nvs_write c" and scroll: "scroll_call c \<Longrightarrow> \<not> nvs_write c" for c
    by (cases c rule: nvs_write.cases; simp)+
  have "base_pred (store_sat f e Q :: 'x app_api_scheme \<Rightarrow> bool)"
    by (simp add: base_pred_def app_store absorbs_on_def absorbs_store soft stored_fields)
  from world_pred_intro [OF this] scroll
  show "world_pred (store_sat f e Q :: 'x app_api_scheme \<Rightarrow> bool)"
    "keeps (store_sat f e Q :: 'x app_api_scheme \<Rightarrow> bool) ui_manager_init"
    by (simp_all add: stored_fields absorbs_store)
qed

lemmas base_store = world_pred_base [OF world_store(1)]

lemma save_store:
  assumes "\<And>m. Q m \<Longrightarrow> Q (m(ns := (m ns)(k := Some v)))"
  shows "keeps (store_sat f e Q) (nvs_manager_save_str ns k v)"
proof (rule keepsI)
  fix s :: "'a platform_scheme" assume s: "store_sat f e Q s"
  have "stored f (exec (nvs_manager_save_str ns k v) s) \<in>
      {stored f s, (stored f s)(ns := (stored f s ns)(k := Some v))}"
    by (auto simp: fun_eq_iff stored_save)
  then show "store_sat f e Q (exec (nvs_manager_save_str ns k v) s)"
    using s assms by (auto simp: store_sat_def)
qed

lemma password_store:
  "(\<And>m v. Q m \<Longrightarrow> Q (m(AUTH_NVS_NS := (m AUTH_NVS_NS)(AUTH_NVS_KEY := Some v)))) \<Longrightarrow>
   password_pred (store_sat f e Q :: 'x app_api_scheme \<Rightarrow> bool)"
  unfolding password_pred_def by (intro allI save_store)

section \<open>What the boot stores\<close>

definition boot_passwords :: "system_config \<Rightarrow> (string \<Rightarrow> string \<Rightarrow> string option) \<Rightarrow> bool" where
  "boot_passwords c m \<longleftrightarrow> m AUTH_NVS_NS AUTH_NVS_KEY = Some (cfg_default_password c) \<and>
     m AUTH_NVS_NS AUTH_NVS_DEFAULT_KEY = Some (cfg_default_password c)"

lemma save_batch_stores:
  assumes "run_state (nvs_manager_save_strings_batch AUTH_NVS_NS (Some (nvs_entries c))) s = (ESP_OK, s')"
  shows "boot_passwords c (stored f s')"
  using assms
  by (cases "nvs_view (ext s) f (trace s)")
    (auto simp: nvs_manager_save_strings_batch_def nvs_entries_def boot_passwords_def stored_def
      nvs_view_append case_prod_beta split: if_splits)

lemma boot_config_stores:
  fixes s :: "'x app_api_scheme"
  assumes "boot_config s = Some (c, s')"
  shows "boot_passwords c (stored f s')"
proof -
  from assms obtain s2 s3 :: "'x app_api_scheme" where
    b: "run_state (nvs_manager_save_strings_batch AUTH_NVS_NS (Some (nvs_entries c))) s2 = (ESP_OK, s3)"
      "s' = s3\<lparr>trace := trace s3 @ [Rtos (TaskDelay 100)]\<rparr>"
    unfolding boot_config_def boot_cooldown_def
    by (auto simp: then_pop_Some critical_Some split: option.splits simp del: then_pop_run)
  from save_batch_stores [OF b(1)] show ?thesis unfolding b(2) by (simp add: stored_call)
qed

text \<open>The rest of the boot does not touch the store.\<close>

lemma boot_stores:
  assumes "app_main s = Some (c, s')"
  shows "boot_passwords c (stored f s')"
proof -
  from assms obtain s2 s3 s4 s5 where b: "boot_config s2 = Some (c, s3)" "boot_services c s3 = Some ((), s4)"
      "boot_network c s4 = Some ((), s5)" "boot_ready s5 = Some ((), s')"
    unfolding app_main_Some by blast
  let ?P = "store_sat f (ext s3) (boot_passwords c) :: 'a app_api_scheme \<Rightarrow> bool"
  have "?P s3" using boot_config_stores [OF b(1)] by (simp add: store_sat_def)
  from keeps_popD [OF boot_before_manager(3) [OF base_store stored_router] this b(2)] have "?P s4" .
  from keeps_popD [OF boot_before_manager(4) [OF base_store] this b(3)] have "?P s5" .
  from keeps_popD [OF world_boot_tail [OF base_store world_store(2)] this b(4)] have "?P s'" .
  then show ?thesis by (simp add: store_sat_def)
qed

section \<open>Who can change the password\<close>

text \<open>The default password never changes; the active one is never absent.\<close>

definition passwords_kept :: "system_config \<Rightarrow> (string \<Rightarrow> string \<Rightarrow> string option) \<Rightarrow> bool" where
  "passwords_kept c m \<longleftrightarrow> m AUTH_NVS_NS AUTH_NVS_DEFAULT_KEY = Some (cfg_default_password c) \<and>
     m AUTH_NVS_NS AUTH_NVS_KEY \<noteq> None"

lemma reachable_store:
  assumes "fw_reachable e c s"
  shows "passwords_kept c (stored f s)"
proof -
  have "store_sat f e (passwords_kept c) s"
  proof (rule reachable_pred [OF assms world_store(1) password_store])
    fix s s' :: "'a app_api_scheme"
    assume "ext s = e" "app_main s = Some (c, s')"
    then show "store_sat f e (passwords_kept c) s'"
      using boot_stores [of s c s' f] boot_ext_kept [of s c s']
      by (simp add: store_sat_def passwords_kept_def boot_passwords_def)
  qed (simp add: passwords_kept_def)
  then show ?thesis by (simp add: store_sat_def)
qed

text \<open>A request that is not authorised leaves the store alone, and so does an update.\<close>

lemma middleware_store:
  assumes "ep \<in> set app_api_get_endpoints"
    and "http_middleware (Some (https_cfg c)) (Some ep) req s = Some (r, s')"
    and "stored f s' \<noteq> stored f s"
  shows "result (app_api_check_auth req) s" "ep_uri ep \<in> {''/api/change-password'', ''/api/reset-password''}"
proof -
  let ?P = "store_sat f (ext s) ((=) (stored f s)) :: 'a app_api_scheme \<Rightarrow> bool"
  have s: "?P s" by (simp add: store_sat_def)
  obtain ok s1 where auth: "run_state (app_api_check_auth req) s = (ok, s1)"
    by (cases "run_state (app_api_check_auth req) s")
  from keepsD [OF world_ctx(7) [OF base_store] s, of req] auth have s1: "?P s1" by simp
  show "result (app_api_check_auth req) s"
  proof (rule ccontr)
    assume "\<not> result (app_api_check_auth req) s"
    with assms(1) auth have "http_middleware (Some (https_cfg c)) (Some ep) req s =
        Some (ESP_FAIL, s1\<lparr>trace := trace s1 @ [Httpd (RespSendErr 401)]\<rparr>)"
      by (intro middleware_refused [where h = "the (ep_handler ep)"])
        (auto simp: app_api_get_endpoints_def https_cfg_def)
    with assms(2,3) s1 show False by (auto simp: store_sat_def stored_call)
  qed
  show "ep_uri ep \<in> {''/api/change-password'', ''/api/reset-password''}"
  proof (rule ccontr)
    assume "ep_uri ep \<notin> {''/api/change-password'', ''/api/reset-password''}"
    with assms(1) have "ep_uri ep = ''/api/update'' \<or> ep_is_ws ep" by (auto simp: app_api_get_endpoints_def)
    then have "keeps_pop ?P (http_middleware (Some (https_cfg c)) (Some ep) req)"
      by (intro world_middleware [OF world_store(1) assms(1)]) blast
    from keeps_popD [OF this s assms(2)] assms(3) show False by (simp add: store_sat_def)
  qed
qed

text \<open>A held reset button can only bring the default password back.\<close>

definition key_or_default :: "(string \<Rightarrow> string \<Rightarrow> string option) \<Rightarrow> (string \<Rightarrow> string \<Rightarrow> string option) \<Rightarrow> bool" where
  "key_or_default m0 m \<longleftrightarrow> m = m0 \<or>
     m = m0(AUTH_NVS_NS := (m0 AUTH_NVS_NS)(AUTH_NVS_KEY := m0 AUTH_NVS_NS AUTH_NVS_DEFAULT_KEY))"

text \<open>Copying the default over the active password, as two operations do.\<close>

lemma copy_default_store:
  fixes s :: "'x platform_scheme"
  assumes "nvs_law f e" "store_sat f e (key_or_default m0) s"
    and "run_state (nvs_manager_load_str AUTH_NVS_NS AUTH_NVS_DEFAULT_KEY 64) s = ((ESP_OK, v), s1)"
    and "run_state (nvs_manager_save_str AUTH_NVS_NS AUTH_NVS_KEY v) s1 = (err, s2)"
  shows "store_sat f e (key_or_default m0) s2"
    "err = ESP_OK \<Longrightarrow> stored f s2 AUTH_NVS_NS AUTH_NVS_KEY = stored f s AUTH_NVS_NS AUTH_NVS_DEFAULT_KEY"
proof -
  have s1: "stored f s1 = stored f s" "ext s1 = ext s"
    using stored_load [of f AUTH_NVS_NS AUTH_NVS_DEFAULT_KEY 64 s] ext_nvs(2) [of AUTH_NVS_NS AUTH_NVS_DEFAULT_KEY 64 s] assms(3)
    by simp_all
  from assms have d: "stored f s AUTH_NVS_NS AUTH_NVS_DEFAULT_KEY = Some v"
    by (intro nvs.load_content [where n = 64]) (auto simp: store_sat_def)
  then have v: "m0 AUTH_NVS_NS AUTH_NVS_DEFAULT_KEY = Some v"
    using assms(2) by (auto simp: store_sat_def key_or_default_def split: if_splits)
  have "stored f s2 \<in> {stored f s, (stored f s)(AUTH_NVS_NS := (stored f s AUTH_NVS_NS)(AUTH_NVS_KEY := Some v))}"
    using stored_save [of f AUTH_NVS_NS AUTH_NVS_KEY v s1] assms(4) s1 by (auto simp: fun_eq_iff)
  then show "store_sat f e (key_or_default m0) s2"
    using assms(2) v s1 assms(4) ext_nvs(1) [of AUTH_NVS_NS AUTH_NVS_KEY v s1]
    by (auto simp: store_sat_def key_or_default_def)
  show "stored f s2 AUTH_NVS_NS AUTH_NVS_KEY = stored f s AUTH_NVS_NS AUTH_NVS_DEFAULT_KEY" if "err = ESP_OK"
    using nvs.save_content [of AUTH_NVS_NS AUTH_NVS_KEY v s1 f] assms(4) that d by simp
qed

lemma reset_button_store:
  fixes s :: "'x io_button_scheme"
  assumes "nvs_law f e" "store_sat f e (key_or_default m0) s"
  shows "store_sat f e (key_or_default m0) (exec (on_reset_btn_click a) s)"
proof -
  let ?L = "nvs_manager_load_str AUTH_NVS_NS AUTH_NVS_DEFAULT_KEY 64 :: ('x io_button_scheme, _) op"
  obtain err v s1 where l: "run_state ?L s = ((err, v), s1)" by (cases "run_state ?L s") auto
  show ?thesis
  proof (cases "a = BTN_CLICK_LONG \<and> err = ESP_OK")
    case False
    then show ?thesis
      using l stored_load [of f AUTH_NVS_NS AUTH_NVS_DEFAULT_KEY 64 s] ext_nvs(2) [of AUTH_NVS_NS AUTH_NVS_DEFAULT_KEY 64 s] assms(2)
      by (auto simp: on_reset_btn_click_def store_sat_def)
  next
    case True
    obtain err' s2 where sv: "run_state (nvs_manager_save_str AUTH_NVS_NS AUTH_NVS_KEY v) s1 = (err', s2)"
      by (cases "run_state (nvs_manager_save_str AUTH_NVS_NS AUTH_NVS_KEY v) s1")
    from copy_default_store(1) [OF assms _ sv] l True have s2: "store_sat f e (key_or_default m0) s2" by simp
    show ?thesis
      using s2 l sv True keepsD [OF app_pred_ui(11) [OF app_store] s2] by (simp add: on_reset_btn_click_def)
  qed
qed

lemma reset_password_store:
  assumes "nvs_law f (ext s)"
  shows "key_or_default (stored f s) (stored f (exec (app_api_auth_reset_password req) s))"
proof -
  let ?L = "nvs_manager_load_str AUTH_NVS_NS AUTH_NVS_DEFAULT_KEY 64 :: ('a app_api_scheme, _) op"
  obtain err v s1 where l: "run_state ?L s = ((err, v), s1)" by (cases "run_state ?L s") auto
  obtain err' s2 where sv: "run_state (nvs_manager_save_str AUTH_NVS_NS AUTH_NVS_KEY v) s1 = (err', s2)"
    by (cases "run_state (nvs_manager_save_str AUTH_NVS_NS AUTH_NVS_KEY v) s1")
  have s: "store_sat f (ext s) (key_or_default (stored f s)) s" by (simp add: store_sat_def key_or_default_def)
  show ?thesis
  proof (cases "err = ESP_OK")
    case False
    then show ?thesis
      using l stored_load [of f AUTH_NVS_NS AUTH_NVS_DEFAULT_KEY 64 s]
      by (simp add: app_api_auth_reset_password_def key_or_default_def)
  next
    case True
    with copy_default_store [OF assms s _ sv] l
    have "key_or_default (stored f s) (stored f s2)" by (simp add: store_sat_def)
    then show ?thesis
      using True l sv stored_call [of "Mem (Malloc 40)" f s2] by (simp add: app_api_auth_reset_password_def)
  qed
qed

lemma callback_store:
  assumes "nvs_law f e"
  shows "keeps (store_sat f e (key_or_default m0) :: 'x app_api_scheme \<Rightarrow> bool) (run_callback cb a)"
proof (cases cb)
  case OnReset
  then show ?thesis by (auto intro!: keepsI reset_button_store [OF assms])
qed (auto simp: button_defs intro!: keeps_intro world_pred_manager [OF world_store(1)] app_pred_ind [OF app_store]
    simp: store_sat_def stored_eq)

lemma input_store:
  fixes s :: "'x app_api_scheme"
  assumes "nvs_law f (ext s)"
  shows "key_or_default (stored f s) (stored f (exec io_input_round s))"
proof -
  let ?P = "store_sat f (ext s) (key_or_default (stored f s)) :: 'x app_api_scheme \<Rightarrow> bool"
  have "keeps ?P io_input_round"
    by (intro input_round_keeps app_pred_hw [OF app_store] callback_store [OF assms])
      (auto simp: base_pred_free [OF base_store])
  from keepsD [OF this, of s] show ?thesis by (simp add: store_sat_def key_or_default_def)
qed

text \<open>A password the check accepted is the stored one.\<close>

lemma accepted_is_stored:
  assumes "nvs_law f (ext s)" "result (app_api_check_auth req) s"
  shows "\<exists>tok. auth_token s = Some tok \<and> tok \<noteq> [] \<and> stored f s AUTH_NVS_NS AUTH_NVS_KEY = Some tok"
proof -
  from assms(2) obtain tok where t: "auth_token s = Some tok" "tok \<noteq> []"
    "result (nvs_manager_load_str AUTH_NVS_NS AUTH_NVS_KEY 64) (s\<lparr>trace := trace s @ auth_calls\<rparr>) = (ESP_OK, tok)"
    unfolding check_auth_iff by blast
  from nvs.load_content [OF _ t(3), of f] assms(1) t show ?thesis by auto
qed

lemma step_password:
  assumes "fw_step c s s'" "nvs_law f (ext s)" "stored f s' \<noteq> stored f s"
  shows "(\<exists>ep req r tok. ep \<in> set app_api_get_endpoints \<and>
      ep_uri ep \<in> {''/api/change-password'', ''/api/reset-password''} \<and>
      http_middleware (Some (https_cfg c)) (Some ep) req s = Some (r, s') \<and>
      auth_token s = Some tok \<and> stored f s AUTH_NVS_NS AUTH_NVS_KEY = Some tok) \<or>
    s' = exec io_input_round s \<and>
      stored f s' AUTH_NVS_NS AUTH_NVS_KEY = stored f s AUTH_NVS_NS AUTH_NVS_DEFAULT_KEY"
proof -
  have "\<not> store_sat f (ext s) ((=) (stored f s)) s'" using assms(3) by (auto simp: store_sat_def)
  with world_step_cases [OF world_store(1) assms(1), of f "ext s" "(=) (stored f s)"]
  consider "s' = exec io_input_round s"
    | ep req r where "ep \<in> set app_api_get_endpoints"
      "http_middleware (Some (https_cfg c)) (Some ep) req s = Some (r, s')"
    by (auto simp: store_sat_def)
  then show ?thesis
  proof cases
    case 1
    then show ?thesis
      using input_store [OF assms(2)] assms(3) by (auto simp: key_or_default_def)
  next
    case 2
    from middleware_store [OF 2 assms(3)] accepted_is_stored [OF assms(2)] 2 show ?thesis by blast
  qed
qed

end
