(* ===== verification/Request_Contexts.thy ===== *)
theory Request_Contexts
  imports Firmware
begin

text \<open>
  The store of request contexts across the middleware: a request owns at most one
  context, and it is gone when the request is answered.
\<close>

section \<open>What the plain endpoints keep\<close>

text \<open>
  The calls of a handler: it uses the message queue through \<open>ws_queue_send\<close> alone and
  leaves the answer to the middleware. A \<open>handler_pred\<close> is a predicate that only the queue,
  the answers and the request's own context matter to.
\<close>

fun answer_call :: "call \<Rightarrow> bool" where
  "answer_call (Httpd (RespSendErr _)) = True"
| "answer_call (Httpd RespSend500) = True"
| "answer_call (Httpd (RespSend _)) = True"
| "answer_call _ = False"

definition handler_call :: "call \<Rightarrow> bool" where
  "handler_call c \<longleftrightarrow> not_queue c \<and> \<not> answer_call c"

definition handler_pred :: "('x app_api_scheme \<Rightarrow> bool) \<Rightarrow> bool" where
  "handler_pred P \<longleftrightarrow> app_pred P \<and> render_fields_free P \<and> manager_fields_free P \<and>
     absorbs_on handler_call P \<and> (\<forall>ev d. keeps P (ws_queue_send ev d))"

lemma handler_predD:
  assumes "handler_pred P"
  shows "app_pred P" "render_fields_free P" "manager_fields_free P" "not_queue c \<Longrightarrow> \<not> answer_call c \<Longrightarrow> absorbs P c"
    "keeps P (ws_queue_send ev d)"
  using assms by (simp_all add: handler_pred_def handler_call_def absorbs_on_def)

lemma not_queue_scroll: "scroll_call c \<Longrightarrow> not_queue c" "scroll_call c \<Longrightarrow> \<not> answer_call c"
  by (cases c; simp)+

lemma handlers_keep:
  assumes "handler_pred P"
    and "\<And>f. (\<And>c. \<not> manual_response c \<Longrightarrow> \<not> manual_response (f c)) \<Longrightarrow> keeps P (update_ctx req f)"
  shows "keeps P (app_api_auth_change_password req)" "keeps P (app_api_auth_reset_password req)"
    "keeps_pop P (app_api_ota_update req)" "keeps P (ota_begin req)" "keeps P (ota_pass req n rem cur pct)"
    "keeps P (ota_finish req)"
proof -
  note pred = handler_predD [OF assms(1)]
  have ret: "keeps P (app_api_return_err req st c n)" "keeps P (app_api_return_ok req)"
    "keeps P (app_api_return_json req j)" for st c n j
    unfolding app_api_return_err_def app_api_return_ok_def app_api_return_json_def
    by (auto intro!: keeps_intro assms(2))
  show "keeps P (app_api_auth_change_password req)" "keeps P (app_api_auth_reset_password req)"
    unfolding app_api_auth_change_password_def app_api_auth_reset_password_def Let_def
    by (auto intro!: keeps_intro ret pred(4))
  have scroll: "keeps P ui_manager_suspend" "keeps P ui_manager_resume"
    using ui_manager_keeps(5,6) [OF pred(1-3)] by (simp_all add: pred(4) not_queue_scroll)
  have ev: "keeps P (send_ota_progress_event k n)" for k n
    unfolding send_ota_progress_event_def by (intro keeps_bind keeps_ret pred(5))
  note ops = scroll ev ret app_pred_ui [OF pred(1)] pred(4)
  show pass: "keeps P (ota_pass req n rem cur pct)" for n rem cur pct
    unfolding ota_pass_def ota_show_progress_def Let_def by (auto intro!: keeps_intro ops)
  have loop: "keeps_pop P (ota_loop req n rem cur pct)" for n rem cur pct
    unfolding keeps_pop_def
    by (intro allI impI, erule ota_loop_keeps [where out = "(_, _)", simplified]) (simp_all add: pass)
  show "keeps P (ota_begin req)" "keeps P (ota_finish req)"
    unfolding ota_begin_def ota_finish_def Let_def by (auto intro!: keeps_intro ops)
  then show "keeps_pop P (app_api_ota_update req)"
    unfolding app_api_ota_update_def
    by (auto intro!: keeps_intro loop split: option.split sum.split)
qed

lemma plain_endpoint_keeps:
  assumes "ep \<in> set app_api_get_endpoints" "\<not> ep_is_ws ep" "ep_handler ep = Some h"
    and "handler_pred P"
    and "\<And>f. (\<And>c. \<not> manual_response c \<Longrightarrow> \<not> manual_response (f c)) \<Longrightarrow> keeps P (update_ctx req f)"
  shows "keeps_pop P (h req)"
  using assms(1-3) handlers_keep [OF assms(4,5)]
  by (auto simp: app_api_get_endpoints_def intro!: keeps_run_op)

text \<open>A request that is let through: authorised, given a context, handled, finished.\<close>

lemma middleware_run:
  assumes "ep \<in> set app_api_get_endpoints"
    and "http_middleware (Some (https_cfg c)) (Some ep) req s = Some (r, s')"
  obtains (refused) s1 where "run_state (app_api_check_auth req) s = (False, s1)"
      "s' = s1\<lparr>trace := trace s1 @ [Httpd (RespSendErr 401)]\<rparr>"
  | (served) h s1 p s2 lr s3 where "ep_handler ep = Some h" "run_state (app_api_check_auth req) s = (True, s1)"
      "run_state (app_api_create_ctx req) s1 = (p, s2)"
      "h (req\<lparr>req_user_ctx := (case p of Some p \<Rightarrow> UcApi p | None \<Rightarrow> req_user_ctx req)\<rparr>) s2 = Some (lr, s3)"
      "run_state (middleware_finish (Some (https_cfg c)) ep req p lr) s3 = (r, s')"
proof -
  obtain h where h: "ep_handler ep = Some h" "\<not> ep_is_public ep"
    using assms(1) by (auto simp: app_api_get_endpoints_def)
  obtain ok s1 where auth: "run_state (app_api_check_auth req) s = (ok, s1)"
    by (cases "run_state (app_api_check_auth req) s")
  show thesis
  proof (cases ok)
    case False
    with auth h assms(2) show thesis
      by (intro refused [of s1]) (auto simp: http_middleware_def middleware_auth_def https_cfg_def)
  next
    case True
    obtain p s2 where create: "run_state (app_api_create_ctx req) s1 = (p, s2)"
      by (cases "run_state (app_api_create_ctx req) s1")
    let ?req = "req\<lparr>req_user_ctx := (case p of Some p \<Rightarrow> UcApi p | None \<Rightarrow> req_user_ctx req)\<rparr>"
    have "http_middleware (Some (https_cfg c)) (Some ep) req s =
        then_pop (h ?req) (\<lambda>lr. run_op (middleware_finish (Some (https_cfg c)) ep req p lr)) s2"
      using True auth h create
      by (simp add: http_middleware_def middleware_auth_def middleware_ctx_def https_cfg_def)
    with assms(2) obtain lr s3 where run: "h ?req s2 = Some (lr, s3)"
      and fin: "run_state (middleware_finish (Some (https_cfg c)) ep req p lr) s3 = (r, s')"
      by (auto simp: then_pop_Some)
    show thesis by (rule served [OF h(1) _ create run fin]) (use True auth in simp)
  qed
qed

section \<open>Contexts across a request\<close>

text \<open>What a handler may do to the contexts: change its own one. \<open>UcApi\<close> is the request's
  context, anything else carries none.\<close>

definition ctx_frame :: "user_ctx \<Rightarrow> (nat \<Rightarrow> api_ctx option) \<Rightarrow> 'x app_api_scheme \<Rightarrow> bool" where
  "ctx_frame uc m s = (case uc of UcApi p \<Rightarrow> ctx_held p m s | _ \<Rightarrow> api_ctxs s = m)"

lemma absorbs_ctx_frame: "absorbs (ctx_frame uc m) c"
  by (simp add: absorbs_def ctx_frame_def ctx_held_def split: user_ctx.split)

lemma ctx_frame_free:
  "ui_fields_free (ctx_frame uc m)" "ind_fields_free (ctx_frame uc m)" "render_fields_free (ctx_frame uc m)"
  "manager_fields_free (ctx_frame uc m)" "ignores port_shadow_update (ctx_frame uc m)"
  "ignores heap_update (ctx_frame uc m)" "ignores next_ptr_update (ctx_frame uc m)"
  "ignores mem_fault_update (ctx_frame uc m)" "ignores s_ws_queue_update (ctx_frame uc m)"
  by (simp_all add: ignores_def ctx_frame_def ctx_held_def ui_fields_free_def ind_fields_free_def
      render_fields_free_def manager_fields_free_def split: user_ctx.split)

lemma app_pred_ctx_frame: "app_pred (ctx_frame uc m)"
  by (rule app_pred_frame) (simp_all add: absorbs_on_def absorbs_ctx_frame ctx_frame_free)

lemma update_ctx_frame: "keeps (ctx_frame (req_user_ctx req) m) (update_ctx req f)"
  by (rule keepsI) (auto simp: update_ctx_def ctx_frame_def ctx_held_def split: user_ctx.splits)

lemma handler_pred_ctx_frame: "handler_pred (ctx_frame uc m)"
  unfolding handler_pred_def
  by (intro conjI allI app_pred_ctx_frame ctx_frame_free queue_keeps absorbs_ctx_frame)
    (simp add: absorbs_on_def absorbs_ctx_frame)

lemma callbacks_ctxs:
  "api_ctxs (exec (on_command_action n) s) = api_ctxs s" "api_ctxs (exec (on_command_error n err) s) = api_ctxs s"
  using keepsD [OF callbacks_keep(4) [OF app_pred_ctx_frame [of UcNull "api_ctxs s"]], of s n]
    keepsD [OF callbacks_keep(5) [OF app_pred_ctx_frame [of UcNull "api_ctxs s"]], of s n err]
  by (simp_all add: ctx_frame_def)

text \<open>A request makes at most one context, and frees it: the others, and the size of the
  store, are as before, whatever the handler does.\<close>

lemma middleware_ctxs:
  assumes "ep \<in> set app_api_get_endpoints" "\<not> ep_is_ws ep" "ctx_wf s" "req_user_ctx req = UcEndpoint"
    and "http_middleware (Some (https_cfg c)) (Some ep) req s = Some (r, s')"
  shows "api_ctxs s' = api_ctxs s"
proof -
  have auth: "api_ctxs s1 = api_ctxs s \<and> ctx_wf s1" if "run_state (app_api_check_auth req) s = (ok, s1)" for ok s1
  proof -
    have "keeps (\<lambda>s'. api_ctxs s' = api_ctxs s \<and> next_ctx s' = next_ctx s) (app_api_check_auth req)"
      unfolding app_api_check_auth_def Let_def by (auto intro!: keeps_intro simp: absorbs_def)
    from keepsD [OF this, of s] that assms(3) show ?thesis by (simp add: ctx_wf_def)
  qed
  show ?thesis
    using assms(1,5)
  proof (cases rule: middleware_run)
    case (refused s1)
    from auth [OF this(1)] this(2) show ?thesis by simp
  next
    case (served h s1 p s2 lr s3)
    note s1 = auth [OF served(2)]
    let ?req = "req\<lparr>req_user_ctx := (case p of Some p \<Rightarrow> UcApi p | None \<Rightarrow> req_user_ctx req)\<rparr>"
    have "ctx_frame (req_user_ctx ?req) (api_ctxs s) s2"
    proof (cases p)
      case None
      with create_ctx_none [of req s1 s2] served(3) s1 assms(4) show ?thesis by (auto simp: ctx_frame_def)
    next
      case (Some q)
      with create_ctx_held(1) [of s1 req q s2] served(3) s1 show ?thesis by (simp add: ctx_frame_def)
    qed
    from keeps_popD [OF plain_endpoint_keeps [OF assms(1,2) served(1) handler_pred_ctx_frame update_ctx_frame] this served(4)]
    have s3: "ctx_frame (req_user_ctx ?req) (api_ctxs s) s3" .
    have "api_ctxs (exec (app_api_handle_response req p lr) s3) = api_ctxs s"
      using s3 handle_response_frees assms(4)
      by (cases p) (auto simp: ctx_frame_def app_api_handle_response_def)
    then show ?thesis
      using served(5) by (auto simp: middleware_finish_def https_cfg_def callbacks_ctxs case_prod_beta split: if_splits)
  qed
qed

end
