(* ===== verification/Runtime.thy ===== *)
theory Runtime
  imports Security Request_Contexts
begin

text \<open>
  Further invariants of the running firmware: the command table, the carousel's timer.
\<close>

section \<open>The command table\<close>

lemma pop_seq_append:
  "pop_seq (ps @ qs) s = Some r \<longleftrightarrow> (\<exists>s1. pop_seq ps s = Some ((), s1) \<and> pop_seq qs s1 = Some r)"
  by (induction ps arbitrary: s) (auto simp: then_pop_Some)

lemma world_router: "world_pred (router_ready :: 'x app_api_scheme \<Rightarrow> bool)"
  "keeps (router_ready :: 'x app_api_scheme \<Rightarrow> bool) ui_manager_init"
proof -
  have "app_pred (router_ready :: 'x app_api_scheme \<Rightarrow> bool)"
    by (rule app_pred_frame)
      (auto simp: absorbs_on_def absorbs_def ignores_def router_ready_def ui_fields_free_def ind_fields_free_def)
  then have "base_pred (router_ready :: 'x app_api_scheme \<Rightarrow> bool)"
    by (auto simp: base_pred_def absorbs_on_def absorbs_def world_fields_free_def ignores_def router_ready_def)
  then show "world_pred (router_ready :: 'x app_api_scheme \<Rightarrow> bool)"
    "keeps (router_ready :: 'x app_api_scheme \<Rightarrow> bool) ui_manager_init"
    by (intro world_pred_intro; auto simp: manager_fields_free_def ignores_def absorbs_def router_ready_def)+
qed

text \<open>Until the router is initialised its table is empty.\<close>

definition no_commands :: "'x ws_cmd_router_scheme \<Rightarrow> bool" where
  "no_commands s \<longleftrightarrow> s_commands s = []"

lemma app_no_commands: "app_pred no_commands"
  by (rule app_pred_frame)
    (auto simp: absorbs_on_def absorbs_def ignores_def no_commands_def ui_fields_free_def ind_fields_free_def)

lemma base_no_commands: "base_pred (no_commands :: 'x app_api_scheme \<Rightarrow> bool)"
  by (auto simp: base_pred_def app_no_commands absorbs_on_def absorbs_def world_fields_free_def ignores_def
      no_commands_def)

lemma no_commands_boot:
  "absorbs_on nvs_write (no_commands :: 'x app_api_scheme \<Rightarrow> bool)"
  "keeps_pop (no_commands :: 'x app_api_scheme \<Rightarrow> bool) boot_hardware"
  by (simp add: absorbs_on_def absorbs_def no_commands_def)
    (rule hardware_frame,
      auto simp: absorbs_on_def absorbs_def ignores_def no_commands_def ui_fields_free_def ind_fields_free_def)

lemma router_init_ready:
  assumes "no_commands s" "run_state (ws_cmd_router_init True True) s = (r, s')"
  shows "router_ready s'"
proof -
  have "s_on_executed_cb s' \<and> s_on_error_cb s'"
    using assms(2) by (auto simp: ws_cmd_router_init_def ws_cmd_register_def ws_cmd_table_def Let_def split: if_splits)
  then show ?thesis
    using router_init_table(1) [of s True True] assms by (simp add: router_ready_def no_commands_def)
qed

lemma services_router:
  fixes s :: "'x app_api_scheme"
  assumes "boot_services c s = Some ((), s')" "no_commands s"
  shows "router_ready s'"
proof -
  let ?P = "no_commands :: 'x app_api_scheme \<Rightarrow> bool" and ?Q = "router_ready :: 'x app_api_scheme \<Rightarrow> bool"
  note pre = boot_ops_keep [OF base_no_commands] and post = boot_ops_keep [OF world_pred_base [OF world_router(1)]]
  define before :: "('x app_api_scheme, unit) pop list" where "before =
     [boot_stage ''Config IO ports'' 6,
      CHECK_CRITICAL (run_op (io_input_init (Some io_button_get_buttons))) ''IO input fail'',
      CHECK_CRITICAL (run_op uart_bus_rs485_init) ''RS485 fail'',
      CHECK_CRITICAL (run_op uart_bus_rs232_init) ''RS232 fail'', boot_cooldown,
      boot_stage ''Start services'' 7,
      CHECK_CRITICAL (run_op (call_err (Net NetifInit))) ''Netif fail'',
      CHECK_CRITICAL (run_op (call_err (Net EventLoopCreate))) ''EventLoop fail'',
      CHECK_CRITICAL (run_op (call_err (Net GpioIsrInstall))) ''GPIO ISR fail'', boot_cooldown,
      boot_stage ''Config HTTPS'' 8,
      CHECK_CRITICAL (run_op ws_queue_init) ''WS queue fail'',
      CHECK_CRITICAL (run_op ws_dispatcher_init) ''WS disp fail'']"
  define after :: "('x app_api_scheme, unit) pop list" where "after =
     [CHECK_CRITICAL (run_op (https_server_service_init (Some (https_cfg c)))) ''HTTPS fail'', boot_cooldown]"
  have "boot_services c = pop_seq (before @ [CHECK_CRITICAL (run_op (ws_cmd_router_init True True)) ''WS router fail''] @ after)"
    by (simp add: boot_services_def before_def after_def)
  with assms(1) obtain s1 s2 where b: "pop_seq before s = Some ((), s1)"
      "run_state (ws_cmd_router_init True True) s1 = (ESP_OK, s2)" "pop_seq after s2 = Some ((), s')"
    by (auto simp: pop_seq_append critical_Some then_pop_Some)
  have "keeps_pop ?P (pop_seq before)"
    unfolding before_def by (auto intro!: keeps_pop_seq keeps_critical keeps_run_op pre)
  from keeps_popD [OF this assms(2) b(1)] have "?Q s2" by (rule router_init_ready [OF _ b(2)])
  moreover have "keeps_pop ?Q (pop_seq after)"
    unfolding after_def by (auto intro!: keeps_pop_seq keeps_critical keeps_run_op post)
  ultimately show ?thesis using b(3) by (blast dest: keeps_popD)
qed

lemma boot_router:
  assumes "app_main s = Some (c, s')" "power_on s"
  shows "router_ready s'"
proof -
  from assms(1) obtain s1 s2 s3 s4 s5 where b: "boot_hardware s = Some ((), s1)" "boot_storage s1 = Some ((), s2)"
      "boot_config s2 = Some (c, s3)" "boot_services c s3 = Some ((), s4)"
      "boot_network c s4 = Some ((), s5)" "boot_ready s5 = Some ((), s')"
    unfolding app_main_Some by blast
  have "no_commands s" using assms(2) by (simp add: power_on_def no_commands_def)
  from keeps_popD [OF no_commands_boot(2) this b(1)] have "no_commands s1" .
  from keeps_popD [OF boot_before_manager(1) [OF base_no_commands no_commands_boot(1)] this b(2)] have "no_commands s2" .
  from keeps_popD [OF boot_before_manager(2) [OF base_no_commands no_commands_boot(1)] this b(3)] have "no_commands s3" .
  from services_router [OF b(4) this] have "router_ready s4" .
  from keeps_popD [OF boot_before_manager(4) [OF world_pred_base [OF world_router(1)]] this b(5)] have "router_ready s5" .
  from keeps_popD [OF world_boot_tail [OF world_pred_base [OF world_router(1)] world_router(2)] this b(6)]
  show ?thesis .
qed

lemma reachable_router: "fw_reachable e c s \<Longrightarrow> router_ready s"
proof (erule reachable_pred [OF _ world_router(1)])
  show "password_pred (router_ready :: 'a app_api_scheme \<Rightarrow> bool)"
    by (rule password_pred_nvs [OF world_pred_base [OF world_router(1)]])
      (simp add: absorbs_on_def absorbs_def router_ready_def)
qed (rule boot_router)

section \<open>The carousel's timer\<close>

definition has_scroll_timer :: "'x ui_manager_scheme \<Rightarrow> bool" where
  "has_scroll_timer s \<longleftrightarrow> auto_scroll_timer s"

lemma world_timer: "world_pred (has_scroll_timer :: 'x app_api_scheme \<Rightarrow> bool)"
proof -
  let ?P = "has_scroll_timer :: 'x app_api_scheme \<Rightarrow> bool"
  have "app_pred ?P"
    by (rule app_pred_frame)
      (auto simp: absorbs_on_def absorbs_def ignores_def has_scroll_timer_def ui_fields_free_def ind_fields_free_def)
  then have base: "base_pred ?P"
    by (auto simp: base_pred_def absorbs_on_def absorbs_def world_fields_free_def ignores_def has_scroll_timer_def)
  have "keeps ?P auto_scroll_callback" "keeps ?P ui_manager_switch_mode" "keeps ?P ui_manager_manual_mode"
    "keeps ?P ui_manager_suspend" "keeps ?P ui_manager_resume"
    unfolding ui_manager_defs
    by (auto simp: keeps_def has_scroll_timer_def turn_page_frame temp_message_frame render_frame case_prod_beta)
  with base show ?thesis by (simp add: world_pred_def)
qed

lemma boot_timer:
  assumes "app_main s = Some (c, s')"
  shows "has_scroll_timer s'"
proof -
  from assms obtain s5 where "boot_ready s5 = Some ((), s')" unfolding app_main_Some by blast
  from boot_ready_Some [OF this] obtain s1 where "run_state ui_manager_init s1 = (ESP_OK, s')" by blast
  then show ?thesis
    by (auto simp: ui_manager_init_def has_scroll_timer_def case_prod_beta render_frame split: if_splits)
qed

text \<open>The timer runs exactly in automatic mode outside an update, in every reachable state.\<close>

lemma reachable_carousel:
  assumes "fw_reachable e c s"
  shows "scroll_running (trace s) \<longleftrightarrow> auto_mode s \<and> \<not> is_suspended s"
proof -
  have "has_scroll_timer s"
  proof (rule reachable_pred [OF assms world_timer])
    show "password_pred (has_scroll_timer :: 'a app_api_scheme \<Rightarrow> bool)"
      by (rule password_pred_nvs [OF world_pred_base [OF world_timer]])
        (simp add: absorbs_on_def absorbs_def has_scroll_timer_def)
  qed (rule boot_timer)
  with reachable_scroll [OF assms] show ?thesis by (simp add: scroll_inv_def has_scroll_timer_def)
qed

text \<open>A tick turns the page in that mode, and does nothing otherwise.\<close>

lemma scroll_tick:
  "current_page (exec auto_scroll_callback s) =
     (if auto_mode s \<and> \<not> is_suspended s then next_page (current_page s) else current_page s)"
  "auto_mode (exec auto_scroll_callback s) = auto_mode s"
  "is_suspended (exec auto_scroll_callback s) = is_suspended s"
  by (simp_all add: auto_scroll_callback_def turn_page_frame)

lemma scroll_ticks:
  "current_page ((exec auto_scroll_callback ^^ k) s) =
     (if auto_mode s \<and> \<not> is_suspended s then (next_page ^^ k) (current_page s) else current_page s) \<and>
   auto_mode ((exec auto_scroll_callback ^^ k) s) = auto_mode s \<and>
   is_suspended ((exec auto_scroll_callback ^^ k) s) = is_suspended s"
  by (induction k) (simp_all add: scroll_tick)

section \<open>Commands\<close>

text \<open>
  The panel's protocol: the serial line and the bytes each action stands for. The screen is
  on RS485 (port 2): down is \<open>EE\<close>, stop \<open>CC\<close>, up \<open>DD\<close>. The projector is on RS232 (port 1) and
  reads the text \<open>~0000 1\<close> (on), \<open>~0000 0\<close> (off), \<open>~0004 1\<close> (picture and sound muted) and
  \<open>~0004 0\<close> (not muted), each ended by a carriage return. A projection starts with the screen
  down and the projector on and ends with the screen up and the projector off; the other
  actions send nothing.
\<close>

definition serial_protocol :: "(string \<times> (nat \<times> byte list) list) list" where
  "serial_protocol =
     [(''cmd_screen_down'', [(2, screen_frame 0xEE)]),
      (''cmd_screen_stop'', [(2, screen_frame 0xCC)]),
      (''cmd_screen_up'', [(2, screen_frame 0xDD)]),
      (''cmd_projector_on'', [(1, bytes_of_string (''~0000 1'' @ [CHR 0x0D]))]),
      (''cmd_projector_off'', [(1, bytes_of_string (''~0000 0'' @ [CHR 0x0D]))]),
      (''cmd_av_mute_on'', [(1, bytes_of_string (''~0004 1'' @ [CHR 0x0D]))]),
      (''cmd_av_mute_off'', [(1, bytes_of_string (''~0004 0'' @ [CHR 0x0D]))]),
      (''cmd_start_projection'',
        [(2, screen_frame 0xEE), (1, bytes_of_string (''~0000 1'' @ [CHR 0x0D]))]),
      (''cmd_end_projection'',
        [(2, screen_frame 0xDD), (1, bytes_of_string (''~0000 0'' @ [CHR 0x0D]))])]"

text \<open>The serial frames a message causes.\<close>

definition action_frames :: "ext_env \<Rightarrow> string \<Rightarrow> (nat \<times> byte list) list" where
  "action_frames e payload =
     (case Option.bind (message_action e payload) (map_of serial_protocol) of
        Some fs \<Rightarrow> fs | None \<Rightarrow> [])"

text \<open>Every registered handler sends what the protocol says for its name.\<close>

lemma table_protocol:
  assumes "(a, n, f) \<in> set ws_cmd_table"
  shows "(case map_of serial_protocol a of Some fs \<Rightarrow> fs | None \<Rightarrow> []) = cmd_frames f"
proof -
  have "list_all (\<lambda>(a, n, f). (case map_of serial_protocol a of Some fs \<Rightarrow> fs | None \<Rightarrow> []) = cmd_frames f) ws_cmd_table"
    by (simp add: ws_cmd_table_def serial_protocol_def optoma_frame_def)
  then show ?thesis using assms by (auto simp: list_all_iff)
qed

lemma protocol_registered: "fst ` set serial_protocol \<subseteq> fst ` set ws_cmd_table"
  by (simp add: serial_protocol_def ws_cmd_table_def)

lemma handle_frames:
  assumes "router_ready s" "parsed_strings_ok (ext s)"
  shows "uart_writes (trace (exec (ws_cmd_handle payload) s)) =
    uart_writes (trace s) @ action_frames (ext s) payload"
proof (cases "\<exists>a n f. message_action (ext s) payload = Some a \<and> (a, n, f) \<in> set ws_cmd_table")
  case True
  then obtain a n f where a: "message_action (ext s) payload = Some a" "(a, n, f) \<in> set ws_cmd_table" by blast
  then have f: "action_frames (ext s) payload = cmd_frames f"
    using table_protocol [OF a(2)] by (simp add: action_frames_def)
  obtain res notify s1 where r: "run_state (run_cmd f (message_value (ext s) payload)) s = ((res, notify), s1)"
    by (cases "run_state (run_cmd f (message_value (ext s) payload)) s") auto
  have w: "uart_writes (trace s1) = uart_writes (trace s) @ cmd_frames f"
    using cmd_writes [of f "message_value (ext s) payload" s] r by simp
  have "uart_writes (trace (exec (ws_cmd_notify e res) s1)) = uart_writes (trace s1)" for e
    using keepsD [OF notify_wrote [of "uart_writes (trace s1)" e res], of s1] by (simp add: wrote_def)
  then show ?thesis
    using run_handle_registered [OF a(1) assms(1) a(2)] r w f by (cases notify) simp_all
next
  case False
  then have "action_frames (ext s) payload = []"
    using protocol_registered
    by (auto simp: action_frames_def map_of_eq_None_iff split: option.split bind_split)
      (metis (no_types, lifting) False fst_conv image_iff map_of_SomeD prod.collapse subset_iff)
  moreover have "exec (ws_cmd_handle payload) s = s"
    by (rule run_handle_ignored [OF assms(2,1)]) (use False in \<open>force simp: image_iff\<close>)
  ultimately show ?thesis by simp
qed

end
