(* ===== verification/Memory.thy ===== *)
theory Memory
  imports Runtime
begin

text \<open>
  Memory safety of the running firmware. \<open>owned\<close> (theory \<open>Ws_Queue\<close>) says that the heap
  is made of the queue's payloads and a set of other blocks; here the blocks the server
  holds (\<open>srv_blocks\<close>) are distinct ones of these, and the blocks a running operation
  holds are apart from them. Every operation of the program keeps that, and so no state
  of a running device has freed a block twice or used one after it was freed.
\<close>

section \<open>The server's blocks\<close>

fun opt_list :: "'a option \<Rightarrow> 'a list" where
  "opt_list None = []"
| "opt_list (Some x) = [x]"

definition srv_blocks :: "'x https_server_scheme \<Rightarrow> nat list" where
  "srv_blocks s =
     opt_list (if server s then server_ctx s else None) @ opt_list (cert_buffer s) @ opt_list (key_buffer s)"

lemma srv_blocks_frame [simp]:
  "srv_blocks (s\<lparr>trace := t\<rparr>) = srv_blocks s" "srv_blocks (s\<lparr>heap := h\<rparr>) = srv_blocks s"
  "srv_blocks (s\<lparr>next_ptr := n\<rparr>) = srv_blocks s" "srv_blocks (s\<lparr>mem_fault := b\<rparr>) = srv_blocks s"
  by (simp_all add: srv_blocks_def)

text \<open>The blocks outside the queue; \<open>B\<close> are those the operation in progress holds.\<close>

definition loose :: "'x platform_scheme \<Rightarrow> nat set" where
  "loose s = dom (heap s) - snd ` set (pending s)"

definition mem :: "ext_env \<Rightarrow> nat set \<Rightarrow> 'x https_server_scheme \<Rightarrow> bool" where
  "mem e B s \<longleftrightarrow> ext s = e \<and> owned (loose s) s \<and> B \<union> set (srv_blocks s) \<subseteq> loose s \<and>
     B \<inter> set (srv_blocks s) = {} \<and> distinct (srv_blocks s)"

lemma owned_loose: "owned C s \<Longrightarrow> loose s = C"
  by (auto simp: owned_def loose_def)

lemma memI:
  assumes "ext s = e" "owned C s" "B \<union> set (srv_blocks s) \<subseteq> C" "B \<inter> set (srv_blocks s) = {}" "distinct (srv_blocks s)"
  shows "mem e B s"
  using assms by (simp add: mem_def owned_loose [OF assms(2)])

lemma memE:
  assumes "mem e B s"
  obtains C where "ext s = e" "owned C s" "B \<union> set (srv_blocks s) \<subseteq> C" "B \<inter> set (srv_blocks s) = {}" "distinct (srv_blocks s)"
  using assms by (auto simp: mem_def)

lemma mem_safe: "mem e B s \<Longrightarrow> \<not> mem_fault s"
  by (auto elim!: memE simp: owned_def)

lemma mem_live: "mem e (insert p B) s \<Longrightarrow> \<exists>v. heap s p = Some v"
  by (erule memE) (auto simp: owned_def dom_def set_eq_iff)

lemma mem_heap_wf: "mem e B s \<Longrightarrow> heap_wf s"
  by (auto elim!: memE simp: owned_def)

lemma absorbs_mem: "not_queue c \<Longrightarrow> absorbs (mem e B) c"
  by (auto simp: absorbs_def elim!: memE intro!: memI absorbs_owned [unfolded absorbs_def, rule_format])

lemma mem_call: "not_queue c \<Longrightarrow> mem e B s \<Longrightarrow> mem e B (s\<lparr>trace := trace s @ [c]\<rparr>)"
  by (rule absorbs_mem [unfolded absorbs_def, rule_format])

lemma mem_free_fields:
  "ignores port_shadow_update (mem e B)" "ui_fields_free (mem e B)" "ind_fields_free (mem e B)"
  "render_fields_free (mem e B)" "manager_fields_free (mem e B)"
  "ignores bus_mutex_update (mem e B)" "ignores io_mutex_update (mem e B)"
  "ignores btns_update (mem e B)" "ignores lcd_backlight_off_update (mem e B)"
  "ignores s_ws_queue_update (mem e B)" "ignores s_active_socket_update (mem e B)"
  "ignores s_server_handle_update (mem e B)" "ignores s_commands_update (mem e B)"
  "ignores s_on_executed_cb_update (mem e B)" "ignores s_on_error_cb_update (mem e B)"
  by (simp_all add: ignores_def mem_def srv_blocks_def loose_def owned_def pending_def heap_wf_def ui_fields_free_def
      ind_fields_free_def render_fields_free_def manager_fields_free_def)

lemma app_pred_mem: "app_pred (mem e B)"
proof (rule app_pred_frame)
  have "low_call c \<Longrightarrow> not_queue c" for c by (cases c) simp_all
  then show "absorbs_on low_call (mem e B)" by (auto simp: absorbs_on_def intro: absorbs_mem)
qed (rule mem_free_fields)+

text \<open>An operation that keeps the ownership and does not touch the server's variables.\<close>

lemma keeps_mem:
  fixes m :: "('x https_server_scheme, 'a) op"
  assumes "\<And>C s. owned C s \<Longrightarrow> ext s = e \<Longrightarrow> owned C (exec m s)"
    and "\<And>b. keeps (\<lambda>s. ext s = e \<and> srv_blocks s = b) m"
  shows "keeps (mem e B) m"
proof (rule keepsI)
  fix s :: "'x https_server_scheme"
  assume "mem e B s"
  then obtain C where C: "ext s = e" "owned C s" "B \<union> set (srv_blocks s) \<subseteq> C" "B \<inter> set (srv_blocks s) = {}"
      "distinct (srv_blocks s)"
    by (rule memE)
  have "ext (exec m s) = e \<and> srv_blocks (exec m s) = srv_blocks s"
    by (rule keepsD [OF assms(2)]) (simp add: C(1))
  with C assms(1) [OF C(2,1)] show "mem e B (exec m s)" by (intro memI [where C = C]) simp_all
qed

section \<open>Allocating and freeing\<close>

lemma mem_malloc:
  assumes "mem e B s"
  shows "case result (malloc_buf n v) s of
      None \<Rightarrow> mem e B (exec (malloc_buf n v) s)
    | Some p \<Rightarrow> p \<notin> B \<and> mem e (insert p B) (exec (malloc_buf n v) s)"
proof -
  obtain C where C: "ext s = e" "owned C s" "B \<union> set (srv_blocks s) \<subseteq> C" "B \<inter> set (srv_blocks s) = {}"
      "distinct (srv_blocks s)"
    using assms by (rule memE)
  have frame: "ext (exec (malloc_buf n v) s) = e" "srv_blocks (exec (malloc_buf n v) s) = srv_blocks s"
    using C(1) by (simp_all add: run_malloc_buf srv_blocks_def)
  show ?thesis
  proof (cases "result (malloc_buf n v) s")
    case None
    with owned_malloc [OF C(2), of n v] C frame show ?thesis
      by (auto intro!: memI [where C = C])
  next
    case (Some p)
    with owned_malloc [OF C(2), of n v] have p: "p \<notin> C" "owned (insert p C) (exec (malloc_buf n v) s)"
      by auto
    with C frame have "mem e (insert p B) (exec (malloc_buf n v) s)"
      by (intro memI [where C = "insert p C"]) auto
    with p C(3) Some show ?thesis by auto
  qed
qed

lemma owned_free_member: "owned C s \<Longrightarrow> p \<in> C \<Longrightarrow> owned (C - {p}) (exec (free_str p) s)"
  by (rule owned_free) (simp_all add: insert_absorb)

lemma srv_blocks_free [simp]: "srv_blocks (exec (free_str p) s) = srv_blocks s"
  by (simp add: run_free_str srv_blocks_def)

lemma mem_free:
  assumes "mem e (insert p B) s" "p \<notin> B"
  shows "mem e B (exec (free_str p) s)"
proof -
  obtain C where C: "ext s = e" "owned C s" "insert p B \<union> set (srv_blocks s) \<subseteq> C"
      "insert p B \<inter> set (srv_blocks s) = {}" "distinct (srv_blocks s)"
    using assms(1) by (rule memE)
  have "owned (C - {p}) (exec (free_str p) s)" using C by (intro owned_free_member) auto
  with C assms(2) show ?thesis by (intro memI [where C = "C - {p}"]) auto
qed

lemma owned_write:
  assumes "owned C s" "p \<in> C"
  shows "owned C (s\<lparr>heap := (heap s)(p := Some v)\<rparr>)"
proof -
  have "p \<in> dom (heap s)" using assms by (auto simp: owned_def)
  then obtain w where "heap s p = Some w" by blast
  with assms(1) have "p < next_ptr s" by (simp add: owned_def heap_wf_def)
  moreover have "dom ((heap s)(p := Some v)) = dom (heap s)" using \<open>p \<in> dom (heap s)\<close> by auto
  ultimately show ?thesis using assms(1) by (simp add: owned_def pending_def heap_wf_def)
qed

lemma mem_write:
  assumes "mem e (insert p B) s"
  shows "mem e (insert p B) (s\<lparr>heap := (heap s)(p := Some v)\<rparr>)"
proof -
  obtain C where C: "ext s = e" "owned C s" "insert p B \<union> set (srv_blocks s) \<subseteq> C"
      "insert p B \<inter> set (srv_blocks s) = {}" "distinct (srv_blocks s)"
    using assms by (rule memE)
  then have "owned C (s\<lparr>heap := (heap s)(p := Some v)\<rparr>)" by (intro owned_write) auto
  with C show ?thesis by (intro memI [where C = C]) simp_all
qed

text \<open>A block an operation stops tracking stays allocated.\<close>

lemma mem_forget: "mem e B s \<Longrightarrow> A \<subseteq> B \<Longrightarrow> mem e A s"
  by (auto simp: mem_def)

section \<open>The server\<close>

lemma owned_server_fields [simp]:
  "owned C (s\<lparr>cert_buffer := x\<rparr>) = owned C s" "owned C (s\<lparr>key_buffer := x\<rparr>) = owned C s"
  "owned C (s\<lparr>server := b\<rparr>) = owned C s" "owned C (s\<lparr>server_ctx := x\<rparr>) = owned C s"
  by (simp_all add: owned_def pending_def heap_wf_def)

lemma mem_same:
  assumes "mem e B s" "ext t = ext s" "\<And>C. owned C s \<Longrightarrow> owned C t" "srv_blocks t = srv_blocks s"
  shows "mem e B t"
  using assms by (auto elim!: memE intro!: memI)

text \<open>Freeing one of the server's blocks and clearing the variable that held it.\<close>

lemma mem_release:
  assumes "mem e B s" "p \<in> set (srv_blocks s)"
    and "ext t = ext s" "\<And>C. owned C (exec (free_str p) s) \<Longrightarrow> owned C t" "srv_blocks t = remove1 p (srv_blocks s)"
  shows "mem e B t"
proof -
  obtain C where C: "ext s = e" "owned C s" "B \<union> set (srv_blocks s) \<subseteq> C" "B \<inter> set (srv_blocks s) = {}"
      "distinct (srv_blocks s)"
    using assms(1) by (rule memE)
  have "owned (C - {p}) t" using C assms(2) by (intro assms(4) owned_free_member) auto
  with C assms(2,3) show ?thesis by (intro memI [where C = "C - {p}"]) (auto simp: assms(5))
qed

lemma mem_drop_cert: "mem e B s \<Longrightarrow> mem e B ((exec (free_opt (cert_buffer s)) s)\<lparr>cert_buffer := None\<rparr>)"
proof (cases "cert_buffer s")
  case None
  then show "mem e B s \<Longrightarrow> ?thesis" by (simp add: free_opt_def) (erule mem_same, simp_all add: srv_blocks_def)
next
  case (Some p)
  assume m: "mem e B s"
  then have "distinct (srv_blocks s)" by (simp add: mem_def)
  then have new: "p \<notin> set (opt_list (if server s then server_ctx s else None))"
    by (auto simp: srv_blocks_def Some)
  show ?thesis
    by (rule mem_release [OF m, where p = p])
      (use new in \<open>simp_all add: Some free_opt_def run_free_str srv_blocks_def remove1_append del: set_empty\<close>)
qed

lemma mem_drop_key: "mem e B s \<Longrightarrow> mem e B ((exec (free_opt (key_buffer s)) s)\<lparr>key_buffer := None\<rparr>)"
proof (cases "key_buffer s")
  case None
  then show "mem e B s \<Longrightarrow> ?thesis" by (simp add: free_opt_def) (erule mem_same, simp_all add: srv_blocks_def)
next
  case (Some p)
  assume m: "mem e B s"
  then have "distinct (srv_blocks s)" by (simp add: mem_def)
  then have new: "p \<notin> set (opt_list (if server s then server_ctx s else None))" "p \<notin> set (opt_list (cert_buffer s))"
    by (auto simp: srv_blocks_def Some)
  show ?thesis
    by (rule mem_release [OF m, where p = p])
      (use new in \<open>simp_all add: Some free_opt_def run_free_str srv_blocks_def remove1_append del: set_empty\<close>)
qed

lemma mem_drop_server:
  assumes "mem e B s" "server s"
  shows "mem e B ((exec (free_opt (server_ctx s)) s)\<lparr>server := False, server_ctx := None\<rparr>)"
proof (cases "server_ctx s")
  case None
  with assms(2) show ?thesis
    by (simp add: free_opt_def) (rule mem_same [OF assms(1)], simp_all add: srv_blocks_def)
next
  case (Some p)
  show ?thesis
    by (rule mem_release [OF assms(1), where p = p])
      (simp_all add: Some assms(2) free_opt_def run_free_str srv_blocks_def)
qed

lemma stop_mem: "keeps (mem e B) https_server_stop"
proof (rule keepsI)
  fix s :: "'x https_server_scheme"
  assume s: "mem e B s"
  define s1 where "s1 = (if server s
    then (exec (free_opt (server_ctx s)) (s\<lparr>trace := trace s @ [Httpd SslStop]\<rparr>))\<lparr>server := False, server_ctx := None\<rparr>
    else s)"
  define s2 where "s2 = (exec (free_opt (cert_buffer s1)) s1)\<lparr>cert_buffer := None\<rparr>"
  have "mem e B s1"
    using s mem_drop_server [of e B "s\<lparr>trace := trace s @ [Httpd SslStop]\<rparr>"] mem_call [of "Httpd SslStop" e B s]
    by (simp add: s1_def)
  then have "mem e B s2" unfolding s2_def by (rule mem_drop_cert)
  then have "mem e B ((exec (free_opt (key_buffer s2)) s2)\<lparr>key_buffer := None\<rparr>)" by (rule mem_drop_key)
  moreover have "exec https_server_stop s = (exec (free_opt (key_buffer s2)) s2)\<lparr>key_buffer := None\<rparr>"
    by (simp add: https_server_stop_def case_prod_beta s1_def s2_def)
  ultimately show "mem e B (exec https_server_stop s)" by simp
qed

text \<open>Reading a file leaves the caller with a block of its own, or with none.\<close>

lemma triple_malloc_str:
  "triple (mem e B) (malloc_str v)
     (\<lambda>r s. case r of None \<Rightarrow> mem e B s | Some p \<Rightarrow> p \<notin> B \<and> mem e (insert p B) s)"
  unfolding triple_def malloc_str_def using mem_malloc by blast

lemma keeps_mem_call:
  assumes "not_queue c"
  shows "keeps (mem e B) (call_unit c)" "keeps (mem e B) (call_bool c)" "keeps (mem e B) (call_int c)"
    "keeps (mem e B) (call_err c)" "keeps (mem e B) (call_int_str c)" "keeps (mem e B) (call_err_str c)"
  by (intro keeps_calls absorbs_mem assms)+

lemma read_file_mem:
  assumes "mem e B s"
  shows "case result (helper_read_file_to_buffer path) s of
      None \<Rightarrow> mem e B (exec (helper_read_file_to_buffer path) s)
    | Some p \<Rightarrow> p \<notin> B \<and> mem e (insert p B) (exec (helper_read_file_to_buffer path) s)"
proof -
  let ?Q = "\<lambda>r s :: 'a https_server_scheme. case r of None \<Rightarrow> mem e B s | Some p \<Rightarrow> p \<notin> B \<and> mem e (insert p B) s"
  have none: "triple (mem e B) (do { call_unit (Fs FClose); ret None }) ?Q"
    by (intro triple_bind_keeps [OF keeps_mem_call(1)] triple_ret) simp_all
  have some: "triple (\<lambda>s. p \<notin> B \<and> mem e (insert p B) s)
      (do { (n, data) \<leftarrow> call_int_str (Fs (FRead k));
            modify (\<lambda>s. s\<lparr>heap := (heap s)(p := Some (c_string (take k data)))\<rparr>);
            call_unit (Fs FClose);
            ret (Some p) }) ?Q" for p k
    unfolding triple_def
  proof (intro allI impI, elim conjE)
    fix s :: "'a https_server_scheme"
    assume p: "p \<notin> B" and s: "mem e (insert p B) s"
    let ?v = "c_string (take k (str_of (ext s) (trace s) (Fs (FRead k))))"
    have "mem e (insert p B) (s\<lparr>trace := trace s @ [Fs (FRead k)]\<rparr>)" by (rule mem_call [OF _ s]) simp
    from mem_call [of "Fs FClose", OF _ mem_write [OF this, of ?v]] p
    show "?Q (result (do { (n, data) \<leftarrow> call_int_str (Fs (FRead k));
            modify (\<lambda>s. s\<lparr>heap := (heap s)(p := Some (c_string (take k data)))\<rparr>);
            call_unit (Fs FClose); ret (Some p) }) s)
          (exec (do { (n, data) \<leftarrow> call_int_str (Fs (FRead k));
            modify (\<lambda>s. s\<lparr>heap := (heap s)(p := Some (c_string (take k data)))\<rparr>);
            call_unit (Fs FClose); ret (Some p) }) s)"
      by (simp add: case_prod_beta)
  qed
  have "triple (mem e B) (helper_read_file_to_buffer path) ?Q"
    unfolding helper_read_file_to_buffer_def
  proof (intro triple_bind_keeps [OF keeps_mem_call(2)] triple_if triple_ret none
      triple_bind_keeps [OF keeps_mem_call(3)] triple_bind [OF triple_malloc_str])
    fix a :: "nat option" and k
    show "triple (\<lambda>s. case a of None \<Rightarrow> mem e B s | Some p \<Rightarrow> p \<notin> B \<and> mem e (insert p B) s)
      (case a of None \<Rightarrow> do { call_unit (Fs FClose); ret None }
       | Some p \<Rightarrow> do { (n, data) \<leftarrow> call_int_str (Fs (FRead (nat k)));
            modify (\<lambda>s. s\<lparr>heap := (heap s)(p := Some (c_string (take (nat k) data)))\<rparr>);
            call_unit (Fs FClose);
            ret (Some p) }) ?Q"
      using none some by (cases a) simp_all
  qed simp_all
  with assms show ?thesis by (simp add: triple_def)
qed

text \<open>A variable of the server takes over a block of the operation; what it held before is
  no longer tracked.\<close>

lemma mem_take:
  assumes "mem e (insert p B) s" "p \<notin> B" "ext t = ext s" "\<And>C. owned C s \<Longrightarrow> owned C t"
    and "distinct (srv_blocks t)" "set (srv_blocks t) \<subseteq> insert p (set (srv_blocks s))"
  shows "mem e B t"
  using assms(1)
proof (rule memE)
  fix C
  assume "ext s = e" "owned C s" "insert p B \<union> set (srv_blocks s) \<subseteq> C" "insert p B \<inter> set (srv_blocks s) = {}"
  with assms(2-6) show "mem e B t" by (intro memI [where C = C]) auto
qed

lemma mem_shrink:
  assumes "mem e B s" "ext t = ext s" "\<And>C. owned C s \<Longrightarrow> owned C t"
    and "distinct (srv_blocks t)" "set (srv_blocks t) \<subseteq> set (srv_blocks s)"
  shows "mem e B t"
  using assms(1)
proof (rule memE)
  fix C
  assume "ext s = e" "owned C s" "B \<union> set (srv_blocks s) \<subseteq> C" "B \<inter> set (srv_blocks s) = {}"
  with assms(2-5) show "mem e B t" by (intro memI [where C = C]) auto
qed

lemma mem_fresh: "mem e (insert p B) s \<Longrightarrow> p \<notin> set (srv_blocks s)"
  by (auto simp: mem_def)

lemma mem_distinct: "mem e B s \<Longrightarrow> distinct (srv_blocks s)"
  by (simp add: mem_def)

lemma after_reads_mem:
  assumes "mem e {} s"
  shows "mem e {} (after_reads cfg s)"
proof -
  let ?c = "helper_read_file_to_buffer (cacert_path cfg) :: ('a https_server_scheme, nat option) op"
  let ?k = "helper_read_file_to_buffer (prvtkey_path cfg) :: ('a https_server_scheme, nat option) op"
  define s1 where "s1 = (exec ?c s)\<lparr>cert_buffer := result ?c s\<rparr>"
  have "mem e {} s1"
  proof (cases "result ?c s")
    case None
    with read_file_mem [OF assms, of "cacert_path cfg"] have m: "mem e {} (exec ?c s)" by simp
    show ?thesis
      using mem_distinct [OF m] None
      by (intro mem_shrink [OF m]) (auto simp: s1_def srv_blocks_def)
  next
    case (Some p)
    with read_file_mem [OF assms, of "cacert_path cfg"] have m: "mem e {p} (exec ?c s)" by simp
    show ?thesis
      using mem_distinct [OF m] mem_fresh [OF m] Some
      by (intro mem_take [OF m]) (auto simp: s1_def srv_blocks_def)
  qed
  show ?thesis
  proof (cases "result ?k s1")
    case None
    with read_file_mem [OF \<open>mem e {} s1\<close>, of "prvtkey_path cfg"] have m: "mem e {} (exec ?k s1)" by simp
    show ?thesis
      using mem_distinct [OF m] None
      by (intro mem_shrink [OF m]) (auto simp: after_reads_def Let_def s1_def [symmetric] srv_blocks_def)
  next
    case (Some p)
    with read_file_mem [OF \<open>mem e {} s1\<close>, of "prvtkey_path cfg"] have m: "mem e {p} (exec ?k s1)" by simp
    show ?thesis
      using mem_distinct [OF m] mem_fresh [OF m] Some
      by (intro mem_take [OF m]) (auto simp: after_reads_def Let_def s1_def [symmetric] srv_blocks_def)
  qed
qed

text \<open>Wiping and freeing the certificate and the key after the start.\<close>

lemma owned_wipe:
  assumes "owned C s" "p \<in> C"
  shows "owned (C - {p}) (exec (wipe_and_free p) s)"
  using owned_free_member [OF owned_write [OF assms] assms(2)] by (simp add: wipe_and_free_def)

lemma mem_wipe:
  assumes "mem e B s" "p \<in> set (srv_blocks s)"
    and "ext t = ext s" "\<And>C. owned C (exec (wipe_and_free p) s) \<Longrightarrow> owned C t" "srv_blocks t = remove1 p (srv_blocks s)"
  shows "mem e B t"
  using assms(1)
proof (rule memE)
  fix C
  assume C: "ext s = e" "owned C s" "B \<union> set (srv_blocks s) \<subseteq> C" "B \<inter> set (srv_blocks s) = {}"
      "distinct (srv_blocks s)"
  have "owned (C - {p}) t" using C assms(2) by (intro assms(4) owned_wipe) auto
  with C assms(2,3) show "mem e B t" by (intro memI [where C = "C - {p}"]) (auto simp: assms(5))
qed

lemma ext_wipe [simp]: "ext (exec (wipe_and_free p) s) = ext s"
  by (simp add: wipe_and_free_def run_free_str)

lemma mem_wipe_cert:
  assumes "mem e B s" "cert_buffer s = Some p"
  shows "mem e B ((exec (wipe_and_free p) s)\<lparr>cert_buffer := None\<rparr>)"
proof -
  have new: "p \<notin> set (opt_list (if server s then server_ctx s else None))"
    using mem_distinct [OF assms(1)] assms(2) by (auto simp: srv_blocks_def)
  show ?thesis
    by (rule mem_wipe [OF assms(1), where p = p])
      (use new in \<open>simp_all add: assms(2) wipe_effect srv_blocks_def remove1_append del: set_empty\<close>)
qed

lemma mem_wipe_key:
  assumes "mem e B s" "key_buffer s = Some p"
  shows "mem e B ((exec (wipe_and_free p) s)\<lparr>key_buffer := None\<rparr>)"
proof -
  have new: "p \<notin> set (opt_list (if server s then server_ctx s else None))" "p \<notin> set (opt_list (cert_buffer s))"
    using mem_distinct [OF assms(1)] assms(2) by (auto simp: srv_blocks_def)
  show ?thesis
    by (rule mem_wipe [OF assms(1), where p = p])
      (use new in \<open>simp_all add: assms(2) wipe_effect srv_blocks_def remove1_append del: set_empty\<close>)
qed

lemma start_mem: "keeps (mem e {}) (https_server_start (Some cfg))"
proof (rule keepsI)
  fix s :: "'a https_server_scheme"
  assume "mem e {} s"
  then have s2: "mem e {} (after_reads cfg s)" by (rule after_reads_mem)
  define s2 where "s2 = after_reads cfg s"
  note m2 = s2 [folded s2_def]
  show "mem e {} (exec (https_server_start (Some cfg)) s)"
  proof (cases "cert_buffer s2 = None \<or> key_buffer s2 = None")
    case True
    then have "exec (https_server_start (Some cfg)) s = exec https_server_stop s2"
      by (auto simp: run_start s2_def [symmetric] Let_def split: option.splits)
    with keepsD [OF stop_mem m2] show ?thesis by simp
  next
    case False
    then obtain c k where ck: "cert_buffer s2 = Some c" "key_buffer s2 = Some k" by auto
    let ?m = "malloc_buf 60 [] :: ('a https_server_scheme, nat option) op"
    let ?call = "call_err (Httpd (SslStart (srv_port cfg))) :: ('a https_server_scheme, esp_err_t) op"
    have bufs: "cert_buffer (exec ?m s2) = Some c" "key_buffer (exec ?m s2) = Some k"
      using ck by (simp_all add: run_malloc_buf)
    show ?thesis
    proof (cases "result ?m s2")
      case None
      with mem_malloc [OF m2, of 60 "[]"] ck show ?thesis
        by (simp add: run_start s2_def [symmetric] Let_def case_prod_beta)
    next
      case (Some ctx)
      define s4 where "s4 = exec ?call (exec ?m s2)"
      have "mem e {ctx} (exec ?m s2)" using mem_malloc [OF m2, of 60 "[]"] Some by simp
      then have m4: "mem e {ctx} s4" unfolding s4_def by (rule keepsD [OF keeps_mem_call(4), rotated]) simp
      have bufs4: "cert_buffer s4 = Some c" "key_buffer s4 = Some k" using bufs by (simp_all add: s4_def)
      show ?thesis
      proof (cases "result ?call (exec ?m s2) = ESP_OK")
        case False
        have "mem e {} (exec (free_str ctx) s4)" using m4 by (intro mem_free) simp_all
        from keepsD [OF stop_mem this] False Some ck show ?thesis
          by (simp add: run_start s2_def [symmetric] Let_def case_prod_beta s4_def)
      next
        case True
        let ?s5 = "s4\<lparr>server := True, server_ctx := Some ctx\<rparr>"
        have "mem e {} ?s5"
          using mem_distinct [OF m4] mem_fresh [OF m4] by (intro mem_take [OF m4]) (auto simp: srv_blocks_def)
        then have "mem e {} ((exec (wipe_and_free c) ?s5)\<lparr>cert_buffer := None\<rparr>)"
          by (rule mem_wipe_cert) (simp add: bufs4)
        then have "mem e {} ((exec (wipe_and_free k) ((exec (wipe_and_free c) ?s5)\<lparr>cert_buffer := None\<rparr>))
            \<lparr>key_buffer := None\<rparr>)"
          by (rule mem_wipe_key) (simp add: wipe_effect bufs4)
        moreover have "keeps (mem e {}) (for_each (endpoints cfg) register_endpoint)"
          by (rule register_frame) (simp add: absorbs_mem)
        ultimately show ?thesis
          using True Some ck keepsD [of "mem e {}"]
          by (simp add: run_start s2_def [symmetric] Let_def case_prod_beta s4_def)
      qed
    qed
  qed
qed

section \<open>The tasks and the callbacks\<close>

text \<open>What only the server changes.\<close>

definition srv_frame :: "ext_env \<Rightarrow> nat list \<Rightarrow> 'x https_server_scheme \<Rightarrow> bool" where
  "srv_frame e b s \<longleftrightarrow> ext s = e \<and> srv_blocks s = b"

lemma srv_frame_free:
  "ignores heap_update (srv_frame e b)" "ignores next_ptr_update (srv_frame e b)"
  "ignores mem_fault_update (srv_frame e b)" "ignores s_ws_queue_update (srv_frame e b)"
  "ignores s_active_socket_update (srv_frame e b)" "ignores s_server_handle_update (srv_frame e b)"
  by (simp_all add: ignores_def srv_frame_def srv_blocks_def)

lemma absorbs_srv_frame: "absorbs (srv_frame e b) c"
  by (simp add: absorbs_def srv_frame_def)

lemma app_pred_srv_frame: "app_pred (srv_frame e b)"
  by (rule app_pred_frame)
    (auto simp: absorbs_on_def absorbs_srv_frame ignores_def srv_frame_def srv_blocks_def
      ui_fields_free_def ind_fields_free_def)

lemma queue_srv_frame: "keeps (srv_frame e b) (ws_queue_send ev d)"
  by (intro queue_keeps absorbs_srv_frame srv_frame_free)

lemmas keeps_mem_frame = keeps_mem [folded srv_frame_def]

lemma queue_mem: "keeps (mem e B) (ws_queue_send ev d)"
  by (rule keeps_mem_frame [OF _ queue_srv_frame]) (simp add: send_cases)

lemma round_mem: "keeps (mem e B) ws_task_round"
proof (rule keeps_mem_frame)
  show "keeps (srv_frame e b) ws_task_round" for b
    by (intro dispatcher_keeps absorbs_srv_frame srv_frame_free)
qed (rule task_round_owned)

lemma client_mem:
  "keeps (mem e B) (ws_dispatcher_add_client h sock)" "keeps (mem e B) (ws_dispatcher_remove_client sock)"
proof -
  have "keeps (srv_frame e b) (ws_dispatcher_add_client h sock)" "keeps (srv_frame e b) (ws_dispatcher_remove_client sock)"
    for b by (intro dispatcher_keeps absorbs_srv_frame srv_frame_free)+
  then show "keeps (mem e B) (ws_dispatcher_add_client h sock)" "keeps (mem e B) (ws_dispatcher_remove_client sock)"
    by (auto intro: keeps_mem_frame client_owned)
qed

lemma handle_mem:
  assumes "parsed_strings_ok e"
  shows "keeps (mem e B) (ws_cmd_handle payload)"
proof (rule keeps_mem_frame)
  show "owned C (exec (ws_cmd_handle payload) s)" if "owned C s" "ext s = e" for C and s :: "'a https_server_scheme"
    by (rule handle_owned) (use assms that in simp_all)
  show "keeps (srv_frame e b) (ws_cmd_handle payload)" for b
    by (intro handle_keeps app_pred_srv_frame absorbs_srv_frame queue_srv_frame srv_frame_free)
qed

lemma handler_pred_mem: "handler_pred (mem e B)"
  unfolding handler_pred_def
  by (intro conjI allI app_pred_mem mem_free_fields queue_mem) (simp add: absorbs_on_def absorbs_mem handler_call_def)

lemma mem_hw: "absorbs_on hw_neutral (mem e B)"
  by (rule app_pred_hw [OF app_pred_mem])

lemma tasks_mem:
  "keeps (mem e B) sys_ind_led_heartbeat_round" "keeps (mem e B) (turn_off_led_callback p)"
  "keeps (mem e B) buzzer_callback" "keeps (mem e B) env_monitor_round"
  "keeps (mem e B) (eth_event_handler (Some eth_callbacks_main) ev)"
  "keeps (mem e B) (pkt_eth_input_proxy (Some eth_callbacks_main) buf)" "keeps (mem e B) ota_reboot_task"
proof -
  note ind = app_pred_ind [OF app_pred_mem] and call = absorbs_mem
  have pin: "keeps (mem e B) (io_expander_set_level q l)" for q l by (rule app_pred_set_level [OF app_pred_mem])
  show "keeps (mem e B) sys_ind_led_heartbeat_round" "keeps (mem e B) (turn_off_led_callback p)"
    by (rule sys_ind_led_keeps [OF mem_hw pin])+
  show "keeps (mem e B) buzzer_callback"
    by (intro sys_ind_buzzer_keeps mem_hw pin) (simp_all add: mem_free_fields(3) [unfolded ind_fields_free_def])
  show "keeps (mem e B) env_monitor_round"
    by (intro env_monitor_keeps mem_hw queue_mem call)
      (simp_all add: mem_free_fields(4) [unfolded render_fields_free_def])
  show "keeps (mem e B) (eth_event_handler (Some eth_callbacks_main) ev)"
    unfolding eth_event_handler_def eth_callbacks_main_def by (auto intro!: keeps_ret ind split: net_event.split)
  show "keeps (mem e B) (pkt_eth_input_proxy (Some eth_callbacks_main) buf)"
    unfolding pkt_eth_input_proxy_def eth_callbacks_main_def by (auto intro!: keeps_intro ind call)
  show "keeps (mem e B) ota_reboot_task"
    unfolding ota_reboot_task_def by (auto intro!: keeps_intro app_pred_ui [OF app_pred_mem] call)
qed

lemma manager_mem:
  "keeps (mem e B) auto_scroll_callback" "keeps (mem e B) ui_manager_init" "keeps (mem e B) io_input_round"
proof -
  note ui = ui_manager_keeps [OF app_pred_mem mem_free_fields(4,5)]
  show "keeps (mem e B) auto_scroll_callback" "keeps (mem e B) ui_manager_init"
    using ui(1,2) by (simp_all add: absorbs_mem not_queue_scroll)
  have "keeps (mem e B) (run_callback cb a)" for cb a
    using button_keeps [OF app_pred_mem mem_free_fields(4,5)]
    by (simp add: absorbs_mem not_queue_scroll mem_free_fields)
  then show "keeps (mem e B) io_input_round" by (rule input_round_keeps [OF _ mem_free_fields(8) mem_hw])
qed

lemma connection_mem: "keeps (mem e {}) (https_server_connection_handler (Some (https_cfg c)) ev)"
  unfolding https_server_connection_handler_def https_cfg_def
  by (auto intro!: keeps_bind keeps_if keeps_ret start_mem stop_mem callbacks_keep [OF app_pred_mem])

section \<open>Requests\<close>

text \<open>
  Two allocations the code does not check: the context of a request, which the handlers
  write to, and the text of an answer, whose length is taken.
\<close>

definition answers_allocated :: "ext_env \<Rightarrow> bool" where
  "answers_allocated e \<longleftrightarrow>
     (\<forall>t. bool_of e t (Mem (Malloc 20))) \<and> (\<forall>j. cJSON_PrintUnformatted e j \<noteq> None)"

definition mem_req :: "ext_env \<Rightarrow> nat \<Rightarrow> 'x app_api_scheme \<Rightarrow> bool" where
  "mem_req e p s \<longleftrightarrow> mem e {} s \<and> api_ctxs s p \<noteq> None"

lemma mem_ctx_fields [simp]:
  "mem e B (s\<lparr>api_ctxs := m\<rparr>) = mem e B s" "mem e B (s\<lparr>next_ctx := n\<rparr>) = mem e B s"
  by (simp_all add: mem_def srv_blocks_def loose_def owned_def pending_def heap_wf_def)

lemma update_ctx_mem: "req_user_ctx req = UcApi p \<Longrightarrow> keeps (mem_req e p) (update_ctx req f)"
  by (rule keepsI) (auto simp: update_ctx_def mem_req_def)

lemma queue_ctxs: "keeps (\<lambda>s. Q (api_ctxs s p)) (ws_queue_send ev d)"
  by (rule queue_keeps) (simp_all add: absorbs_def ignores_def)

lemma handler_pred_ctx: "handler_pred (\<lambda>s :: 'x app_api_scheme. Q (api_ctxs s p))"
proof -
  have "app_pred (\<lambda>s :: 'x app_api_scheme. Q (api_ctxs s p))"
    by (rule app_pred_frame) (simp_all add: absorbs_on_def absorbs_def ignores_def ui_fields_free_def ind_fields_free_def)
  then show ?thesis
    by (simp add: handler_pred_def queue_ctxs absorbs_on_def absorbs_def ignores_def
        render_fields_free_def manager_fields_free_def)
qed

lemma conj_preds:
  "keeps P m \<Longrightarrow> keeps Q m \<Longrightarrow> keeps (\<lambda>s. P s \<and> Q s) m"
  "ignores u P \<Longrightarrow> ignores u Q \<Longrightarrow> ignores u (\<lambda>s. P s \<and> Q s)"
  "absorbs P' c \<Longrightarrow> absorbs Q' c \<Longrightarrow> absorbs (\<lambda>s. P' s \<and> Q' s) c"
  by (simp_all add: keeps_def ignores_def absorbs_def)

lemma handler_pred_conj:
  assumes "handler_pred P" "handler_pred Q"
  shows "handler_pred (\<lambda>s. P s \<and> Q s)"
  using assms
  unfolding handler_pred_def app_pred_def absorbs_on_def ind_fields_free_def render_fields_free_def manager_fields_free_def
  by (auto intro!: conj_preds)

lemma handler_pred_mem_req: "handler_pred (mem_req e p)"
  unfolding mem_req_def [abs_def] by (intro handler_pred_conj handler_pred_mem handler_pred_ctx)

lemma check_auth_mem: "keeps (mem e B) (app_api_check_auth req)"
  unfolding app_api_check_auth_def Let_def by (auto intro!: keeps_intro absorbs_mem)

lemma send_json_mem: "keeps (mem e B) (send_json n (Some j))"
  unfolding send_json_def by (auto intro!: keeps_intro absorbs_mem)

lemma write_response_mem:
  assumes "answers_allocated e"
  shows "keeps (mem e B) (write_response c)"
proof (rule keepsI)
  fix s :: "'a https_server_scheme"
  assume s: "mem e B s"
  then have e: "ext s = e" by (simp add: mem_def)
  have print: "\<exists>v. cJSON_PrintUnformatted e j = Some v" for j
    using assms by (auto simp: answers_allocated_def)
  have send: "mem e B (exec (send_json n (cJSON_PrintUnformatted e j)) s)" for n j
    using print [of j] keepsD [OF send_json_mem s] by auto
  have "mem e B (s\<lparr>trace := trace s @ [Httpd (RespSetStatus t), Httpd (RespSend u)]\<rparr>)" for t u
    using mem_call [OF _ mem_call [OF _ s], of "Httpd (RespSend u)" "Httpd (RespSetStatus t)"] by simp
  then show "mem e B (exec (write_response c) s)"
    using send by (simp add: write_response_def e case_prod_beta split: option.split)
qed

lemma handle_response_mem:
  assumes "answers_allocated e" "mem_req e p s"
  shows "mem e {} (exec (app_api_handle_response req (Some p) r) s)"
proof -
  obtain c where c: "api_ctxs s p = Some c" and s: "mem e {} s" using assms(2) by (auto simp: mem_req_def)
  have "mem e {} (exec (write_response d) s)" for d
    by (rule keepsD [OF write_response_mem [OF assms(1)] s])
  then have "mem e {} ((exec (write_response d) s)\<lparr>trace := trace (exec (write_response d) s) @ [Mem (Free p)]\<rparr>)"
    "mem e {} (s\<lparr>trace := trace s @ [Mem (Free p)]\<rparr>)" for d
    using s by (auto intro: mem_call)
  with c show ?thesis by (simp add: app_api_handle_response_def Let_def case_prod_beta)
qed

lemma request_mem:
  fixes s s' :: "'x app_api_scheme"
  assumes "answers_allocated e" "ep \<in> set app_api_get_endpoints" "\<not> ep_is_ws ep" "mem e {} s"
    and "http_middleware (Some (https_cfg c)) (Some ep) req s = Some (r, s')"
  shows "mem e {} s'"
proof -
  have auth: "mem e {} s1" if "run_state (app_api_check_auth req) s = (ok, s1)" for ok s1
    using keepsD [OF check_auth_mem assms(4), of req] that by simp
  show ?thesis
    using assms(2,5)
  proof (cases rule: middleware_run)
    case (refused s1)
    from auth [OF this(1)] this(2) show ?thesis by (simp add: mem_call)
  next
    case (served h s1 p s2 lr s3)
    note s1 = auth [OF served(2)]
    obtain q where p: "p = Some q" and s2: "mem_req e q s2"
    proof -
      have "ext s1 = e" using s1 by (simp add: mem_def)
      then have "bool_of (ext s1) (trace s1) (Mem (Malloc 20))"
        using assms(1) by (simp add: answers_allocated_def)
      moreover have "mem e {} (s1\<lparr>trace := trace s1 @ [Mem (Malloc 20)]\<rparr>)" by (rule mem_call [OF _ s1]) simp
      ultimately show thesis
        using served(3) by (intro that [of "next_ctx s1"]) (auto simp: app_api_create_ctx_def mem_req_def)
    qed
    let ?req = "req\<lparr>req_user_ctx := UcApi q\<rparr>"
    have "keeps_pop (mem_req e q) (h ?req)"
      by (rule plain_endpoint_keeps [OF assms(2,3) served(1) handler_pred_mem_req update_ctx_mem]) simp
    from keeps_popD [OF this s2, of lr s3] served(4) p have s3: "mem_req e q s3" by simp
    from handle_response_mem [OF assms(1) this]
    have "mem e {} (exec (app_api_handle_response req (Some q) lr) s3)" .
    moreover note keepsD [OF callbacks_keep(4) [OF app_pred_mem]] keepsD [OF callbacks_keep(5) [OF app_pred_mem]]
    ultimately show ?thesis
      using served(5) p
      by (auto simp: middleware_finish_def https_cfg_def case_prod_beta split: if_splits)
  qed
qed

section \<open>The WebSocket\<close>

lemma read_str_mem: "mem e (insert p B) s \<Longrightarrow> exec (read_str p) s = s"
  using mem_live [of e p B s] by (auto simp: run_read_str)

text \<open>The block a frame is read into.\<close>

lemma ws_payload_mem:
  fixes k n :: nat
  assumes "parsed_strings_ok e"
  shows "keeps (mem e {} :: 'x https_server_scheme \<Rightarrow> bool) (do {
      payload \<leftarrow> malloc_buf n [];
      (case payload of
         None \<Rightarrow> ret ESP_ERR_NO_MEM
       | Some p \<Rightarrow> do {
           (r, data) \<leftarrow> call_err_str (Httpd (WsRecvFrame k));
           if r \<noteq> ESP_OK then do { free_str p; ret r }
           else do {
             modify (\<lambda>s. s\<lparr>heap := (heap s)(p := Some (take k data))\<rparr>);
             payload_text \<leftarrow> read_str p;
             whenM b (ws_cmd_handle payload_text);
             free_str p;
             ret ESP_OK
           }
         })
    })"
proof (rule keepsI)
  fix s :: "'x https_server_scheme"
  assume s: "mem e {} s"
  let ?m = "malloc_buf n [] :: ('x https_server_scheme, nat option) op"
  show "mem e {} (exec (do {
      payload \<leftarrow> ?m;
      (case payload of
         None \<Rightarrow> ret ESP_ERR_NO_MEM
       | Some p \<Rightarrow> do {
           (r, data) \<leftarrow> call_err_str (Httpd (WsRecvFrame k));
           if r \<noteq> ESP_OK then do { free_str p; ret r }
           else do {
             modify (\<lambda>s. s\<lparr>heap := (heap s)(p := Some (take k data))\<rparr>);
             payload_text \<leftarrow> read_str p;
             whenM b (ws_cmd_handle payload_text);
             free_str p;
             ret ESP_OK
           }
         })
    }) s)"
  proof (cases "result ?m s")
    case None
    with mem_malloc [OF s, of n "[]"] show ?thesis by (simp add: case_prod_beta)
  next
    case (Some p)
    let ?c = "Httpd (WsRecvFrame k)"
    define s1 where "s1 = exec ?m s"
    have "mem e {p} s1" using mem_malloc [OF s, of n "[]"] Some by (simp add: s1_def)
    then have s2: "mem e {p} (s1\<lparr>trace := trace s1 @ [?c]\<rparr>)" by (intro mem_call) simp_all
    let ?s3 = "s1\<lparr>trace := trace s1 @ [?c], heap := (heap s1)(p := Some (take k (str_of (ext s1) (trace s1) ?c)))\<rparr>"
    have s3: "mem e {p} ?s3" using mem_write [OF s2] by simp
    have h: "mem e {p} (exec (ws_cmd_handle t) ?s3)" for t by (rule keepsD [OF handle_mem [OF assms] s3])
    have "mem e {} (exec (free_str p) (s1\<lparr>trace := trace s1 @ [?c]\<rparr>))" "mem e {} (exec (free_str p) ?s3)"
      "mem e {} (exec (free_str p) (exec (ws_cmd_handle t) ?s3))" for t
      by (rule mem_free, rule s2 s3 h, simp)+
    then show ?thesis
      using Some read_str_mem [OF s3] by (simp add: case_prod_beta s1_def [symmetric])
  qed
qed

lemma ws_mem:
  assumes "parsed_strings_ok e"
  shows "keeps (mem e {}) (app_api_ws req)"
proof -
  have ask: "keeps (mem e B) (ask f (Httpd c))" for f :: "ext_env \<Rightarrow> call list \<Rightarrow> call \<Rightarrow> 'b" and B and c :: httpd_call
    using absorbs_mem [of "Httpd c" e B] by (simp add: keeps_def run_ask absorbs_def)
  show ?thesis
    unfolding app_api_ws_def
    by (intro keeps_if keeps_bind keeps_case_prod keeps_ret ask ws_payload_mem [OF assms] client_mem keeps_calls absorbs_mem)
      simp_all
qed

lemma ws_auth_mem: "keeps (mem e B) (ws_auth_callback (Some (https_cfg c)) req)"
  unfolding ws_auth_callback_def https_cfg_def by (auto intro!: keeps_intro check_auth_mem)

section \<open>The boot\<close>

text \<open>A block that is freed when a step of the bring-up fails, and kept for good otherwise.\<close>

lemma triple_mem_free: "p \<notin> B \<Longrightarrow> triple (mem e (insert p B)) (do { free_str p; ret err }) (\<lambda>_. mem e B)"
  by (simp add: triple_def mem_free case_prod_beta)

lemma or_free_mem:
  assumes "triple (mem e {p}) m (\<lambda>_. mem e {})"
  shows "triple (mem e {p}) (or_free p err m) (\<lambda>_. mem e {})"
  unfolding or_free_def by (intro triple_if triple_mem_free assms) simp

lemma triple_keep_block: "keeps (mem e {p}) m \<Longrightarrow> triple (mem e {p}) m (\<lambda>_. mem e {})"
  by (rule triple_keeps) (auto intro: mem_forget)

lemma keeps_triple: "triple P m (\<lambda>_. P) \<Longrightarrow> keeps P m"
  by (simp add: triple_def keeps_def)

lemma eth_init_mem: "keeps (mem e {}) (eth_w5500_init cfg)"
proof (rule keeps_triple)
  have eth: "keeps (mem e B) (set_static_ip cfg)" "keeps (mem e B) eth_w5500_attach" for B
    by (rule eth_keeps, simp add: absorbs_mem)+
  have call: "keeps (mem e B) (call_err (Net n))" "keeps (mem e B) (call_bool (Net n))" "keeps (mem e B) (call_unit (Net n))"
    for B n by (simp_all add: keeps_mem_call)
  have bring_up: "triple (mem e {p}) (do {
          call_unit (Net NetifNew);
          err \<leftarrow> set_static_ip cfg;
          or_free p err (do {
            err \<leftarrow> call_err (Net SpiBusInit);
            or_free p err (do {
              mac \<leftarrow> call_bool (Net MacNewW5500);
              or_free p (if mac then ESP_OK else ESP_FAIL) (do {
                phy \<leftarrow> call_bool (Net PhyNewW5500);
                or_free p (if phy then ESP_OK else ESP_FAIL) (do {
                  err \<leftarrow> call_err (Net EthDriverInstall);
                  or_free p err eth_w5500_attach
                })
              })
            })
          })
        }) (\<lambda>_. mem e {})" for p
    by (intro triple_bind_keeps [OF call(1)] triple_bind_keeps [OF call(2)] triple_bind_keeps [OF call(3)]
        triple_bind_keeps [OF eth(1)] or_free_mem triple_keep_block eth(2))
  show "triple (mem e {}) (eth_w5500_init cfg) (\<lambda>_. mem e {})"
    unfolding eth_w5500_init_def
  proof (rule triple_bind [OF triple_malloc_str])
    fix a :: "nat option"
    show "triple (\<lambda>s. case a of None \<Rightarrow> mem e {} s | Some p \<Rightarrow> p \<notin> {} \<and> mem e (insert p {}) s)
      (case a of None \<Rightarrow> ret ESP_ERR_NO_MEM | Some ctx \<Rightarrow> do {
          call_unit (Net NetifNew);
          err \<leftarrow> set_static_ip cfg;
          or_free ctx err (do {
            err \<leftarrow> call_err (Net SpiBusInit);
            or_free ctx err (do {
              mac \<leftarrow> call_bool (Net MacNewW5500);
              or_free ctx (if mac then ESP_OK else ESP_FAIL) (do {
                phy \<leftarrow> call_bool (Net PhyNewW5500);
                or_free ctx (if phy then ESP_OK else ESP_FAIL) (do {
                  err \<leftarrow> call_err (Net EthDriverInstall);
                  or_free ctx err eth_w5500_attach
                })
              })
            })
          })
        }) (\<lambda>_. mem e {})"
      using bring_up by (cases a) (simp_all add: triple_ret)
  qed
qed

lemma service_init_mem: "keeps (mem e {}) (https_server_service_init cfg)"
proof (cases cfg)
  case None
  then show ?thesis by (simp add: https_server_service_init_def keeps_ret)
next
  case (Some c)
  have body: "triple (mem e {p}) (do {
        err \<leftarrow> call_err (Net IpHandlerRegister);
        if err \<noteq> ESP_OK then do { free_str p; ret err }
        else do {
          err \<leftarrow> call_err (Net EthHandlerRegister);
          if err \<noteq> ESP_OK then do { call_unit (Net HandlerUnregister); free_str p; ret err }
          else ret ESP_OK
        }
      }) (\<lambda>_. mem e {})" for p
    by (intro triple_bind_keeps [OF keeps_mem_call(4)] triple_bind_keeps [OF keeps_mem_call(1)] triple_if
        triple_mem_free triple_ret) (auto intro: mem_forget)
  have alloc: "triple (mem e {}) (malloc_buf 52 [])
     (\<lambda>r s. case r of None \<Rightarrow> mem e {} s | Some p \<Rightarrow> mem e {p} s)"
    unfolding triple_def using mem_malloc [of e "{}"] by (fastforce split: option.splits)
  show ?thesis
    unfolding https_server_service_init_def Some option.case
  proof (rule keeps_triple, rule triple_bind [OF alloc], goal_cases)
    case (1 a)
    then show ?case by (cases a) (simp_all add: body triple_ret)
  qed
qed


lemma mem_fault_port:
  "parsed_strings_ok e \<Longrightarrow> cJSON_Parse e v = Some json \<Longrightarrow> exec (config_port e json p) s = s"
  by (auto simp: run_config_port Let_def parsed_strings_ok_def)

lemma load_config_mem:
  assumes "parsed_strings_ok e"
  shows "keeps (mem e {} :: 'x https_server_scheme \<Rightarrow> bool) (storage_load_system_config cfg)"
proof (cases cfg)
  case None
  then show ?thesis by (simp add: storage_load_system_config_def keeps_ret)
next
  case (Some c)
  show ?thesis
  proof (rule keepsI)
    fix s :: "'x https_server_scheme"
    assume s: "mem e {} s"
    let ?read = "helper_read_file_to_buffer ''/storage/config.json'' :: ('x https_server_scheme, nat option) op"
    show "mem e {} (exec (storage_load_system_config cfg) s)"
    proof (cases "result ?read s")
      case None
      with read_file_mem [OF s, of "''/storage/config.json''"] show ?thesis
        by (simp add: Some run_load_config)
    next
      case p: (Some p)
      with read_file_mem [OF s, of "''/storage/config.json''"] have m: "mem e {p} (exec ?read s)" by simp
      have ext: "ext s = e" using s by (simp add: mem_def)
      have "mem e {} (exec (free_str p) (exec ?read s))" by (rule mem_free [OF m]) simp
      then show ?thesis
        by (simp add: Some p ext run_load_config Let_def read_str_mem [OF m] mem_fault_port [OF assms] split: option.split)
    qed
  qed
qed

lemma nvs_init_pop_keeps: "keeps P nvs_manager_init \<Longrightarrow> keeps_pop P nvs_init_pop"
  unfolding nvs_init_pop_def keeps_pop_def then_pop_Some keeps_def
  by (auto split: option.splits)

lemma boot_ops_mem:
  "keeps_pop (mem e B) (boot_stage m k)" "keeps_pop (mem e B) boot_cooldown"
  "keeps_pop (mem e B) boot_hardware" "keeps (mem e B) env_sensors_init" "keeps (mem e B) storage_init"
  "keeps_pop (mem e B) nvs_init_pop" "keeps (mem e B) (nvs_manager_save_strings_batch ns es)"
  "keeps (mem e B) (io_input_init bs)" "keeps (mem e B) uart_bus_rs485_init" "keeps (mem e B) uart_bus_rs232_init"
  "keeps (mem e B) ws_queue_init" "keeps (mem e B) ws_dispatcher_init" "keeps (mem e B) (ws_cmd_router_init x y)"
  "keeps_pop (mem e B) (\<lambda>s. map_option (Pair ()) (eth_w5500_force_link_blocking (Some on_eth_boot_wait) s))"
  "keeps (mem e B) (ntp_service_init srv tz)" "keeps (mem e B) cyclic_task_env_init"
  "keeps_pop (mem e B) boot_ready"
proof -
  note calls = keeps_mem_call and ui = app_pred_ui [OF app_pred_mem] and call = absorbs_mem
  note free = mem_free_fields
  show stage: "keeps_pop (mem e B) (boot_stage m k)" "keeps_pop (mem e B) boot_cooldown" for m k
    unfolding boot_stage_def boot_cooldown_def by (auto intro!: keeps_intro ui call)
  show "keeps_pop (mem e B) boot_hardware"
    by (rule hardware_frame [OF _ free(2,3,1,6,7)]) (auto simp: absorbs_on_def intro!: call elim: low_call.elims)
  show "keeps (mem e B) env_sensors_init"
    by (intro env_keeps mem_hw) (simp_all add: free(4) [unfolded render_fields_free_def])
  have nvs: "absorbs (mem e B) (Nvs v)" for v by (rule call) simp
  show "keeps_pop (mem e B) nvs_init_pop"
    by (rule nvs_init_pop_keeps [OF nvs_keeps(3) [OF nvs]])
  show "keeps (mem e B) (nvs_manager_save_strings_batch ns es)" by (rule nvs_keeps(4) [OF nvs])
  show "keeps (mem e B) storage_init" "keeps (mem e B) ws_dispatcher_init" "keeps (mem e B) cyclic_task_env_init"
    "keeps (mem e B) (ntp_service_init srv tz)"
    unfolding storage_init_def ws_dispatcher_init_def cyclic_task_env_init_def
    by (auto intro!: keeps_intro ntp_keeps call)
  show "keeps (mem e B) (io_input_init bs)" "keeps (mem e B) uart_bus_rs485_init" "keeps (mem e B) uart_bus_rs232_init"
    unfolding io_input_init_def Let_def uart_bus_rs485_init_def uart_bus_rs232_init_def
    by (auto intro!: keeps_intro call simp: free(8) [unfolded ignores_def, rule_format] split: option.split)
  show "keeps (mem e B) (ws_cmd_router_init x y)"
    unfolding ws_cmd_router_init_def ws_cmd_register_def Let_def
    by (auto intro!: keeps_intro simp: free(13-15) [unfolded ignores_def, rule_format] split: option.split)
  show "keeps (mem e B) ws_queue_init"
  proof (rule keepsI)
    fix s :: "'w https_server_scheme"
    assume "mem e B s"
    then show "mem e B (exec ws_queue_init s)"
      by (auto simp: ws_queue_init_def elim!: mem_same) (auto simp: owned_def pending_def heap_wf_def srv_blocks_def)
  qed
  show "keeps_pop (mem e B) (\<lambda>s. map_option (Pair ()) (eth_w5500_force_link_blocking (Some on_eth_boot_wait) s))"
    by (rule link_keeps) (auto intro!: eth_keeps callbacks_keep [OF app_pred_mem] call)
  show "keeps_pop (mem e B) boot_ready"
    unfolding boot_ready_def
    by (auto intro!: keeps_pop_seq keeps_critical keeps_run_op keeps_intro stage manager_mem
        app_pred_ind [OF app_pred_mem] call)
qed


lemma boot_stages_mem:
  assumes "parsed_strings_ok e"
  shows "keeps_pop (mem e {}) boot_storage" "keeps_pop (mem e {}) boot_config"
    "keeps_pop (mem e {}) (boot_services c)" "keeps_pop (mem e {}) (boot_network c)"
proof -
  note ops = boot_ops_mem and calls = keeps_mem_call
  show "keeps_pop (mem e {}) boot_storage" "keeps_pop (mem e {}) (boot_services c)" "keeps_pop (mem e {}) (boot_network c)"
    unfolding boot_storage_def boot_services_def boot_network_def
    by (auto intro!: keeps_pop_seq keeps_critical keeps_run_op ops calls service_init_mem eth_init_mem)
  show "keeps_pop (mem e {}) boot_config"
    unfolding boot_config_def
    by (auto intro!: keeps_then_pop keeps_critical keeps_run_op keeps_ret ops load_config_mem [OF assms]
        keeps_pop_case split: prod.split)
qed

lemma power_on_mem: "power_on s \<Longrightarrow> queue_law (ext s) \<Longrightarrow> mem (ext s) {} s"
  by (rule memI [where C = "{}"])
    (simp_all add: power_on_def owned_def pending_def heap_wf_def srv_blocks_def)

lemma boot_mem:
  assumes "app_main s = Some (c, s')" "power_on s" "queue_law (ext s)" "parsed_strings_ok (ext s)"
  shows "mem (ext s) {} s'"
proof -
  note stages = boot_ops_mem(3) [THEN keeps_popD] boot_stages_mem [OF assms(4), THEN keeps_popD]
    boot_ops_mem(17) [THEN keeps_popD]
  from assms(1) obtain s1 s2 s3 s4 s5 where b: "boot_hardware s = Some ((), s1)" "boot_storage s1 = Some ((), s2)"
      "boot_config s2 = Some (c, s3)" "boot_services c s3 = Some ((), s4)"
      "boot_network c s4 = Some ((), s5)" "boot_ready s5 = Some ((), s')"
    unfolding app_main_Some by blast
  from power_on_mem [OF assms(2,3)] have "mem (ext s) {} s1" by (rule stages(1) [OF _ b(1)])
  then have "mem (ext s) {} s2" by (rule stages(2) [OF _ b(2)])
  then have "mem (ext s) {} s3" by (rule stages(3) [OF _ b(3)])
  then have "mem (ext s) {} s4" by (rule stages(4) [OF _ b(4)])
  then have "mem (ext s) {} s5" by (rule stages(5) [OF _ b(5)])
  then show ?thesis by (rule stages(6) [OF _ b(6)])
qed

section \<open>The running device\<close>

lemma step_mem:
  assumes "fw_step c s s'" "mem e {} s" "parsed_strings_ok e" "answers_allocated e"
  shows "mem e {} s'"
proof -
  have auth: "mem e {} s1" if "run_state (ws_auth_callback (Some (https_cfg c)) req) s = (r, s1)" for req r s1
    using keepsD [OF ws_auth_mem assms(2), of c req] that by simp
  have keep: "mem e {} (exec m s)" if "keeps (mem e {}) m" for m :: "(_, 'r) op"
    using keepsD [OF that, OF assms(2)] .
  from assms(1) show ?thesis
  proof cases
    case (request ep req r)
    then show ?thesis using request_mem [OF assms(4) _ _ assms(2)] by blast
  next
    case (ws_opened req s1)
    then show ?thesis using keepsD [OF ws_mem [OF assms(3)] auth] by simp
  qed (use auth in \<open>auto intro!: keep tasks_mem manager_mem round_mem connection_mem
      ws_mem [OF assms(3)] app_pred_ui [OF app_pred_mem]\<close>)
qed

lemma reachable_mem:
  assumes "fw_reachable e c s" "queue_law e" "parsed_strings_ok e" "answers_allocated e"
  shows "mem e {} s"
  using assms(1)
proof induction
  case (booted s s')
  then show ?case using boot_mem [of s c s'] assms(2,3) by simp
next
  case (step s s')
  from step_mem [OF step.hyps(2) step.IH assms(3,4)] show ?case .
qed

lemma reachable_blocks:
  assumes "fw_reachable e c s" "queue_law e" "parsed_strings_ok e" "answers_allocated e"
  shows "\<not> mem_fault s" "distinct (srv_blocks s @ map snd (pending s))"
    "set (srv_blocks s @ map snd (pending s)) \<subseteq> dom (heap s)"
proof -
  from reachable_mem [OF assms] obtain C where C: "owned C s" "set (srv_blocks s) \<subseteq> C" "distinct (srv_blocks s)"
    by (rule memE) auto
  then show "\<not> mem_fault s" "distinct (srv_blocks s @ map snd (pending s))"
    by (auto simp: owned_def)
  have "dom (heap s) = C \<union> set (map snd (pending s))" using C(1) by (simp add: owned_def)
  with C(2) show "set (srv_blocks s @ map snd (pending s)) \<subseteq> dom (heap s)" by auto
qed

end
