(* ===== verification/Answers.thy ===== *)
theory Answers
  imports Memory
begin

text \<open>
  Every request is answered, once. The update is the one endpoint with a loop that the
  client controls: it ends when the client keeps sending, and a client that stops
  sending keeps it going for ever.
\<close>

section \<open>The update's loop\<close>

text \<open>A receive that times out is followed, after some more that do, by one that does not.\<close>

definition recv_live :: "ext_env \<Rightarrow> bool" where
  "recv_live e \<longleftrightarrow>
     (\<forall>t k. \<exists>j. int_of e (t @ replicate j (Httpd (ReqRecv k))) (Httpd (ReqRecv k)) \<noteq> HTTPD_SOCK_ERR_TIMEOUT)"

abbreviation (input) recv_of :: "int \<Rightarrow> call" where
  "recv_of remaining \<equiv> Httpd (ReqRecv (nat (min remaining 1024)))"

lemma pass_timeout:
  assumes "int_of (ext s) (trace s) (recv_of remaining) = HTTPD_SOCK_ERR_TIMEOUT"
  shows "run_state (ota_pass req total_len remaining cur pct) s =
    (OtaContinue, s\<lparr>trace := trace s @ [recv_of remaining]\<rparr>)"
  using assms by (simp add: ota_pass_def case_prod_beta)

lemma pass_progress:
  fixes s :: "'x app_api_scheme"
  assumes "int_of (ext s) (trace s) (recv_of remaining) \<noteq> HTTPD_SOCK_ERR_TIMEOUT"
  shows "case result (ota_pass req total_len remaining cur pct) s of
      OtaContinue \<Rightarrow> False | OtaMore rem cur pct \<Rightarrow> rem < remaining | OtaReturn r \<Rightarrow> True"
proof -
  let ?n = "int_of (ext s) (trace s) (recv_of remaining)"
  let ?s = "s\<lparr>trace := trace s @ [recv_of remaining]\<rparr>"
  let ?w = "Ota (OtaWrite (take (nat ?n) (bytes_of (ext s) (trace s) (recv_of remaining))))"
  consider "?n \<le> 0" | "0 < ?n" "err_of (ext s) (trace ?s) ?w \<noteq> ESP_OK" | "0 < ?n" "err_of (ext s) (trace ?s) ?w = ESP_OK"
    by linarith
  then show ?thesis
  proof cases
    case 3
    then show ?thesis
      by (cases "pct < ota_percent (cur + ?n) total_len") (simp_all add: ota_pass_def Let_def case_prod_beta)
  qed (use assms in \<open>simp_all add: ota_pass_def case_prod_beta\<close>)
qed

text \<open>The environment is what it was.\<close>

lemma handler_pred_ext: "handler_pred (\<lambda>s :: 'x app_api_scheme. ext s = e)"
proof -
  have "app_pred (\<lambda>s :: 'x app_api_scheme. ext s = e)"
    by (rule app_pred_frame) (simp_all add: absorbs_on_def absorbs_def ignores_def ui_fields_free_def ind_fields_free_def)
  moreover have "keeps (\<lambda>s :: 'x app_api_scheme. ext s = e) (ws_queue_send ev d)" for ev d
    by (rule queue_keeps) (simp_all add: absorbs_def ignores_def)
  ultimately show ?thesis
    by (simp add: handler_pred_def absorbs_on_def absorbs_def ignores_def render_fields_free_def manager_fields_free_def)
qed

lemma update_ctx_ext: "keeps (\<lambda>s. ext s = e) (update_ctx req f)"
  unfolding update_ctx_def by (auto intro!: keeps_intro split: user_ctx.split option.split)

lemma update_ext:
  "ext (exec (ota_pass req total_len remaining cur pct) s) = ext s" "ext (exec (ota_begin req) s) = ext s"
proof -
  have "keeps (\<lambda>s. ext s = e) (ota_pass req total_len remaining cur pct)" "keeps (\<lambda>s. ext s = e) (ota_begin req)" for e
    by (rule handlers_keep [OF handler_pred_ext update_ctx_ext])+
  note this [THEN keepsD]
  then show "ext (exec (ota_pass req total_len remaining cur pct) s) = ext s" "ext (exec (ota_begin req) s) = ext s"
    by blast+
qed

text \<open>Running out of timeouts, and then of bytes.\<close>

lemma loop_past_timeouts:
  fixes s :: "'x app_api_scheme"
  assumes "int_of (ext s) (trace s @ replicate j (recv_of remaining)) (recv_of remaining) \<noteq> HTTPD_SOCK_ERR_TIMEOUT"
    and "0 < remaining"
    and "\<And>(s' :: 'x app_api_scheme) rem cur pct. ext s' = ext s \<Longrightarrow> rem < remaining \<Longrightarrow> \<exists>out. ota_loop req total_len rem cur pct s' = Some out"
  shows "\<exists>out. ota_loop req total_len remaining cur pct s = Some out"
  using assms
proof (induction j arbitrary: s)
  case 0
  obtain nxt s1 where p: "run_state (ota_pass req total_len remaining cur pct) s = (nxt, s1)"
    by (cases "run_state (ota_pass req total_len remaining cur pct) s")
  have "ext s1 = ext s" using update_ext(1) [of req total_len remaining cur pct s] p by simp
  moreover have "case nxt of OtaContinue \<Rightarrow> False | OtaMore rem cur pct \<Rightarrow> rem < remaining | OtaReturn r \<Rightarrow> True"
    using pass_progress [of s remaining req total_len cur pct] 0(1) p by simp
  ultimately show ?case
    using 0(2) 0(3) [of s1] p by (subst ota_loop.simps) (cases nxt; simp)
next
  case (Suc j)
  show ?case
  proof (cases "int_of (ext s) (trace s) (recv_of remaining) = HTTPD_SOCK_ERR_TIMEOUT")
    case True
    let ?s1 = "s\<lparr>trace := trace s @ [recv_of remaining]\<rparr>"
    have "\<exists>out. ota_loop req total_len remaining cur pct ?s1 = Some out"
      by (rule Suc.IH) (use Suc.prems in simp_all)
    then show ?thesis
      using Suc.prems(2) pass_timeout [OF True] by (subst ota_loop.simps) simp
  next
    case False
    obtain nxt s1 where p: "run_state (ota_pass req total_len remaining cur pct) s = (nxt, s1)"
      by (cases "run_state (ota_pass req total_len remaining cur pct) s")
    have "ext s1 = ext s" using update_ext(1) [of req total_len remaining cur pct s] p by simp
    moreover have "case nxt of OtaContinue \<Rightarrow> False | OtaMore rem cur pct \<Rightarrow> rem < remaining | OtaReturn r \<Rightarrow> True"
      using pass_progress [OF False, of req total_len cur pct] p by simp
    ultimately show ?thesis
      using Suc.prems(2) Suc.prems(3) [of s1] p by (subst ota_loop.simps) (cases nxt; simp)
  qed
qed

lemma loop_returns:
  assumes "recv_live (ext s)"
  shows "\<exists>out. ota_loop req total_len remaining cur pct s = Some out"
  using assms
proof (induction "nat remaining" arbitrary: remaining cur pct s rule: less_induct)
  case less
  show ?case
  proof (cases "0 < remaining")
    case False
    then show ?thesis by (subst ota_loop.simps) simp
  next
    case True
    obtain j where j: "int_of (ext s) (trace s @ replicate j (recv_of remaining)) (recv_of remaining) \<noteq> HTTPD_SOCK_ERR_TIMEOUT"
      using less.prems unfolding recv_live_def by blast
    show ?thesis
    proof (rule loop_past_timeouts [OF j True])
      fix s' :: "'a app_api_scheme" and rem cur pct :: int
      assume "ext s' = ext s" "rem < remaining"
      then show "\<exists>out. ota_loop req total_len rem cur pct s' = Some out"
        using less.hyps [of rem s' cur pct] less.prems True by simp
    qed
  qed
qed

lemma update_returns:
  assumes "recv_live (ext s)"
  shows "\<exists>r s'. app_api_ota_update req s = Some (r, s')"
proof (cases "result (ota_begin req) s")
  case None
  have "recv_live (ext (exec (ota_begin req) s))" using assms update_ext(2) [of req s] by simp
  then obtain x s1 where "ota_loop req (ota_total req) (ota_total req) 0 (- 1) (exec (ota_begin req) s) = Some (x, s1)"
    using loop_returns [of "exec (ota_begin req) s" req "ota_total req" "ota_total req" 0 "- 1"] by auto
  with None show ?thesis
    by (cases x) (simp_all add: app_api_ota_update_def then_pop_def case_prod_beta)
qed (simp add: app_api_ota_update_def then_pop_def case_prod_beta)


text \<open>Against a client that has stopped sending the loop never returns.\<close>

definition recv_stalls :: "ext_env \<Rightarrow> bool" where
  "recv_stalls e \<longleftrightarrow> (\<forall>t k. int_of e t (Httpd (ReqRecv k)) = HTTPD_SOCK_ERR_TIMEOUT)"

lemma stalled_loop:
  assumes "ota_loop req total_len remaining cur pct s = Some out" "recv_stalls (ext s)"
  shows "remaining \<le> 0"
  using assms
proof (induction rule: ota_loop.raw_induct [rotated 1, consumes 1])
  case (1 loop req total_len remaining cur pct s out)
  have "run_state (ota_pass req total_len remaining cur pct) s =
      (OtaContinue, s\<lparr>trace := trace s @ [recv_of remaining]\<rparr>)"
    using 1(3) by (intro pass_timeout) (simp add: recv_stalls_def)
  with 1 show ?case by (simp split: if_splits)
qed

lemma stalled_update:
  assumes "recv_stalls (ext s)" "result (ota_begin req) s = None" "0 < ota_total req"
  shows "app_api_ota_update req s = None"
proof -
  have "ota_loop req (ota_total req) (ota_total req) 0 (- 1) (exec (ota_begin req) s) = None"
    using stalled_loop [of req "ota_total req" "ota_total req" 0 "- 1" "exec (ota_begin req) s"] assms
    by (cases "ota_loop req (ota_total req) (ota_total req) 0 (- 1) (exec (ota_begin req) s)") (auto simp: update_ext)
  with assms(2) show ?thesis by (simp add: app_api_ota_update_def then_pop_def case_prod_beta)
qed

section \<open>The middleware\<close>

lemma endpoint_returns:
  assumes "ep \<in> set app_api_get_endpoints" "ep_handler ep = Some h" "recv_live (ext s)"
  shows "\<exists>r s'. h req s = Some (r, s')"
  using assms update_returns [of s req] by (auto simp: app_api_get_endpoints_def prod_eq_iff)

lemma middleware_returns:
  assumes "ep \<in> set app_api_get_endpoints" "recv_live (ext s)"
  shows "\<exists>r s'. http_middleware (Some (https_cfg c)) (Some ep) req s = Some (r, s')"
proof -
  obtain h where h: "ep_handler ep = Some h" "\<not> ep_is_public ep"
    using assms(1) by (auto simp: app_api_get_endpoints_def)
  let ?s = "exec (app_api_create_ctx req) (exec (app_api_check_auth req) s)"
  have "keeps (\<lambda>s'. ext s' = ext s) (app_api_check_auth req)" "keeps (\<lambda>s'. ext s' = ext s) (app_api_create_ctx req)"
    unfolding app_api_check_auth_def app_api_create_ctx_def Let_def by (auto intro!: keeps_intro simp: absorbs_def)
  then have "ext ?s = ext s" by (auto simp: keeps_def)
  then have "\<exists>r s'. h req' ?s = Some (r, s')" for req'
    using assms(2) by (intro endpoint_returns [OF assms(1) h(1)]) simp
  note returns = this [of "req\<lparr>req_user_ctx := case result (app_api_create_ctx req) (exec (app_api_check_auth req) s) of
    None \<Rightarrow> req_user_ctx req | Some p \<Rightarrow> UcApi p\<rparr>"]
  show ?thesis
    using h returns
    by (auto simp: http_middleware_def middleware_auth_def middleware_ctx_def https_cfg_def then_pop_def case_prod_beta)
qed

section \<open>One answer\<close>

definition answers_sent :: "call list \<Rightarrow> nat" where
  "answers_sent t = length (filter answer_call t)"

definition answered :: "ext_env \<Rightarrow> nat \<Rightarrow> 'x platform_scheme \<Rightarrow> bool" where
  "answered e n s \<longleftrightarrow> ext s = e \<and> answers_sent (trace s) = n"

lemma absorbs_answered: "\<not> answer_call c \<Longrightarrow> absorbs (answered e n) c"
  by (simp add: absorbs_def answered_def answers_sent_def)

lemma handler_pred_answered: "handler_pred (answered e n :: 'x app_api_scheme \<Rightarrow> bool)"
proof -
  let ?P = "answered e n :: 'x app_api_scheme \<Rightarrow> bool"
  have "\<not> answer_call c" if "low_call c" for c using that by (cases c) simp_all
  then have "absorbs_on low_call ?P" by (auto simp: absorbs_on_def intro: absorbs_answered)
  then have "app_pred ?P"
    by (rule app_pred_frame) (simp_all add: ignores_def answered_def ui_fields_free_def ind_fields_free_def)
  moreover have "keeps ?P (ws_queue_send ev d)" for ev d
    by (rule queue_keeps) (simp_all add: absorbs_answered ignores_def answered_def)
  ultimately show ?thesis
    by (simp add: handler_pred_def handler_call_def absorbs_on_def absorbs_answered)
      (simp add: answered_def ignores_def render_fields_free_def manager_fields_free_def)
qed

text \<open>While the handler runs, the request has a context, and its answer is left to the middleware.\<close>

definition pending_answer :: "ext_env \<Rightarrow> nat \<Rightarrow> nat \<Rightarrow> 'x app_api_scheme \<Rightarrow> bool" where
  "pending_answer e n p s \<longleftrightarrow> answered e n s \<and> (\<exists>c. api_ctxs s p = Some c \<and> \<not> manual_response c)"

lemma handler_pred_pending: "handler_pred (pending_answer e n p)"
  unfolding pending_answer_def [abs_def] by (intro handler_pred_conj handler_pred_answered handler_pred_ctx)

lemma update_ctx_pending:
  assumes "req_user_ctx req = UcApi p" "\<And>c. \<not> manual_response c \<Longrightarrow> \<not> manual_response (f c)"
  shows "keeps (pending_answer e n p) (update_ctx req f)"
proof (rule keepsI)
  fix s :: "'a app_api_scheme"
  assume "pending_answer e n p s"
  then obtain c where c: "answered e n s" "api_ctxs s p = Some c" "\<not> manual_response c"
    by (auto simp: pending_answer_def)
  from assms(2) [OF c(3)] c(1,2) show "pending_answer e n p (exec (update_ctx req f) s)"
    by (simp add: update_ctx_def assms(1) pending_answer_def answered_def)
qed

lemma answer_sends_one:
  assumes "answers_allocated e" "\<not> manual_response c"
  shows "answers_sent (answer e c) = 1"
proof -
  have "\<exists>v. cJSON_PrintUnformatted e j = Some v" for j using assms(1) by (auto simp: answers_allocated_def)
  then obtain v where "cJSON_PrintUnformatted e (if error_code c = ESP_OK then the (response_json c) else error_json e c) = Some v"
    by blast
  with assms(2) show ?thesis by (simp add: answer_def answers_sent_def)
qed

lemma handle_response_answers:
  assumes "answers_allocated e" "pending_answer e n p s"
  shows "answered e (Suc n) (exec (app_api_handle_response req (Some p) r) s)"
proof -
  obtain c where c: "api_ctxs s p = Some c" "\<not> manual_response c" and s: "answered e n s"
    using assms(2) by (auto simp: pending_answer_def)
  have "\<not> manual_response (final_ctx r c)" using c(2) by (simp add: final_ctx_def)
  from answer_sends_one [OF assms(1) this] s
  have "answers_sent (trace (exec (app_api_handle_response req (Some p) r) s)) = Suc n"
    by (simp add: handle_response_spec [OF c(1)] answered_def answers_sent_def)
  moreover have "ext (exec (app_api_handle_response req (Some p) r) s) = ext s"
    using c(1) by (simp add: app_api_handle_response_def write_response_def send_json_def Let_def case_prod_beta split: option.split)
  ultimately show ?thesis using s by (simp add: answered_def)
qed

lemma request_answered:
  assumes "answers_allocated e" "answered e n s" "ep \<in> set app_api_get_endpoints" "\<not> ep_is_ws ep"
    and "http_middleware (Some (https_cfg c)) (Some ep) req s = Some (r, s')"
  shows "answered e (Suc n) s'"
proof -
  have auth: "answered e n s1" if "run_state (app_api_check_auth req) s = (ok, s1)" for ok s1
  proof -
    have "keeps (answered e n) (app_api_check_auth req)"
      unfolding app_api_check_auth_def nvs_manager_load_str_def Let_def by (auto intro!: keeps_intro absorbs_answered)
    from keepsD [OF this assms(2)] that show ?thesis by simp
  qed
  show ?thesis
    using assms(3,5)
  proof (cases rule: middleware_run)
    case (refused s1)
    from auth [OF this(1)] this(2) show ?thesis by (simp add: answered_def answers_sent_def)
  next
    case (served h s1 p s2 lr s3)
    note s1 = auth [OF served(2)]
    then have "bool_of (ext s1) (trace s1) (Mem (Malloc 20))"
      using assms(1) by (simp add: answered_def answers_allocated_def)
    then obtain q where p: "p = Some q" and s2: "pending_answer e n q s2"
      using served(3) s1
      by (auto simp: app_api_create_ctx_def pending_answer_def answered_def answers_sent_def fresh_ctx_def)
    let ?req = "req\<lparr>req_user_ctx := UcApi q\<rparr>"
    have "keeps_pop (pending_answer e n q) (h ?req)"
      by (rule plain_endpoint_keeps [OF assms(3,4) served(1) handler_pred_pending update_ctx_pending]) simp_all
    from keeps_popD [OF this s2, of lr s3] served(4) p have s3: "pending_answer e n q s3" by simp
    from handle_response_answers [OF assms(1) this]
    have "answered e (Suc n) (exec (app_api_handle_response req (Some q) lr) s3)" .
    moreover note app = handler_predD(1) [OF handler_pred_answered]
    note keepsD [OF callbacks_keep(4) [OF app]] keepsD [OF callbacks_keep(5) [OF app]]
    ultimately show ?thesis
      using served(5) p
      by (auto simp: middleware_finish_def https_cfg_def case_prod_beta split: if_splits)
  qed
qed

end
