(* ===== verification/Boot_Completes.thy ===== *)
theory Boot_Completes
  imports System
begin

text \<open>
  The boot goes through when nothing fails: in an environment where every call the
  boot makes succeeds, the link comes up, the clock is set and the configuration file
  parses, \<open>app_main\<close> returns.
\<close>

section \<open>An environment in which nothing fails\<close>

fun boot_call :: "call \<Rightarrow> bool" where
  "boot_call (Queue (QueueSend _ _)) = False"
| "boot_call (Queue QueueReceive) = False"
| "boot_call (Nvs (NvsGetStr _ _ _)) = False"
| "boot_call _ = True"

definition boot_ok :: "ext_env \<Rightarrow> bool" where
  "boot_ok e \<longleftrightarrow>
     (\<forall>t c. boot_call c \<longrightarrow> err_of e t c = ESP_OK \<and> bool_of e t c) \<and>
     (\<forall>t. int_of e t (Time SntpStatus) \<noteq> SNTP_SYNC_STATUS_RESET) \<and>
     (\<forall>t z. int_of e t (Time (SetTz z)) = 0) \<and>
     (\<forall>t n. bit (word_of e t (Net (EventGroupWait n))) 0) \<and>
     (\<forall>str. cJSON_Parse e str \<noteq> None)"

lemma boot_okD:
  assumes "boot_ok e"
  shows "boot_call c \<Longrightarrow> err_of e t c = 0" "boot_call c \<Longrightarrow> bool_of e t c"
    "int_of e t (Time SntpStatus) \<noteq> SNTP_SYNC_STATUS_RESET" "int_of e t (Time (SetTz z)) = 0"
    "bit (word_of e t (Net (EventGroupWait n))) 0" "cJSON_Parse e str \<noteq> None"
  using assms by (simp_all add: boot_ok_def)

section \<open>Operations that return\<close>

definition returns :: "('s \<Rightarrow> bool) \<Rightarrow> ('s, 'a) pop \<Rightarrow> bool" where
  "returns P p \<longleftrightarrow> (\<forall>s. P s \<longrightarrow> (\<exists>a s'. p s = Some (a, s')))"

named_theorems returns_intro

lemma returns_run_op [returns_intro]: "returns P (run_op m)"
  by (simp add: returns_def prod_eq_iff)

lemma returns_critical [returns_intro]:
  "(\<And>s. P s \<Longrightarrow> result m s = ESP_OK) \<Longrightarrow> returns P (CHECK_CRITICAL (run_op m) msg)"
  unfolding returns_def critical_Some by (metis prod.collapse run_op_apply)

lemma returns_then [returns_intro]:
  "returns P p \<Longrightarrow> keeps_pop P p \<Longrightarrow> (\<And>a. returns P (f a)) \<Longrightarrow> returns P (then_pop p f)"
  unfolding returns_def keeps_pop_def then_pop_def by fastforce

lemma returns_seq [returns_intro]:
  "(\<And>p. p \<in> set ps \<Longrightarrow> returns P p \<and> keeps_pop P p) \<Longrightarrow> returns P (pop_seq ps)"
proof (induction ps)
  case Nil
  show ?case by (simp add: returns_def)
next
  case (Cons p ps)
  then have p: "returns P p" "keeps_pop P p" and "returns P (pop_seq ps)" by simp_all
  then have "returns P (then_pop p (\<lambda>_. pop_seq ps))" by (intro returns_then)
  then show ?case by (simp add: returns_def)
qed

section \<open>Each stage\<close>

lemma boot_results:
  assumes "boot_ok (ext s)"
  shows "result env_sensors_init s = ESP_OK" "result storage_init s = ESP_OK"
    "result nvs_manager_init s = Some ESP_OK"
    "result (io_input_init (Some io_button_get_buttons)) s = ESP_OK"
    "result uart_bus_rs485_init s = ESP_OK" "result uart_bus_rs232_init s = ESP_OK"
    "result ws_queue_init s = ESP_OK" "result ws_dispatcher_init s = ESP_OK"
    "result (ws_cmd_router_init a b) s = ESP_OK" "result cyclic_task_env_init s = ESP_OK"
    "result (https_server_service_init (Some cfg)) s = ESP_OK"
  using boot_okD [OF assms]
  by (simp_all add: env_sensors_init_def bmp280_read_calib_def storage_init_def nvs_manager_init_def
      io_input_init_def io_button_get_buttons_def s_buttons_def uart_bus_rs485_init_def
      uart_bus_rs232_init_def ws_queue_init_def ws_dispatcher_init_def ws_cmd_router_init_def
      cyclic_task_env_init_def https_server_service_init_def run_malloc_buf case_prod_beta)

lemma ext_eth [simp]:
  "ext (exec (set_static_ip cfg) s) = ext s" "ext (exec (malloc_str v) s) = ext s"
  by (rule keeps_field, rule eth_keeps, simp add: absorbs_def) (simp add: run_malloc_str)

lemma static_ip_ok:
  assumes "boot_ok (ext s)"
  shows "result (set_static_ip cfg) s = ESP_OK"
  using boot_okD [OF assms]
  by (auto simp: set_static_ip_def case_prod_beta split: option.split)

lemma eth_init_ok:
  assumes "boot_ok (ext s)"
  shows "result (eth_w5500_init cfg) s = ESP_OK"
proof -
  note ok = boot_okD [OF assms]
  obtain s1 p where m: "run_state (malloc_str (replicate 11 (CHR 0x00))) s = (Some p, s1)" "ext s1 = ext s"
    using ok(2) by (auto simp: run_malloc_str)
  have "boot_ok (ext (exec (call_unit (Net NetifNew)) s1))" using assms m by simp
  from static_ip_ok [OF this] show ?thesis
    using ok m
    by (simp add: eth_w5500_init_def or_free_def eth_w5500_attach_def case_prod_beta)
qed

lemma link_ok:
  assumes "boot_ok (ext s)"
  shows "\<exists>s'. eth_w5500_force_link_blocking cb s = Some s'"
proof -
  have "result (eth_w5500_wait_for_link 2500) s = ESP_OK"
    using boot_okD [OF assms] by (simp add: eth_w5500_wait_for_link_def)
  then show ?thesis by (simp add: eth_w5500_force_link_blocking_def case_prod_beta)
qed

lemma ntp_ok:
  assumes "boot_ok (ext s)"
  shows "result (ntp_service_init (Some srv) (Some tz)) s = ESP_OK"
proof -
  note ok = boot_okD [OF assms]
  have "result (ntp_sync_wait n 0) s' = 0" if "0 < n" "ext s' = ext s" for n and s' :: "'a platform_scheme"
    using that ok(3) by (subst ntp_sync_wait.simps) (simp add: poll_status_def)
  then show ?thesis
    using ok by (simp add: ntp_service_init_def case_prod_beta Let_def)
qed

lemma ext_read_str [simp]: "ext (exec (read_str p) s) = ext s"
  by (simp add: run_read_str split: option.split)

lemma load_config_ok:
  assumes "boot_ok (ext s)"
  shows "fst (result (storage_load_system_config (Some c)) s) = ESP_OK"
    "\<exists>c'. snd (result (storage_load_system_config (Some c)) s) = Some c'"
  by (auto simp: run_load_config Let_def boot_okD(6) [OF assms] split: option.split)

lemma ui_manager_init_ok:
  assumes "boot_ok (ext s)"
  shows "result ui_manager_init s = ESP_OK"
  using boot_okD [OF assms] by (simp add: ui_manager_init_def case_prod_beta)

lemma save_batch_ok:
  assumes "boot_ok (ext s)"
  shows "result (nvs_manager_save_strings_batch AUTH_NVS_NS (Some (nvs_entries c))) s = ESP_OK"
  using boot_okD [OF assms]
  by (simp add: nvs_manager_save_strings_batch_def nvs_entries_def case_prod_beta)

section \<open>The boot\<close>

text \<open>The stages after the hardware rely on nothing but the environment.\<close>

lemma base_ext: "base_pred (\<lambda>s :: 'x app_api_scheme. ext s = e)"
  by (rule world_pred_base [OF world_ext(1)])

lemma stages_return:
  assumes "boot_ok e"
  shows "returns (\<lambda>s :: 'x app_api_scheme. ext s = e) (boot_stage m k)"
    "returns (\<lambda>s :: 'x app_api_scheme. ext s = e) boot_cooldown"
    "returns (\<lambda>s :: 'x app_api_scheme. ext s = e) (CHECK_CRITICAL nvs_init_pop msg)"
    "returns (\<lambda>s :: 'x app_api_scheme. ext s = e) (\<lambda>s. map_option (Pair ()) (eth_w5500_force_link_blocking (Some on_eth_boot_wait) s))"
proof -
  show "returns (\<lambda>s :: 'x app_api_scheme. ext s = e) (boot_stage m k)"
    "returns (\<lambda>s :: 'x app_api_scheme. ext s = e) boot_cooldown"
    unfolding boot_stage_def boot_cooldown_def by (rule returns_run_op)+
  show "returns (\<lambda>s :: 'x app_api_scheme. ext s = e) (CHECK_CRITICAL nvs_init_pop msg)"
    using assms
    by (auto simp: returns_def critical_Some nvs_init_pop_def then_pop_def case_prod_beta boot_results(3))
  show "returns (\<lambda>s :: 'x app_api_scheme. ext s = e) (\<lambda>s. map_option (Pair ()) (eth_w5500_force_link_blocking (Some on_eth_boot_wait) s))"
    using link_ok assms by (auto simp: returns_def)
qed

lemma boot_sequences_return:
  fixes e defines "(P :: 'x app_api_scheme \<Rightarrow> bool) \<equiv> \<lambda>s. ext s = e"
  assumes "boot_ok e"
  shows "returns P boot_storage" "returns P (boot_services c)" "returns P (boot_network c)" "returns P boot_ready"
proof -
  note ops = boot_ops_keep [OF base_ext [of e]] boot_nvs_keep [OF base_ext [of e] nvs_write_absorbed(4)]
  note stages = stages_return [OF assms(2)]
  note res = boot_results eth_init_ok ntp_ok ui_manager_init_ok
  show "returns P boot_storage"
    unfolding boot_storage_def P_def
    using assms(2) by (auto intro!: returns_seq returns_critical keeps_critical keeps_run_op ops stages res router_free(3))
  show "returns P (boot_services c)"
    unfolding boot_services_def P_def
    using assms(2) by (auto intro!: returns_seq returns_critical keeps_critical keeps_run_op ops stages res router_free(3)
      simp: boot_okD)
  show "returns P (boot_network c)"
    unfolding boot_network_def P_def
    using assms(2) by (auto intro!: returns_seq returns_critical keeps_critical keeps_run_op ops stages res router_free(3))
  show "returns P boot_ready"
    unfolding boot_ready_def P_def
    using assms(2) base_pred_calls [OF base_ext [of e]] world_ext(2) [of e]
    by (auto intro!: returns_seq returns_critical returns_run_op keeps_critical keeps_run_op ops stages res keeps_calls absorbs_ext
      app_pred_ind [OF base_pred_app [OF base_ext [of e]]])
qed

lemma boot_config_returns:
  fixes s :: "'x app_api_scheme"
  assumes "boot_ok e" "ext s = e"
  shows "\<exists>c s'. boot_config s = Some (c, s')"
proof -
  let ?P = "\<lambda>s :: 'x app_api_scheme. ext s = e"
  note ops = boot_ops_keep [OF base_ext [of e]] boot_nvs_keep [OF base_ext [of e] nvs_write_absorbed(4)]
  let ?save = "\<lambda>c. nvs_manager_save_strings_batch AUTH_NVS_NS (Some (nvs_entries c)) :: ('x app_api_scheme, _) op"
  let ?load = "run_op (storage_load_system_config (Some config_defaults)) :: ('x app_api_scheme, _) pop"
  obtain s1 where b1: "boot_stage ''Loading config'' 5 s = Some ((), s1)"
    using stages_return(1) [OF assms(1), of "''Loading config''" 5] assms(2) by (auto simp: returns_def)
  from keeps_popD [OF ops(1) assms(2) b1] have e1: "ext s1 = e" .
  obtain c s2 where b2: "?load s1 = Some ((ESP_OK, Some c), s2)"
    using load_config_ok [of s1 config_defaults] assms(1) e1 by (auto simp: prod_eq_iff)
  from keeps_popD [OF keeps_run_op [OF boot_ops_keep(5) [OF base_ext]] e1 b2] have e2: "ext s2 = e" .
  have b3: "CHECK_CRITICAL (run_op (ret ESP_OK)) ''Config fail'' s2 = Some ((), s2)"
    by (simp add: critical_Some)
  obtain s3 where b4: "CHECK_CRITICAL (run_op (?save c)) ''NVS persist fail'' s2 = Some ((), s3)"
    using save_batch_ok [of s2 c] assms(1) e2 by (auto simp: critical_Some prod_eq_iff)
  show ?thesis
    by (simp add: boot_config_def then_pop_def b1 b2 b3 b4 del: run_op_apply then_pop_run)
      (simp add: boot_cooldown_def)
qed

text \<open>The hardware stage of a freshly powered board.\<close>

lemma boot_env_ok:
  assumes "boot_ok e"
  shows "i2c_ok e" "take_ok e" "ui_timer_ok e"
  using boot_okD(1,2) [OF assms]
  by (auto simp: i2c_ok_def take_ok_def ui_timer_ok_def)

lemma boot_hardware_returns:
  fixes s :: "'x app_api_scheme"
  assumes "boot_ok (ext s)"
  shows "\<exists>s'. boot_hardware s = Some ((), s')"
proof -
  let ?s1 = "exec i2c_bus_init s"
  let ?s2 = "exec io_expander_init ?s1"
  let ?s3 = "exec sys_ind_init ?s2"
  note ok = boot_okD [OF assms]
  have r1: "result i2c_bus_init s = ESP_OK" "bus_mutex ?s1" "ext ?s1 = ext s"
    using ok by (simp_all add: i2c_bus_init_def)
  then have r2: "result io_expander_init ?s1 = ESP_OK"
    using ok by (simp add: io_expander_init_def commit_to_hardware_def run_simps)
  have led: "ext (exec sys_ind_led_check s') = ext s'" for s' :: "'x app_api_scheme"
    by (rule keeps_field, rule sys_ind_led_keeps)
      (auto simp: absorbs_on_def absorbs_def keeps_def exec_set_level)
  have r3: "result sys_ind_init ?s2 = ESP_OK"
    using ok r1 boot_ext(1) [of ?s1] led by (simp add: sys_ind_init_def case_prod_beta)
  have "ext ?s3 = ext s" "bus_mutex ?s3"
    by (simp_all add: r1 boot_ext bus_mutex_kept)
  then have "lcd_ready ?s3" using boot_env_ok [OF assms] by (simp add: lcd_ready_def)
  then obtain t where "run_state lcd_driver_init ?s3 = (ESP_OK, ?s3\<lparr>trace := trace ?s3 @ t\<rparr>)"
    using run_lcd_init by blast
  then have r4: "result ui_init ?s3 = ESP_OK"
    using \<open>lcd_ready ?s3\<close> by (simp add: ui_init_def run_create_char run_lcd_clear)
  show ?thesis
    using r1 r2 r3 r4 unfolding boot_hardware_Some by (simp add: prod_eq_iff)
qed

theorem boot_completes:
  assumes "power_on s" "boot_ok (ext s)"
  shows "\<exists>c s'. app_main s = Some (c, s')"
proof -
  let ?P = "\<lambda>s'. ext s' = ext s"
  note tail = boot_before_manager(1,2) [OF base_ext nvs_write_absorbed(4)] boot_before_manager(3) [OF base_ext router_free(3)]
    boot_before_manager(4) [OF base_ext]
    and ret = boot_sequences_return [OF assms(2)]
  obtain s1 where b1: "boot_hardware s = Some ((), s1)" using boot_hardware_returns assms(2) by blast
  have e1: "ext s1 = ext s" by (rule keeps_popD [OF hardware_ext _ b1]) simp
  obtain s2 where b2: "boot_storage s1 = Some ((), s2)" using ret(1) e1 by (auto simp: returns_def)
  from keeps_popD [OF tail(1) e1 b2] have e2: "ext s2 = ext s" .
  obtain c s3 where b3: "boot_config s2 = Some (c, s3)" using boot_config_returns [OF assms(2) e2] by blast
  from keeps_popD [OF tail(2) e2 b3] have e3: "ext s3 = ext s" .
  obtain s4 where b4: "boot_services c s3 = Some ((), s4)" using ret(2) e3 by (auto simp: returns_def)
  from keeps_popD [OF tail(3) e3 b4] have e4: "ext s4 = ext s" .
  obtain s5 where b5: "boot_network c s4 = Some ((), s5)" using ret(3) e4 by (auto simp: returns_def)
  from keeps_popD [OF tail(4) e4 b5] have e5: "ext s5 = ext s" .
  obtain s6 where b6: "boot_ready s5 = Some ((), s6)" using ret(4) e5 by (auto simp: returns_def)
  show ?thesis unfolding app_main_Some using b1 b2 b3 b4 b5 b6 by blast
qed

end
