(* ===== verification/Sample.thy ===== *)
theory Sample
  imports Boot_Completes
begin

text \<open>
  A concrete device for the witnesses: an environment in which every call succeeds,
  the flash store and the queue behave as documented, and a freshly powered board.
\<close>

section \<open>The environment\<close>

definition sample_json_item :: "cjson option \<Rightarrow> string \<Rightarrow> cjson option" where
  "sample_json_item j k = (case j of Some (CObject m) \<Rightarrow> map_of m k | _ \<Rightarrow> None)"

definition sample_int :: "call \<Rightarrow> int" where
  "sample_int c =
     (case c of
        Uart (UartWrite p d) \<Rightarrow> int (length d)
      | Httpd (ReqRecv n) \<Rightarrow> int n
      | Httpd (HdrLen h) \<Rightarrow> 6
      | Httpd (WsFdInfo h sock) \<Rightarrow> 2
      | Time (SetTz z) \<Rightarrow> 0
      | _ \<Rightarrow> 1)"

definition idle_env :: ext_env where
  "idle_env =
     \<lparr>err_of = (\<lambda>_ _. ESP_OK), int_of = (\<lambda>_. sample_int), bool_of = (\<lambda>_ _. True), word_of = (\<lambda>_ _. 1),
      bytes_of = (\<lambda>_ c. case c of Httpd (ReqRecv n) \<Rightarrow> replicate n 0x41 | _ \<Rightarrow> []), str_of = (\<lambda>_ _. ''secret''),
      local_tm = (\<lambda>_. \<lparr>tm_year = 125, tm_mon = 0, tm_mday = 1, tm_wday = 3, tm_hour = 12, tm_min = 0, tm_sec = 0\<rparr>),
      cJSON_Parse = (\<lambda>s. Some (CObject [(''action'', CString (Some s))])),
      cJSON_GetObjectItem = sample_json_item, cJSON_PrintUnformatted = (\<lambda>_. Some ''{}''),
      query_key_value = (\<lambda>_ k _. (ESP_OK, if k = ''old'' then ''secret'' else ''fresh'')),
      esp_err_to_name = (\<lambda>_. Some ''ERR'')\<rparr>"

text \<open>The queue holds the accepted messages, ten at most.\<close>

fun sample_queue :: "call list \<Rightarrow> (string \<times> nat) list" where
  "sample_queue [] = []"
| "sample_queue (Queue (QueueSend ev p) # r) =
     (if length (sample_queue r) < 10 then sample_queue r @ [(ev, p)] else sample_queue r)"
| "sample_queue (Queue QueueReceive # r) = tl (sample_queue r)"
| "sample_queue (_ # r) = sample_queue r"

definition sample_env :: "(string \<times> string \<Rightarrow> string option) \<Rightarrow> ext_env" where
  "sample_env f = idle_env
     \<lparr>err_of := (\<lambda>t c. case c of
          Nvs (NvsGetStr h k n) \<Rightarrow>
            (case Option.bind (fst (nvs_view idle_env f t) h) (\<lambda>ns. snd (nvs_view idle_env f t) (ns, k)) of
               None \<Rightarrow> 0x1102 | Some v \<Rightarrow> if length v < n then ESP_OK else 0x110c)
        | _ \<Rightarrow> ESP_OK),
      str_of := (\<lambda>t c. case c of
          Nvs (NvsGetStr h k n) \<Rightarrow>
            (case Option.bind (fst (nvs_view idle_env f t) h) (\<lambda>ns. snd (nvs_view idle_env f t) (ns, k)) of
               None \<Rightarrow> [] | Some v \<Rightarrow> if length v < n then v else [])
        | Queue QueueReceive \<Rightarrow> fst (hd (sample_queue (rev t)))
        | Httpd (HdrStr h n) \<Rightarrow> if h = ''Content-Type'' then ''application/octet-stream'' else ''secret''
        | _ \<Rightarrow> ''secret''),
      bool_of := (\<lambda>t c. case c of
          Queue (QueueSend ev p) \<Rightarrow> length (sample_queue (rev t)) < 10
        | Queue QueueReceive \<Rightarrow> sample_queue (rev t) \<noteq> []
        | _ \<Rightarrow> True),
      int_of := (\<lambda>t c. case c of
          Queue QueueReceive \<Rightarrow> int (snd (hd (sample_queue (rev t))))
        | _ \<Rightarrow> sample_int c)\<rparr>"

lemma sample_nvs_step: "nvs_step (sample_env f) t st c = nvs_step idle_env t st c"
  by (cases "(sample_env f, t, st, c)" rule: nvs_step.cases) (auto simp: sample_env_def idle_env_def sample_int_def)

lemma sample_nvs_view: "nvs_view (sample_env f) f0 t = nvs_view idle_env f0 t"
  by (induction t rule: rev_induct) (simp_all add: sample_nvs_step, simp add: nvs_view_def)

lemma sample_nvs_law [simp]: "nvs_law f (sample_env f)"
  unfolding nvs_law_def sample_nvs_view by (auto simp: sample_env_def split: option.splits)

lemma sample_queue_view: "queue_view (sample_env f) t = sample_queue (rev t)"
proof (induction t rule: rev_induct)
  case Nil
  show ?case by simp
next
  case (snoc c t)
  have "queue_step (sample_env f) t (sample_queue (rev t)) c = sample_queue (c # rev t)"
    by (cases "(sample_env f, t, sample_queue (rev t), c)" rule: queue_step.cases)
      (auto simp: sample_env_def)
  with snoc show ?case by simp
qed

lemma sample_queue_law [simp]: "queue_law (sample_env f)"
  unfolding queue_law_def sample_queue_view by (auto simp: sample_env_def prod_eq_iff)

section \<open>The board\<close>

definition sample_board :: "ext_env \<Rightarrow> app_api" where
  "sample_board e =
     \<lparr>ext = e, trace = [], heap = Map.empty, next_ptr = 0, mem_fault = False,
      bus_mutex = False, port_shadow = 0xFF, io_mutex = False,
      is_error_state = False, act_led_timer = False, cmd_led_timer = False, buzzer_timer = False,
      buzzer_beep_counter = 0, buzzer_state = False,
      saved_line_0 = replicate 16 (CHR '' ''), saved_line_1 = replicate 16 (CHR '' ''),
      ui_temp_msg_timer = False, is_error_active = False, is_temp_active = False,
      bmp_calib = \<lparr>dig_T1 = 27504, dig_T2 = 26435, dig_T3 = - 1000, dig_P1 = 36477, dig_P2 = - 10685,
        dig_P3 = 3024, dig_P4 = 2855, dig_P5 = 140, dig_P6 = - 7, dig_P7 = 15500, dig_P8 = - 14600,
        dig_P9 = 6000\<rparr>, t_fine = 0,
      current_page = PAGE_SYSTEM, auto_mode = True, is_suspended = False, auto_scroll_timer = False,
      page_mac_buf = replicate 6 0,
      stack_env = (\<lambda>_. \<lparr>temp_aht = Finite 0, hum_aht = Finite 0, temp_bmp = Finite 0, pres_bmp = Finite 0\<rparr>),
      lcd_backlight_off = False, btns = [], s_ws_queue = False,
      s_active_socket = - 1, s_server_handle = None,
      s_commands = [], s_on_executed_cb = False, s_on_error_cb = False,
      server = False, cert_buffer = None, key_buffer = None, server_ctx = None,
      api_ctxs = Map.empty, next_ctx = 0\<rparr>"

lemma sample_power_on [simp]: "power_on (sample_board e)"
  by (simp add: power_on_def sample_board_def)

lemma sample_ext [simp]: "ext (sample_board e) = e"
  by (simp add: sample_board_def)

lemma sample_laws [simp]:
  "take_ok (sample_env f)" "i2c_ok (sample_env f)" "ui_timer_ok (sample_env f)" "recv_law (sample_env f)"
  "parsed_strings_ok (sample_env f)"
  by (auto simp: take_ok_def i2c_ok_def ui_timer_ok_def recv_law_def parsed_strings_ok_def sample_env_def
      idle_env_def sample_int_def sample_json_item_def)

text \<open>Nothing the boot does fails there, so there is a running device.\<close>

lemma sample_boot_ok [simp]: "boot_ok (sample_env f)"
proof -
  have "err_of (sample_env f) t c = ESP_OK \<and> bool_of (sample_env f) t c" if "boot_call c" for t c
    using that by (cases c rule: boot_call.cases) (simp_all add: sample_env_def)
  then show ?thesis
    by (simp add: boot_ok_def) (simp add: sample_env_def idle_env_def sample_int_def)
qed

lemma sample_reachable: "\<exists>c s. fw_reachable (sample_env f) c (s :: app_api)"
  using boot_completes [of "sample_board (sample_env f)"] fw_reachable.booted [of "sample_board (sample_env f)"]
  by force

text \<open>A step after which nothing covers the saved lines.\<close>

lemma draw_line_flags:
  "keeps (\<lambda>s :: 'x ui_scheme. is_error_active s = a \<and> is_temp_active s = b) (ui_draw_line r l)"
proof -
  let ?P = "\<lambda>s :: 'x ui_scheme. is_error_active s = a \<and> is_temp_active s = b"
  have hw: "absorbs_on hw_neutral ?P" by (simp add: absorbs_on_def absorbs_def)
  have call: "absorbs ?P c" for c by (simp add: absorbs_def)
  have nibble: "keeps ?P (lcd_driver_write_nibble n m)" for n m
    unfolding lcd_driver_write_nibble_def i2c_bus_lock_def i2c_bus_unlock_def
      i2c_bus_pcf8574_write_byte_def Let_def
    by (auto intro!: keeps_intro call)
  show ?thesis
    unfolding ui_draw_line_def by (intro keeps_bind keeps_ret lcd_keeps [OF hw nibble])
qed

lemma popup_over:
  "\<not> is_error_active (exec ui_restore_timer_callback s)" "\<not> is_temp_active (exec ui_restore_timer_callback s)"
proof -
  have "is_error_active (exec (ui_draw_line r l) u) = is_error_active u \<and>
    is_temp_active (exec (ui_draw_line r l) u) = is_temp_active u" for r l and u :: "'a ui_scheme"
    by (rule keepsD [OF draw_line_flags]) simp
  then show "\<not> is_error_active (exec ui_restore_timer_callback s)" "\<not> is_temp_active (exec ui_restore_timer_callback s)"
    by (simp_all add: ui_restore_timer_callback_def ui_restore_screen_def case_prod_beta)
qed

lemma sample_idle:
  "\<exists>c s. fw_reachable (sample_env f) c (s :: app_api) \<and> \<not> is_error_active s \<and> \<not> is_temp_active s"
proof -
  obtain c and s :: app_api where s: "fw_reachable (sample_env f) c s" using sample_reachable by blast
  from fw_reachable.step [OF s fw_step.popup_timer]
  have "fw_reachable (sample_env f) c (exec ui_restore_timer_callback s)" .
  moreover have "\<not> is_error_active (exec ui_restore_timer_callback s)"
    "\<not> is_temp_active (exec ui_restore_timer_callback s)"
    by (simp_all add: popup_over)
  ultimately show ?thesis by blast
qed

text \<open>What the board stores and what a request's header carries.\<close>

lemma stored_sample: "stored f (sample_board (sample_env g)) ns k = f (ns, k)"
  by (simp add: stored_def sample_board_def nvs_view_def)

lemma sample_token: "auth_token (sample_board (sample_env f)) = Some ''secret''"
  by (simp add: auth_token_def sample_board_def sample_env_def idle_env_def sample_int_def)

lemma sample_open: "err_of (sample_env f) t (Nvs (NvsOpen ns w)) = ESP_OK"
  by (simp add: sample_env_def)

lemma sample_refused: "\<not> result (app_api_check_auth req) (sample_board (sample_env (\<lambda>_. Some ''other'')))"
  by (simp add: check_auth_stored [of "\<lambda>_. Some ''other''"] stored_sample sample_token)

lemma sample_owned: "owned {} (sample_board (sample_env f)\<lparr>s_ws_queue := True\<rparr>)"
  by (simp add: owned_def heap_wf_def pending_def) (simp add: sample_board_def)

lemma sample_pending: "pending (sample_board e\<lparr>s_ws_queue := True\<rparr>) = []"
  by (simp add: pending_def) (simp add: sample_board_def)

end
