(* ===== verification/Reset_Button.thy ===== *)
theory Reset_Button
  imports Security
begin

text \<open>
  The way back in: a device whose password is lost takes its default password again when
  the RESET button is held for two seconds, that is for forty rounds of the input task.
\<close>

section \<open>The environment\<close>

text \<open>The flash store can be opened and written; every read of the port shows RESET pressed.\<close>

definition nvs_writable :: "ext_env \<Rightarrow> bool" where
  "nvs_writable e \<longleftrightarrow> (\<forall>t ns w h k v. err_of e t (Nvs (NvsOpen ns w)) = ESP_OK \<and>
     err_of e t (Nvs (NvsSetStr h k v)) = ESP_OK \<and> err_of e t (Nvs (NvsCommit h)) = ESP_OK)"

abbreviation port_read :: call where
  "port_read \<equiv> I2c (I2cCmdBegin [I2cStart, I2cWriteByte (push_bit 1 EXPANDER_ADDR OR 1), I2cReadByte, I2cStop] 100)"

definition reset_held :: "ext_env \<Rightarrow> bool" where
  "reset_held e \<longleftrightarrow> (\<forall>t. err_of e t port_read = ESP_OK \<and>
     \<not> bit (ucast (word_of e t port_read) :: byte) PCF_PIN_IN_BTN_RESET)"

lemma run_port_read:
  "run_state (i2c_bus_pcf8574_read_byte 0x20) s =
     ((err_of (ext s) (trace s) port_read, ucast (word_of (ext s) (trace s) port_read)),
      s\<lparr>trace := trace s @ [port_read]\<rparr>)"
  by (simp add: i2c_bus_pcf8574_read_byte_def)

section \<open>A long press\<close>

lemma reset_click:
  fixes s :: "'x io_button_scheme"
  assumes "nvs_law f (ext s)" "nvs_writable (ext s)"
    and "stored f s AUTH_NVS_NS AUTH_NVS_DEFAULT_KEY = Some d" "length d < 64"
  shows "stored f (exec (on_reset_btn_click BTN_CLICK_LONG) s) AUTH_NVS_NS AUTH_NVS_KEY = Some d"
    "stored f (exec (on_reset_btn_click BTN_CLICK_LONG) s) AUTH_NVS_NS AUTH_NVS_DEFAULT_KEY = Some d"
proof -
  let ?L = "nvs_manager_load_str AUTH_NVS_NS AUTH_NVS_DEFAULT_KEY 64 :: ('x io_button_scheme, _) op"
  let ?S = "nvs_manager_save_str AUTH_NVS_NS AUTH_NVS_KEY d :: ('x io_button_scheme, _) op"
  have load: "result ?L s = (ESP_OK, d)"
    using assms load_str_iff [of f s 64 AUTH_NVS_NS AUTH_NVS_DEFAULT_KEY d] by (simp add: nvs_writable_def)
  define s1 where "s1 = exec ?L s"
  have s1: "ext s1 = ext s" "stored f s1 = stored f s" by (simp_all add: s1_def ext_nvs stored_load)
  define s2 where "s2 = exec ?S s1"
  have save: "result ?S s1 = ESP_OK"
    using assms(2) s1(1) by (simp add: run_save_str nvs_writable_def Let_def)
  have s2: "stored f s2 ns k = (if (ns, k) = (AUTH_NVS_NS, AUTH_NVS_KEY) then Some d else stored f s ns k)" for ns k
    using assms(2) s1 by (simp add: s2_def stored_save nvs_writable_def)
  have "store_sat f (ext s2) ((=) (stored f s2)) s2" by (simp add: store_sat_def)
  from keepsD [OF app_pred_ui(11) [OF app_store] this, of "''Password reset''"]
  have "stored f (exec (ui_show_fixed_temp_cmd_message ''Password reset'') s2) = stored f s2"
    by (simp add: store_sat_def)
  moreover have "exec (on_reset_btn_click BTN_CLICK_LONG) s =
      exec (ui_show_fixed_temp_cmd_message ''Password reset'') s2"
    using load save by (simp add: on_reset_btn_click_def case_prod_beta s1_def [symmetric] s2_def)
  ultimately show "stored f (exec (on_reset_btn_click BTN_CLICK_LONG) s) AUTH_NVS_NS AUTH_NVS_KEY = Some d"
    "stored f (exec (on_reset_btn_click BTN_CLICK_LONG) s) AUTH_NVS_NS AUTH_NVS_DEFAULT_KEY = Some d"
    using s2 assms(3) by simp_all
qed


text \<open>
  The round in which the RESET button reaches two seconds stores the default; the buttons
  scanned after it can only store the default once more.
\<close>

lemma long_press_stores:
  fixes s :: "'x app_api_scheme"
  assumes law: "nvs_law f (ext s)" and wr: "nvs_writable (ext s)" and held: "reset_held (ext s)"
    and cfg: "map btn_cfg (btns s) = io_button_get_buttons" and t: "hold_timer (btns s ! 0) = 1950"
    and d: "stored f s AUTH_NVS_NS AUTH_NVS_DEFAULT_KEY = Some d" "length d < 64"
  shows "stored f (exec io_input_round s) AUTH_NVS_NS AUTH_NVS_KEY = Some d"
proof -
  define v :: byte where "v = ucast (word_of (ext s) (trace s) port_read)"
  define s1 where "s1 = s\<lparr>trace := trace s @ [port_read]\<rparr>"
  have read: "run_state (i2c_bus_pcf8574_read_byte 0x20) s = ((ESP_OK, v), s1)"
    using held unfolding run_port_read s1_def v_def by (simp add: reset_held_def)
  have v: "\<not> bit v 5" using held by (simp add: v_def reset_held_def)
  obtain b bs where b: "btns s = b # bs" "btn_cfg b = s_buttons ! 0"
    using cfg by (cases "btns s") (auto simp: io_button_get_buttons_def s_buttons_def)
  define s2 where "s2 = s1\<lparr>btns := (btns s)[0 := b\<lparr>hold_timer := 2000\<rparr>]\<rparr>"
  have first: "exec (io_input_button v 0) s1 = exec (on_reset_btn_click BTN_CLICK_LONG) s2"
    using b t v
    by (simp add: io_input_button_def pressed_bit s1_def s2_def hold_step_def s32_def s_buttons_def Let_def)
  have s2: "ext s2 = ext s" "stored f s2 = stored f s"
    using stored_call [of port_read f s] by (simp_all add: s2_def s1_def stored_eq)
  define s3 where "s3 = exec (io_input_button v 0) s1"
  have s3: "stored f s3 AUTH_NVS_NS AUTH_NVS_KEY = Some d" "stored f s3 AUTH_NVS_NS AUTH_NVS_DEFAULT_KEY = Some d"
    using reset_click [of f s2 d] s2 law wr d by (simp_all add: s3_def first)
  let ?P = "store_sat f (ext s) (key_or_default (stored f s3)) :: 'x app_api_scheme \<Rightarrow> bool"
  have "keeps (\<lambda>s :: 'x app_api_scheme. ext s = ext s2) (run_callback OnReset BTN_CLICK_LONG)"
    by (rule world_input(2) [OF world_ext(1) password_preds(4)])
  from keepsD [OF this refl] have "?P s3"
    by (simp add: store_sat_def key_or_default_def s3_def first s2)
  moreover have "keeps ?P (do { for_each [Suc 0..<length (btns s)] (io_input_button v); vTaskDelay 50 })"
    by (intro keeps_intro input_button_keeps callback_store [OF law] absorbs_store)
      (simp_all add: base_pred_free [OF base_store])
  ultimately have "?P (exec (do { for_each [Suc 0..<length (btns s)] (io_input_button v); vTaskDelay 50 }) s3)"
    by (rule keepsD [rotated])
  moreover have "exec io_input_round s =
      exec (do { for_each [Suc 0..<length (btns s)] (io_input_button v); vTaskDelay 50 }) s3"
    using read upt_conv_Cons [of 0 "length (btns s)"] b(1) [THEN arg_cong, of length]
    by (simp add: io_input_round_def case_prod_beta s3_def s1_def del: upt_Suc)
  ultimately show ?thesis
    using s3 by (auto simp: store_sat_def key_or_default_def)
qed

lemma held_rounds:
  fixes s :: "'x app_api_scheme"
  assumes law: "nvs_law f (ext s)" and held: "reset_held (ext s)"
    and cfg: "map btn_cfg (btns s) = io_button_get_buttons" and t: "hold_timer (btns s ! 0) = 0"
    and d: "stored f s AUTH_NVS_NS AUTH_NVS_DEFAULT_KEY = Some d" and k: "k < 40"
  defines "r \<equiv> \<lambda>k. (exec io_input_round ^^ k) s"
  shows "ext (r k) = ext s \<and> map btn_cfg (btns (r k)) = io_button_get_buttons \<and>
    hold_timer (btns (r k) ! 0) = 50 * int k \<and> stored f (r k) AUTH_NVS_NS AUTH_NVS_DEFAULT_KEY = Some d"
  using k
proof (induction k)
  case 0
  then show ?case using cfg t d by (simp add: r_def)
next
  case (Suc k)
  then have IH: "ext (r k) = ext s" "map btn_cfg (btns (r k)) = io_button_get_buttons"
    "hold_timer (btns (r k) ! 0) = 50 * int k" "stored f (r k) AUTH_NVS_NS AUTH_NVS_DEFAULT_KEY = Some d"
    by simp_all
  have r: "r (Suc k) = exec io_input_round (r k)" by (simp add: r_def)
  have "keeps (\<lambda>s' :: 'x app_api_scheme. ext s' = ext s) io_input_round"
    by (rule world_input(1) [OF world_ext(1) password_preds(4)])
  from keepsD [OF this IH(1)] have e: "ext (r (Suc k)) = ext s" by (simp add: r)
  have st: "stored f (r (Suc k)) AUTH_NVS_NS AUTH_NVS_DEFAULT_KEY = Some d"
    using input_store [of f "r k"] law IH(1,4) by (auto simp: r key_or_default_def)
  define v :: byte where "v = ucast (word_of (ext s) (trace (r k)) port_read)"
  have v: "\<not> bit v 5" using held by (simp add: v_def reset_held_def)
  have bs: "btns (r (Suc k)) = map (btn_next v) (btns (r k))"
    using held IH(1) unfolding r input_round_btns run_port_read by (simp add: reset_held_def v_def)
  have len: "btns (r k) \<noteq> []" "btn_cfg (btns (r k) ! 0) = s_buttons ! 0"
    using IH(2) by (auto simp: io_button_get_buttons_def s_buttons_def)
  have "hold_step True (50 * int k) = (50 * int (Suc k), snd (hold_step True (50 * int k)))"
    using hold_step_pressed [of k] Suc.prems by simp
  then have "hold_timer (btns (r (Suc k)) ! 0) = 50 * int (Suc k)"
    using len v IH(3) by (simp add: bs btn_next_def btn_pressed_def s_buttons_def prod_eq_iff)
  moreover have "map btn_cfg (btns (r (Suc k))) = io_button_get_buttons"
    using IH(2) by (simp add: bs comp_def btn_next_def)
  ultimately show ?case using e st by simp
qed

lemma held_reset_stores:
  fixes s :: "'x app_api_scheme"
  assumes "nvs_law f (ext s)" "nvs_writable (ext s)" "reset_held (ext s)"
    "map btn_cfg (btns s) = io_button_get_buttons" "hold_timer (btns s ! 0) = 0"
    "stored f s AUTH_NVS_NS AUTH_NVS_DEFAULT_KEY = Some d" "length d < 64"
  shows "stored f ((exec io_input_round ^^ 40) s) AUTH_NVS_NS AUTH_NVS_KEY = Some d"
proof -
  let ?s = "(exec io_input_round ^^ 39) s"
  have "ext ?s = ext s" "map btn_cfg (btns ?s) = io_button_get_buttons" "hold_timer (btns ?s ! 0) = 1950"
    "stored f ?s AUTH_NVS_NS AUTH_NVS_DEFAULT_KEY = Some d"
    using held_rounds [of f s d 39] assms by simp_all
  then have "stored f (exec io_input_round ?s) AUTH_NVS_NS AUTH_NVS_KEY = Some d"
    using assms by (intro long_press_stores) simp_all
  moreover have "(exec io_input_round ^^ 40) s = exec io_input_round ?s"
    by (simp add: numeral_eq_Suc)
  ultimately show ?thesis by simp
qed

end
