(* ===== verification/Sample_Requests.thy ===== *)
theory Sample_Requests
  imports Answers Sample Reset_Button
begin

text \<open>
  Two requests on the board of \<open>Sample\<close> run to their end: a firmware update of one byte,
  whose screen output a popup covers, and a password change with the right password in
  its header. Last, the same board with the RESET button held.
\<close>

lemma sample_answers_allocated [simp]: "answers_allocated (sample_env f)"
  by (simp add: answers_allocated_def sample_env_def idle_env_def)

lemma sample_recv_live [simp]: "recv_live (sample_env f)"
  by (simp add: recv_live_def sample_env_def sample_int_def)

section \<open>A firmware update\<close>

lemma sample_answers [simp]:
  "err_of (sample_env f) t (Ota oc) = ESP_OK" "err_of (sample_env f) t (Httpd hc) = ESP_OK"
  "bool_of (sample_env f) t (Ota oc)" "bool_of (sample_env f) t (Rtos rc)"
  "str_of (sample_env f) t (Httpd (HdrStr ''Content-Type'' n)) = ''application/octet-stream''"
  "int_of (sample_env f) t (Httpd (ReqRecv n)) = int n"
  "bytes_of (sample_env f) t (Httpd (ReqRecv n)) = replicate n 0x41"
  by (simp_all add: sample_env_def idle_env_def sample_int_def)

definition sample_upload :: httpd_req where
  "sample_upload = \<lparr>req_handle = 0, req_method = HTTP_POST, req_content_len = 1, req_user_ctx = UcNull\<rparr>"

definition busy_board :: app_api where "busy_board = sample_board (sample_env (\<lambda>_. None))\<lparr>is_temp_active := True\<rparr>"

lemma busy_set:
  fixes s :: "'x ui_scheme"
  assumes "is_temp_active s"
  shows "\<exists>a b. run_state (ui_set_text x y) s = ((), s\<lparr>saved_line_0 := a, saved_line_1 := b\<rparr>)"
  using assms by (auto simp: ui_set_text_def ui_set_text_in_row_def Let_def)

lemma busy_show:
  fixes s :: "'x ui_scheme"
  assumes "is_temp_active s"
  obtains a b where "run_state (ui_show_boot_progress m k n) s = ((), s\<lparr>saved_line_0 := a, saved_line_1 := b\<rparr>)"
  using busy_set [OF assms] that unfolding ui_show_boot_progress_def Let_def by blast

lemma busy_begin:
  obtains s1 where "run_state (ota_begin sample_upload) busy_board = (None, s1)" "ext s1 = ext busy_board"
    "is_temp_active s1" "\<not> s_ws_queue s1" "\<not> auto_scroll_timer s1" "\<not> boot_set (ext s1) (trace s1)" "flashed (trace s1) = []"
proof -
  obtain a b where "run_state (ui_show_boot_progress ''Firmware update'' 0 (ota_total sample_upload))
      (busy_board\<lparr>is_suspended := True, trace := [Httpd (HdrStr ''Content-Type'' 64), Ota OtaNextPartition, Ota OtaBegin]\<rparr>) =
      ((), busy_board\<lparr>is_suspended := True, trace := [Httpd (HdrStr ''Content-Type'' 64), Ota OtaNextPartition, Ota OtaBegin],
       saved_line_0 := a, saved_line_1 := b\<rparr>)"
    by (rule busy_show [where s = "busy_board\<lparr>is_suspended := True, trace := [Httpd (HdrStr ''Content-Type'' 64), Ota OtaNextPartition, Ota OtaBegin]\<rparr>" and m = "''Firmware update''" and k = 0 and n = "ota_total sample_upload"])
      (simp_all add: busy_board_def sample_board_def)
  then show ?thesis
    by (intro that [of "busy_board\<lparr>is_suspended := True, trace := [Httpd (HdrStr ''Content-Type'' 64), Ota OtaNextPartition, Ota OtaBegin],
       saved_line_0 := a, saved_line_1 := b\<rparr>"])
     (simp_all add: ota_begin_def ui_manager_suspend_def busy_board_def sample_board_def boot_set_def)
qed

text \<open>The same board with a client that never sends what it announced.\<close>

definition stalled_board :: app_api where
  "stalled_board = busy_board\<lparr>ext := (sample_env (\<lambda>_. None))
     \<lparr>int_of := (\<lambda>t c. case c of Httpd (ReqRecv n) \<Rightarrow> - 3 | _ \<Rightarrow> 1)\<rparr>\<rparr>"

lemma stalled_begin: "recv_stalls (ext stalled_board)" "result (ota_begin sample_upload) stalled_board = None"
proof -
  show "recv_stalls (ext stalled_board)" by (simp add: recv_stalls_def stalled_board_def)
  let ?t = "[Httpd (HdrStr ''Content-Type'' 64), Ota OtaNextPartition, Ota OtaBegin]"
  obtain a b where "run_state (ui_show_boot_progress ''Firmware update'' 0 (ota_total sample_upload))
      (stalled_board\<lparr>is_suspended := True, trace := ?t\<rparr>) =
      ((), stalled_board\<lparr>is_suspended := True, trace := ?t, saved_line_0 := a, saved_line_1 := b\<rparr>)"
    by (rule busy_show [where s = "stalled_board\<lparr>is_suspended := True, trace := ?t\<rparr>" and m = "''Firmware update''" and k = 0 and n = "ota_total sample_upload"])
      (simp_all add: stalled_board_def busy_board_def sample_board_def)
  then show "result (ota_begin sample_upload) stalled_board = None"
    by (simp add: ota_begin_def ui_manager_suspend_def stalled_board_def busy_board_def sample_board_def)
qed

lemma busy_send: "\<not> s_ws_queue s \<Longrightarrow> run_state (send_ota_progress_event k n) s = ((), s)"
  by (simp add: send_ota_progress_event_def ws_queue_send_def)

lemma busy_total [simp]: "ota_total sample_upload = 1" "ota_percent 1 1 = 100"
  by (simp_all add: ota_total_def sample_upload_def ota_percent_def s32_def)

lemma busy_pass:
  fixes s :: app_api
  assumes "ext s = sample_env f" "is_temp_active s" "\<not> s_ws_queue s"
  obtains a b where "run_state (ota_pass sample_upload 1 1 0 (- 1)) s = (OtaMore 0 1 100,
      s\<lparr>trace := trace s @ [Httpd (ReqRecv 1), Ota (OtaWrite [0x41])], saved_line_0 := a, saved_line_1 := b\<rparr>)"
proof -
  let ?s = "s\<lparr>trace := trace s @ [Httpd (ReqRecv 1), Ota (OtaWrite [0x41])]\<rparr>"
  have "is_temp_active ?s" using assms by simp
  then obtain a b where r: "run_state (ui_show_boot_progress ''Firmware update'' 1 1) ?s =
      ((), ?s\<lparr>saved_line_0 := a, saved_line_1 := b\<rparr>)"
    by (rule busy_show)
  have q: "run_state (send_ota_progress_event 1 1) ?s = ((), ?s)" using assms by (intro busy_send) simp
  from r q assms show ?thesis
    by (intro that [of b a]) (simp add: ota_pass_def ota_show_progress_def)
qed

lemma busy_finish:
  fixes s :: app_api
  assumes "ext s = sample_env f" "is_temp_active s" "\<not> s_ws_queue s"
  obtains a b where "run_state (ota_finish sample_upload) s = (ESP_OK, s\<lparr>saved_line_0 := a, saved_line_1 := b,
      trace := trace s @ [Ota OtaEnd, Ota OtaSetBoot, Rtos (TaskCreate ''ota_reboot_task'')]\<rparr>)"
proof -
  let ?s = "s\<lparr>trace := trace s @ [Ota OtaEnd, Ota OtaSetBoot]\<rparr>"
  have "is_temp_active ?s" using assms by simp
  then obtain a b where r: "run_state (ui_show_boot_progress ''Complete'' 1 1) ?s =
      ((), ?s\<lparr>saved_line_0 := a, saved_line_1 := b\<rparr>)"
    by (rule busy_show)
  let ?t = "?s\<lparr>saved_line_0 := a, saved_line_1 := b\<rparr>"
  have q: "run_state (send_ota_progress_event 1 1) ?t = ((), ?t)" using assms by (intro busy_send) simp
  have u: "req_user_ctx sample_upload = UcNull" by (simp add: sample_upload_def)
  from r q assms show ?thesis
    by (intro that [of b a]) (simp add: ota_finish_def app_api_return_ok_def update_ctx_def u)
qed

lemma sample_update:
  "\<exists>s'. app_api_ota_update sample_upload busy_board = Some (ESP_OK, s') \<and>
     boot_set (ext busy_board) (trace s') \<and> flashed (trace s') = [0x41]"
proof -
  obtain s1 where b: "run_state (ota_begin sample_upload) busy_board = (None, s1)" "ext s1 = ext busy_board"
    "is_temp_active s1" "\<not> s_ws_queue s1" "\<not> boot_set (ext s1) (trace s1)" "flashed (trace s1) = []"
    by (rule busy_begin)
  then have e: "ext s1 = sample_env (\<lambda>_. None)" by (simp add: busy_board_def sample_board_def)
  obtain a0 b0 where p: "run_state (ota_pass sample_upload 1 1 0 (- 1)) s1 = (OtaMore 0 1 100,
      s1\<lparr>trace := trace s1 @ [Httpd (ReqRecv 1), Ota (OtaWrite [0x41])], saved_line_0 := a0, saved_line_1 := b0\<rparr>)"
    by (rule busy_pass [OF e b(3,4)])
  define s2 where "s2 = s1\<lparr>trace := trace s1 @ [Httpd (ReqRecv 1), Ota (OtaWrite [0x41])], saved_line_0 := a0, saved_line_1 := b0\<rparr>"
  have l: "ota_loop sample_upload 1 1 0 (- 1) s1 = Some (Inr (), s2)"
    by (subst ota_loop.simps, subst ota_loop.simps) (simp add: p s2_def)
  obtain a1 b1 where f: "run_state (ota_finish sample_upload) s2 = (ESP_OK, s2\<lparr>saved_line_0 := a1, saved_line_1 := b1,
      trace := trace s2 @ [Ota OtaEnd, Ota OtaSetBoot, Rtos (TaskCreate ''ota_reboot_task'')]\<rparr>)"
    by (rule busy_finish [of s2 "\<lambda>_. None"]) (use e b in \<open>simp_all add: s2_def\<close>)
  have "app_api_ota_update sample_upload busy_board = Some (ESP_OK, s2\<lparr>saved_line_0 := a1, saved_line_1 := b1,
      trace := trace s2 @ [Ota OtaEnd, Ota OtaSetBoot, Rtos (TaskCreate ''ota_reboot_task'')]\<rparr>)"
    by (simp add: app_api_ota_update_def then_pop_def b(1) l f)
  moreover have "ext busy_board = sample_env (\<lambda>_. None)" by (simp add: busy_board_def sample_board_def)
  ultimately show ?thesis
    using b(6) by (simp add: s2_def boot_set_def)
qed

section \<open>A password change\<close>

definition sample_change :: httpd_req where
  "sample_change = \<lparr>req_handle = 0, req_method = HTTP_POST, req_content_len = 20, req_user_ctx = UcEndpoint\<rparr>"

abbreviation "secret_store \<equiv> \<lambda>_ :: string \<times> string. Some ''secret''"

lemma sample_change_request:
  assumes "ext s = sample_env f" "req_content_len req = 20"
  shows "change_request req s = Some (''secret'', ''fresh'')"
  using assms by (simp add: change_request_def sample_env_def idle_env_def sample_int_def)

lemma sample_change_stores:
  fixes s :: app_api
  assumes "ext s = sample_env f" "stored f s AUTH_NVS_NS AUTH_NVS_KEY = Some ''secret''" "req_content_len req = 20"
  shows "stored f (exec (app_api_auth_change_password req) s) AUTH_NVS_NS AUTH_NVS_KEY = Some ''fresh''"
proof -
  let ?s1 = "s\<lparr>trace := trace s @ [change_recv req]\<rparr>"
  have "result (nvs_manager_load_str AUTH_NVS_NS AUTH_NVS_KEY 256) ?s1 = (ESP_OK, ''secret'')"
    using load_str_iff [of f ?s1 256 AUTH_NVS_NS AUTH_NVS_KEY "''secret''"] assms(1,2) by (simp add: sample_open)
  moreover have "result (nvs_manager_save_str ns k v) u = ESP_OK" if "ext u = sample_env f" for ns k v and u :: app_api
    using that by (simp add: run_save_str Let_def sample_env_def)
  ultimately show ?thesis
    using assms sample_change_request [of s f req]
    by (simp add: exec_change_password Let_def stored_save sample_open) (simp add: sample_env_def)
qed

lemma sample_change_run:
  fixes s :: app_api
  assumes "s = sample_board (sample_env secret_store)"
  obtains r s' where "http_middleware (Some (https_cfg c)) (Some (hd app_api_get_endpoints)) sample_change s = Some (r, s')"
    "stored secret_store s' AUTH_NVS_NS AUTH_NVS_KEY = Some ''fresh''"
proof -
  let ?e = "sample_env secret_store" and ?f = secret_store
  let ?ep = "hd app_api_get_endpoints :: app_api https_endpoint"
  have e: "ext s = ?e" and st: "stored ?f s AUTH_NVS_NS AUTH_NVS_KEY = Some ''secret''"
    by (simp_all add: assms stored_sample)
  have "result (app_api_check_auth sample_change) s"
    using check_auth_stored [of ?f s] by (simp add: assms stored_sample sample_token sample_open)
  then obtain s1 where a: "run_state (app_api_check_auth sample_change) s = (True, s1)"
    by (cases "run_state (app_api_check_auth sample_change) s") simp
  let ?P = "store_sat ?f ?e (\<lambda>m. m AUTH_NVS_NS AUTH_NVS_KEY = Some ''secret'') :: app_api \<Rightarrow> bool"
  let ?Q = "store_sat ?f ?e (\<lambda>m. m AUTH_NVS_NS AUTH_NVS_KEY = Some ''fresh'') :: app_api \<Rightarrow> bool"
  have p0: "?P s" using e st by (simp add: store_sat_def)
  have "keeps ?P (app_api_check_auth sample_change)" by (rule world_ctx(7) [OF base_store])
  from keepsD [OF this, OF p0] a have p1: "?P s1" by simp
  obtain p s2 where c: "run_state (app_api_create_ctx sample_change) s1 = (Some p, s2)"
    using p1 by (simp add: app_api_create_ctx_def store_sat_def sample_env_def)
  have "keeps ?P (app_api_create_ctx sample_change)" by (rule world_ctx(5) [OF base_store])
  from keepsD [OF this, OF p1] c have p2: "?P s2" by simp
  let ?req = "sample_change\<lparr>req_user_ctx := UcApi p\<rparr>"
  obtain r s3 where h: "run_state (app_api_auth_change_password ?req) s2 = (r, s3)"
    by (cases "run_state (app_api_auth_change_password ?req) s2")
  have "keeps (\<lambda>s :: app_api. ext s = ?e) (app_api_auth_change_password ?req)"
    by (rule world_password(1) [OF world_pred_base [OF world_ext(1)] password_preds(4)])
  from keepsD [OF this, of s2] p2 h have "ext s3 = ?e" by (simp add: store_sat_def)
  with p2 h have "?Q s3"
    using sample_change_stores [of s2 ?f ?req] by (simp add: store_sat_def sample_change_def)
  obtain r' s' where f: "run_state (middleware_finish (Some (https_cfg c)) ?ep sample_change (Some p) r) s3 = (r', s')"
    by (cases "run_state (middleware_finish (Some (https_cfg c)) ?ep sample_change (Some p) r) s3")
  have "keeps ?Q (middleware_finish (Some (https_cfg c)) ?ep sample_change (Some p) r)"
    by (rule world_finish [OF base_store])
  from keepsD [OF this, OF \<open>?Q s3\<close>] f have "?Q s'" by simp
  moreover have "http_middleware (Some (https_cfg c)) (Some ?ep) sample_change s = Some (r', s')"
    unfolding f [symmetric]
  proof (rule middleware_served)
    show "ep_handler ?ep = Some (\<lambda>r. run_op (app_api_auth_change_password r))" "\<not> ep_is_public ?ep"
      by (simp_all add: app_api_get_endpoints_def)
    show "auth_cb (https_cfg c) = Some app_api_check_auth"
      "create_request_ctx (https_cfg c) = Some app_api_create_ctx"
      by (simp_all add: https_cfg_def)
  qed (use a c h in simp_all)
  ultimately show thesis using that by (simp add: store_sat_def)
qed

section \<open>A lost password\<close>

definition lost_store :: "string \<times> string \<Rightarrow> string option" where
  "lost_store nk = Some (if snd nk = AUTH_NVS_DEFAULT_KEY then ''secret'' else ''other'')"

definition sample_held_board :: app_api where
  "sample_held_board = sample_board (sample_env lost_store)
     \<lparr>btns := map (\<lambda>c. \<lparr>btn_cfg = c, hold_timer = 0\<rparr>) io_button_get_buttons\<rparr>"

lemma sample_held: "nvs_writable (sample_env f)" "reset_held (sample_env f)"
  by (simp_all add: nvs_writable_def reset_held_def sample_env_def idle_env_def bit_1_iff)

lemma sample_held_start:
  "ext sample_held_board = sample_env lost_store"
  "map btn_cfg (btns sample_held_board) = io_button_get_buttons" "hold_timer (btns sample_held_board ! 0) = 0"
  "stored lost_store sample_held_board AUTH_NVS_NS k =
     Some (if k = AUTH_NVS_DEFAULT_KEY then ''secret'' else ''other'')"
  by (simp_all add: sample_held_board_def comp_def io_button_get_buttons_def s_buttons_def stored_def
      sample_board_def nvs_view_def lost_store_def)

end
