(* ===== verification/Task_Steps.thy ===== *)
theory Task_Steps
  imports Io_Expander
begin

text \<open>
  Tasks that run at the same time. The other theories run an operation to its end; here a
  task is the tree of its undivided steps on what the tasks share: the two mutexes, the
  shadow register of the port expander and the bus. \<open>run_tasks\<close> lets a schedule decide
  which task takes the next step and what the next transaction on the bus returns, so a
  statement about all schedules covers every preemption and every error. A task that finds
  a mutex taken waits, as \<open>xSemaphoreTake\<close> with \<open>portMAX_DELAY\<close> does.
\<close>

section \<open>Programs and their steps\<close>

text \<open>
  \<open>Load\<close> and \<open>Store\<close> are the read and the write of \<open>port_shadow\<close> by one statement of C:
  \<open>port_shadow |= ...\<close> is a load and a store, and another task may come in between.
  \<open>Store pin level x k\<close> writes the value \<open>x\<close> with one pin changed.
\<close>

datatype prog =
    Halt
  | Take sem prog
  | Give sem prog
  | Load "byte \<Rightarrow> prog"
  | Store nat int byte prog
  | Call call "esp_err_t \<Rightarrow> prog"

datatype act =
    ATake sem
  | AGive sem
  | ALoad byte
  | AStore nat int byte
  | ACall call esp_err_t

text \<open>The next step of a program: the error a call returns and the register's value are given.\<close>

primrec next_act :: "esp_err_t \<Rightarrow> byte \<Rightarrow> prog \<Rightarrow> (act \<times> prog) option" where
  "next_act e sh Halt = None"
| "next_act e sh (Take m k) = Some (ATake m, k)"
| "next_act e sh (Give m k) = Some (AGive m, k)"
| "next_act e sh (Load f) = Some (ALoad sh, f sh)"
| "next_act e sh (Store p l x k) = Some (AStore p l x, k)"
| "next_act e sh (Call c f) = Some (ACall c e, f e)"

lemma next_act_None: "next_act e sh p = None \<longleftrightarrow> p = Halt"
  by (cases p) simp_all

section \<open>A pool of tasks\<close>

text \<open>\<open>pool_events\<close> is the history: who did what, in order.\<close>

record pool =
  pool_tasks :: "prog list"
  pool_shadow :: byte
  pool_holder :: "sem \<Rightarrow> nat option"
  pool_events :: "(nat \<times> act) list"

definition pool_start :: "prog list \<Rightarrow> byte \<Rightarrow> pool" where
  "pool_start ps sh = \<lparr>pool_tasks = ps, pool_shadow = sh, pool_holder = (\<lambda>_. None), pool_events = []\<rparr>"

fun act_ready :: "act \<Rightarrow> pool \<Rightarrow> bool" where
  "act_ready (ATake m) c \<longleftrightarrow> pool_holder c m = None"
| "act_ready _ c \<longleftrightarrow> True"

fun act_effect :: "nat \<Rightarrow> act \<Rightarrow> pool \<Rightarrow> pool" where
  "act_effect i (ATake m) c = c\<lparr>pool_holder := (pool_holder c)(m := Some i)\<rparr>"
| "act_effect i (AGive m) c = c\<lparr>pool_holder := (pool_holder c)(m := None)\<rparr>"
| "act_effect i (AStore p l x) c = c\<lparr>pool_shadow := set_pin p l x\<rparr>"
| "act_effect i _ c = c"

definition task_step :: "nat \<times> esp_err_t \<Rightarrow> pool \<Rightarrow> pool" where
  "task_step ie c = (case ie of (i, e) \<Rightarrow>
     if i < length (pool_tasks c) then
       (case next_act e (pool_shadow c) (pool_tasks c ! i) of
          None \<Rightarrow> c
        | Some (a, k) \<Rightarrow>
            if act_ready a c
            then (act_effect i a c)\<lparr>pool_tasks := (pool_tasks c)[i := k],
                   pool_events := pool_events c @ [(i, a)]\<rparr>
            else c)
     else c)"

definition run_tasks :: "(nat \<times> esp_err_t) list \<Rightarrow> pool \<Rightarrow> pool" where
  "run_tasks sched c = fold task_step sched c"

definition all_done :: "pool \<Rightarrow> bool" where
  "all_done c \<longleftrightarrow> (\<forall>p\<in>set (pool_tasks c). p = Halt)"

text \<open>The calls of a pool's history, as a trace.\<close>

fun act_calls :: "act \<Rightarrow> call list" where
  "act_calls (ATake m) = [Rtos (SemTake m)]"
| "act_calls (AGive m) = [Rtos (SemGive m)]"
| "act_calls (ACall c e) = [c]"
| "act_calls _ = []"

definition pool_calls :: "pool \<Rightarrow> call list" where
  "pool_calls c = concat (map (\<lambda>x. act_calls (snd x)) (pool_events c))"

lemma run_tasks_Nil [simp]: "run_tasks [] c = c"
  by (simp add: run_tasks_def)

lemma run_tasks_Cons [simp]: "run_tasks (x # xs) c = run_tasks xs (task_step x c)"
  by (simp add: run_tasks_def)

lemma run_tasks_append [simp]: "run_tasks (xs @ ys) c = run_tasks ys (run_tasks xs c)"
  by (simp add: run_tasks_def)

lemma act_effect_fields [simp]:
  "pool_tasks (act_effect i a c) = pool_tasks c" "pool_events (act_effect i a c) = pool_events c"
  by (cases "(i, a, c)" rule: act_effect.cases; simp)+

text \<open>A step is one act of one task, or waiting.\<close>

lemma task_step_cases [case_names wait act]:
  assumes "task_step (i, e) c = c \<Longrightarrow> P"
    and "\<And>a k. i < length (pool_tasks c) \<Longrightarrow>
      next_act e (pool_shadow c) (pool_tasks c ! i) = Some (a, k) \<Longrightarrow> act_ready a c \<Longrightarrow>
      task_step (i, e) c = (act_effect i a c)\<lparr>pool_tasks := (pool_tasks c)[i := k],
        pool_events := pool_events c @ [(i, a)]\<rparr> \<Longrightarrow> P"
  shows P
proof (cases "i < length (pool_tasks c) \<and>
    (\<exists>a k. next_act e (pool_shadow c) (pool_tasks c ! i) = Some (a, k) \<and> act_ready a c)")
  case True
  then obtain a k where "i < length (pool_tasks c)"
    "next_act e (pool_shadow c) (pool_tasks c ! i) = Some (a, k)" "act_ready a c" by blast
  with assms(2) [of a k] show P by (simp add: task_step_def)
next
  case False
  then show P by (intro assms(1)) (auto simp: task_step_def split: option.split)
qed

lemma task_step_moves:
  assumes "i < length (pool_tasks c)" "next_act e (pool_shadow c) (pool_tasks c ! i) = Some (a, k)" "act_ready a c"
  shows "task_step (i, e) c \<noteq> c"
proof
  assume "task_step (i, e) c = c"
  then have "pool_events (task_step (i, e) c) = pool_events c" by simp
  then show False using assms by (simp add: task_step_def)
qed

text \<open>Induction over a schedule.\<close>

lemma run_tasks_induct [consumes 1, case_names step]:
  assumes "I c"
    and "\<And>i e c. I c \<Longrightarrow> (i, e) \<in> set sched \<Longrightarrow> I (task_step (i, e) c)"
  shows "I (run_tasks sched c)"
  using assms
proof (induction sched arbitrary: c)
  case Nil
  then show ?case by simp
next
  case (Cons x xs)
  then show ?case by (cases x) simp
qed

section \<open>What a task puts into the history\<close>

text \<open>
  \<open>emits g ok p us\<close>: whatever the register holds and whichever errors in \<open>ok\<close> its calls
  return, the acts of \<open>p\<close> contribute exactly \<open>us\<close>, when \<open>g\<close> is the contribution of one act.
\<close>

fun act_ok :: "(esp_err_t \<Rightarrow> bool) \<Rightarrow> act \<Rightarrow> bool" where
  "act_ok ok (ACall c e) \<longleftrightarrow> ok e"
| "act_ok ok _ \<longleftrightarrow> True"

definition peels :: "'a list \<Rightarrow> ('a list \<Rightarrow> bool) \<Rightarrow> 'a list \<Rightarrow> bool" where
  "peels xs P us \<longleftrightarrow> (\<exists>vs. us = xs @ vs \<and> P vs)"

lemma peels_simps [simp]: "peels [] P us = P us" "peels (x # xs) P (u # us) \<longleftrightarrow> x = u \<and> peels xs P us"
  "\<not> peels (x # xs) P []"
  by (auto simp: peels_def)

primrec emits :: "(act \<Rightarrow> 'a list) \<Rightarrow> (esp_err_t \<Rightarrow> bool) \<Rightarrow> prog \<Rightarrow> 'a list \<Rightarrow> bool" where
  "emits g ok Halt = (\<lambda>us. us = [])"
| "emits g ok (Take m k) = peels (g (ATake m)) (emits g ok k)"
| "emits g ok (Give m k) = peels (g (AGive m)) (emits g ok k)"
| "emits g ok (Load f) = (\<lambda>us. \<forall>x. peels (g (ALoad x)) (emits g ok (f x)) us)"
| "emits g ok (Store p l x k) = peels (g (AStore p l x)) (emits g ok k)"
| "emits g ok (Call c f) = (\<lambda>us. \<forall>e. ok e \<longrightarrow> peels (g (ACall c e)) (emits g ok (f e)) us)"

lemma emits_next:
  assumes "emits g ok p us" "next_act e sh p = Some (a, k)" "act_ok ok a"
  shows "\<exists>vs. us = g a @ vs \<and> emits g ok k vs"
  using assms by (cases p) (auto simp: peels_def)

text \<open>\<open>ws\<close> is a shuffle of the lists \<open>us\<close>, however many there are.\<close>

definition interleaves :: "'a list \<Rightarrow> 'a list list \<Rightarrow> bool" where
  "interleaves ws us \<longleftrightarrow> (\<exists>log. map snd log = ws \<and> (\<forall>x\<in>set log. fst x < length us) \<and>
     (\<forall>i<length us. map snd (filter (\<lambda>x. fst x = i) log) = us ! i))"

definition contribution :: "(act \<Rightarrow> 'a list) \<Rightarrow> (nat \<times> act) list \<Rightarrow> 'a list" where
  "contribution g h = concat (map (\<lambda>x. g (snd x)) h)"

lemma contribution_simps [simp]:
  "contribution g [] = []" "contribution g (h @ h') = contribution g h @ contribution g h'"
  "contribution g [x] = g (snd x)"
  by (simp_all add: contribution_def)

lemma contribution_log:
  fixes g :: "act \<Rightarrow> 'a list"
  assumes "\<forall>x\<in>set h. fst x < length us"
    and "\<And>i. i < length us \<Longrightarrow> contribution g (filter (\<lambda>x. fst x = i) h) = us ! i"
  shows "interleaves (contribution g h) us"
proof -
  let ?log = "concat (map (\<lambda>x. map (Pair (fst x)) (g (snd x))) h)"
  have "map snd ?log = contribution g h"
    by (simp add: contribution_def map_concat comp_def)
  moreover have "map snd (filter (\<lambda>x. fst x = i) ?log) = contribution g (filter (\<lambda>x. fst x = i) h)" for i
    by (induction h) (auto simp: contribution_def filter_map comp_def)
  ultimately show ?thesis
    unfolding interleaves_def by (intro exI [of _ ?log]) (use assms in auto)
qed

lemma emits_run:
  fixes g :: "act \<Rightarrow> 'a list"
  assumes emits: "list_all2 (emits g ok) ps us" and sched: "\<forall>x\<in>set sched. ok (snd x)"
    and fin: "all_done (run_tasks sched (pool_start ps sh))"
  shows "interleaves (contribution g (pool_events (run_tasks sched (pool_start ps sh)))) us"
proof -
  define I where "I c \<longleftrightarrow> length (pool_tasks c) = length us \<and> (\<forall>x\<in>set (pool_events c). fst x < length us) \<and>
    (\<forall>i<length us. \<exists>vs. us ! i = contribution g (filter (\<lambda>x. fst x = i) (pool_events c)) @ vs \<and>
       emits g ok (pool_tasks c ! i) vs)" for c :: pool
  let ?c = "run_tasks sched (pool_start ps sh)"
  have "I (pool_start ps sh)"
    using emits by (auto simp: I_def pool_start_def list_all2_conv_all_nth)
  then have I: "I ?c"
  proof (induction rule: run_tasks_induct)
    case (step i e c)
    show ?case
    proof (cases rule: task_step_cases [of i e c])
      case wait
      then show ?thesis using step by simp
    next
      case (act a k)
      have "act_ok ok a" using act(2) sched step(2) by (cases "pool_tasks c ! i") auto
      moreover obtain vs where "us ! i = contribution g (filter (\<lambda>x. fst x = i) (pool_events c)) @ vs"
        "emits g ok (pool_tasks c ! i) vs"
        using step(1) act(1) by (auto simp: I_def)
      ultimately obtain vs where "us ! i = contribution g (filter (\<lambda>x. fst x = i) (pool_events c)) @ g a @ vs"
        "emits g ok k vs"
        using emits_next [OF _ act(2)] by blast
      then show ?thesis
        using step(1) act(1,4) by (auto simp: I_def nth_list_update)
    qed
  qed
  have "pool_tasks ?c ! i = Halt" if "i < length us" for i
    using fin I that by (auto simp: all_done_def I_def)
  with I show ?thesis by (intro contribution_log) (auto simp: I_def)
qed

section \<open>How long a task runs\<close>

primrec halts_within :: "prog \<Rightarrow> nat \<Rightarrow> bool" where
  "halts_within Halt = (\<lambda>n. True)"
| "halts_within (Take m k) = (\<lambda>n. 0 < n \<and> halts_within k (n - 1))"
| "halts_within (Give m k) = (\<lambda>n. 0 < n \<and> halts_within k (n - 1))"
| "halts_within (Load f) = (\<lambda>n. 0 < n \<and> (\<forall>x. halts_within (f x) (n - 1)))"
| "halts_within (Store p l x k) = (\<lambda>n. 0 < n \<and> halts_within k (n - 1))"
| "halts_within (Call c f) = (\<lambda>n. 0 < n \<and> (\<forall>e. halts_within (f e) (n - 1)))"

lemma halts_later: "halts_within p n \<Longrightarrow> halts_within p (n + d)"
  by (induction p arbitrary: n) (auto simp: gr0_conv_Suc)

lemma within_next:
  "halts_within p n \<Longrightarrow> next_act e sh p = Some (a, k) \<Longrightarrow> 0 < n \<and> halts_within k (n - 1)"
  by (cases p) auto

lemma events_bounded:
  assumes "list_all2 halts_within ps ns"
  shows "length (pool_events (run_tasks sched (pool_start ps sh))) \<le> sum_list ns"
proof -
  define I where "I c \<longleftrightarrow> (\<exists>ms. list_all2 halts_within (pool_tasks c) ms \<and>
    length (pool_events c) + sum_list ms = sum_list ns)" for c :: pool
  have "I (pool_start ps sh)" using assms by (auto simp: I_def pool_start_def)
  then have "I (run_tasks sched (pool_start ps sh))"
  proof (induction rule: run_tasks_induct)
    case (step i e c)
    show ?case
    proof (cases rule: task_step_cases [of i e c])
      case wait
      then show ?thesis using step by simp
    next
      case (act a k)
      obtain ms where ms: "list_all2 halts_within (pool_tasks c) ms"
        "length (pool_events c) + sum_list ms = sum_list ns" using step(1) by (auto simp: I_def)
      have i: "i < length ms" "0 < ms ! i" "halts_within k (ms ! i - 1)"
        using within_next [OF _ act(2)] ms(1) act(1) by (auto simp: list_all2_conv_all_nth)
      have "ms ! i \<le> sum_list ms" using i(1) by (rule elem_le_sum_list)
      then have "sum_list (ms[i := ms ! i - 1]) + 1 = sum_list ms"
        using i(1,2) by (simp add: sum_list_update)
      moreover have "list_all2 halts_within ((pool_tasks c)[i := k]) (ms[i := ms ! i - 1])"
        using ms(1) i(3) by (rule list_all2_update_cong)
      ultimately show ?thesis
        using ms(2) act(4) by (auto simp: I_def intro!: exI [of _ "ms[i := ms ! i - 1]"])
    qed
  qed
  then show ?thesis by (auto simp: I_def)
qed

end
