(* ===== verification/Lcd_Sharing.thy ===== *)
theory Lcd_Sharing
  imports Ui
begin

text \<open>
  Two tasks on one display. \<open>ui.c\<close> has no lock of its own: the carousel draws from the
  timer task, the answers to requests from the server's task, the buttons from the input
  task. What excludes them is the bus mutex, which \<open>lcd_driver_write_nibble\<close> takes and
  gives back for each nibble. So the sections that run undivided are nibbles, and a
  schedule of two tasks is a shuffle of their sections.
\<close>

section \<open>Sections\<close>

text \<open>The nibbles of a byte, as \<open>lcd_driver_send_byte\<close> passes them to \<open>lcd_driver_write_nibble\<close>.\<close>

definition lcd_sections :: "byte \<Rightarrow> byte \<Rightarrow> (byte \<times> byte) list" where
  "lcd_sections v m = [(v AND 0xF0, m), (push_bit 4 v AND 0xF0, m)]"

definition run_sections :: "(byte \<times> byte) list \<Rightarrow> ('x i2c_bus_scheme, unit) op" where
  "run_sections ws = for_each ws (\<lambda>(n, m). do { lcd_driver_write_nibble n m; ret () })"

definition section_calls :: "(byte \<times> byte) list \<Rightarrow> call list" where
  "section_calls ws = concat (map (\<lambda>(n, m). nibble_calls (nibble_data n m)) ws)"

lemma exec_run_sections:
  assumes "lcd_ready s"
  shows "exec (run_sections ws) s = s\<lparr>trace := trace s @ section_calls ws\<rparr>"
  using assms
proof (induction ws arbitrary: s)
  case Nil
  then show ?case by (simp add: run_sections_def section_calls_def)
next
  case (Cons w ws)
  obtain n m where w: "w = (n, m)" by (cases w)
  have "lcd_ready (s\<lparr>trace := trace s @ nibble_calls (nibble_data n m)\<rparr>)" using Cons.prems by simp
  from Cons.IH [OF this] Cons.prems show ?case
    by (simp add: w run_sections_def section_calls_def run_write_nibble case_prod_beta)
qed

text \<open>A task that has the display to itself runs the sections of its byte one after the other.\<close>

lemma send_byte_sections:
  assumes "lcd_ready s"
  shows "exec (lcd_driver_send_byte v m) s = exec (run_sections (lcd_sections v m)) s"
  using assms by (simp add: run_send_byte exec_run_sections byte_calls_def section_calls_def lcd_sections_def)

section \<open>What the display receives\<close>

lemma section_latches:
  assumes "\<And>n m. (n, m) \<in> set ws \<Longrightarrow> m \<in> {0, 1}"
  shows "latches (lcd_writes (section_calls ws)) = map (\<lambda>(n, m). (m = 1, n AND 0xF0)) ws \<and>
    (lcd_writes (section_calls ws) = [] \<or> \<not> bit (last (lcd_writes (section_calls ws))) 2)"
  using assms
proof (induction ws)
  case Nil
  then show ?case by (simp add: section_calls_def)
next
  case (Cons w ws)
  obtain n m where w: "w = (n, m)" by (cases w)
  have m: "m \<in> {0, 1}" using Cons.prems [of n m] by (simp add: w)
  have IH: "latches (lcd_writes (section_calls ws)) = map (\<lambda>(n, m). (m = 1, n AND 0xF0)) ws"
    "lcd_writes (section_calls ws) = [] \<or> \<not> bit (last (lcd_writes (section_calls ws))) 2"
    using Cons.IH Cons.prems by auto
  let ?w = "[nibble_data n m, nibble_data n m OR 4, nibble_data n m AND NOT 4]"
  have split: "lcd_writes (section_calls (w # ws)) = ?w @ lcd_writes (section_calls ws)"
    by (simp add: w section_calls_def nibble_writes)
  have "latches (?w @ lcd_writes (section_calls ws)) = latches ?w @ latches (lcd_writes (section_calls ws))"
    by (rule latches_append) (use nibble_low [OF m] in simp)
  then have "latches (lcd_writes (section_calls (w # ws))) = map (\<lambda>(n, m). (m = 1, n AND 0xF0)) (w # ws)"
    unfolding split nibble_latch [OF m] IH(1) by (simp add: w)
  moreover have "\<not> bit (last (lcd_writes (section_calls (w # ws)))) 2"
    unfolding split using IH(2) nibble_low [OF m, of n] by (auto simp: last_append)
  ultimately show ?case by simp
qed

text \<open>The schedule in which both tasks get their first nibble through before their second.\<close>

lemma sections_mixed:
  assumes "m \<in> {0, 1}" "k \<in> {0, 1}"
  shows "lcd_decode (lcd_writes (section_calls
      [(a AND 0xF0, m), (b AND 0xF0, k), (push_bit 4 a AND 0xF0, m), (push_bit 4 b AND 0xF0, k)])) =
    [(m = 1, a AND 0xF0 OR drop_bit 4 (b AND 0xF0)),
     (m = 1, push_bit 4 a AND 0xF0 OR drop_bit 4 (push_bit 4 b AND 0xF0))]"
proof -
  let ?ws = "[(a AND 0xF0, m), (b AND 0xF0, k), (push_bit 4 a AND 0xF0, m), (push_bit 4 b AND 0xF0, k)]"
  have "latches (lcd_writes (section_calls ?ws)) = map (\<lambda>(n, m). (m = 1, n AND 0xF0)) ?ws"
    by (rule section_latches [THEN conjunct1]) (use assms in auto)
  then show ?thesis unfolding lcd_decode_def by (simp add: and.assoc)
qed

lemma mixed_in_shuffles:
  "[(a AND 0xF0, m), (b AND 0xF0, k), (push_bit 4 a AND 0xF0, m), (push_bit 4 b AND 0xF0, k)] \<in>
     shuffles (lcd_sections a m) (lcd_sections b k)"
  by (simp add: lcd_sections_def Cons_in_shuffles_iff)

end
