(* ===== verification/Bus_Sharing.thy ===== *)
theory Bus_Sharing
  imports Task_Steps Env_Sensor Lcd_Sharing
begin

text \<open>
  The functions that use the bus as programs of steps, and any number of tasks that call
  them under any schedule. First: a task alone does what the model's functions do
  (\<open>run_prog\<close>). Then the protocol of the two mutexes as an automaton (\<open>after\<close>) that every
  task follows, and from it: no deadlock, no lost update of the shadow register, whole
  nibbles on the display.
\<close>

section \<open>The functions, step by step\<close>

text \<open>
  The tests of the two mutexes for null are left out: both exist once the boot has ended,
  which \<open>Running_Tasks\<close> proves.
\<close>

definition commit_prog :: "(esp_err_t \<Rightarrow> prog) \<Rightarrow> prog" where
  "commit_prog k = Load (\<lambda>sh. Take BusMutex
     (Call (expander_write (sh OR EXPANDER_INIT_PINS_MASK)) (\<lambda>err. Give BusMutex (k err))))"

definition set_level_prog :: "nat \<Rightarrow> int \<Rightarrow> (esp_err_t \<Rightarrow> prog) \<Rightarrow> prog" where
  "set_level_prog pin level k = Take IoMutex (Load (\<lambda>x. Store pin level x
     (commit_prog (\<lambda>err. Give IoMutex (k err)))))"

definition nibble_prog :: "byte \<Rightarrow> byte \<Rightarrow> (esp_err_t \<Rightarrow> prog) \<Rightarrow> prog" where
  "nibble_prog nibble mode k =
     (let data = (nibble AND 0xF0) OR mode OR LCD_BL_BIT;
          unlock = (\<lambda>err. Give BusMutex (Call (Rtos (DelayUs 20)) (\<lambda>_. k err)))
      in Take BusMutex (Call (lcd_write data) (\<lambda>err.
           if err = ESP_OK then Call (lcd_write (data OR LCD_EN_BIT)) (\<lambda>err.
             if err = ESP_OK then Call (Rtos (DelayUs 1)) (\<lambda>_.
               Call (lcd_write (data AND NOT LCD_EN_BIT)) unlock)
             else unlock err)
           else unlock err)))"

definition send_byte_prog :: "byte \<Rightarrow> byte \<Rightarrow> (esp_err_t \<Rightarrow> prog) \<Rightarrow> prog" where
  "send_byte_prog val mode k = nibble_prog (val AND 0xF0) mode (\<lambda>err.
     if err \<noteq> ESP_OK then k err else nibble_prog (push_bit 4 val AND 0xF0) mode k)"

primrec send_data_prog :: "byte list \<Rightarrow> (esp_err_t \<Rightarrow> prog) \<Rightarrow> prog" where
  "send_data_prog [] k = k ESP_OK"
| "send_data_prog (b # bs) k = send_byte_prog b LCD_RS_BIT (\<lambda>err.
     if err \<noteq> ESP_OK then k err else send_data_prog bs k)"

definition calls_prog :: "call list \<Rightarrow> prog \<Rightarrow> prog" where
  "calls_prog cs k = foldr (\<lambda>c k. Call c (\<lambda>_. k)) cs k"

text \<open>
  What a task asks of the bus. The input task's read of the port and the sensors'
  transactions take no mutex.
\<close>

datatype job =
    SetLevel nat int
  | LcdCmd byte
  | LcdPrint string
  | ReadPort
  | ReadSensors env_data
  | Pause nat

definition sensor_calls :: "call list" where
  "sensor_calls = [I2c (I2cWriteDevice AHT20_ADDR [0xAC, 0x33, 0x00] 100), Rtos (TaskDelay 80),
     I2c (I2cReadDevice AHT20_ADDR 6 100), I2c (I2cWriteRead BMP280_ADDR [0xF7] 6 100)]"

abbreviation port_transfer :: call where
  "port_transfer \<equiv> I2c (I2cCmdBegin [I2cStart, I2cWriteByte (push_bit 1 EXPANDER_ADDR OR 1), I2cReadByte, I2cStop] 100)"

primrec job_prog :: "job \<Rightarrow> prog \<Rightarrow> prog" where
  "job_prog (SetLevel p l) k = set_level_prog p l (\<lambda>_. k)"
| "job_prog (LcdCmd v) k = send_byte_prog v 0 (\<lambda>_. k)"
| "job_prog (LcdPrint str) k = send_data_prog (bytes_of_string str) (\<lambda>_. k)"
| "job_prog ReadPort k = calls_prog [port_transfer] k"
| "job_prog (ReadSensors d) k = calls_prog sensor_calls k"
| "job_prog (Pause ms) k = calls_prog [Rtos (TaskDelay ms)] k"

definition task_prog :: "job list \<Rightarrow> prog" where
  "task_prog js = foldr job_prog js Halt"

definition tasks_start :: "job list list \<Rightarrow> byte \<Rightarrow> pool" where
  "tasks_start jss sh = pool_start (map task_prog jss) sh"

section \<open>A task alone\<close>

text \<open>The same jobs in the model of the other theories.\<close>

primrec run_job :: "job \<Rightarrow> ('x env_sensor_scheme, unit) op" where
  "run_job (SetLevel p l) = do { io_expander_set_level p l; ret () }"
| "run_job (LcdCmd v) = do { lcd_driver_cmd v; ret () }"
| "run_job (LcdPrint str) = do { lcd_driver_print str; ret () }"
| "run_job ReadPort = do { i2c_bus_pcf8574_read_byte EXPANDER_ADDR; ret () }"
| "run_job (ReadSensors d) = do { env_sensors_read_all (Some d); ret () }"
| "run_job (Pause ms) = vTaskDelay ms"

text \<open>A program run to its end on the state of the model, the results of its calls read off \<open>ext\<close>.\<close>

primrec run_prog :: "prog \<Rightarrow> 'x io_expander_scheme \<Rightarrow> 'x io_expander_scheme" where
  "run_prog Halt s = s"
| "run_prog (Take m k) s = run_prog k (s\<lparr>trace := trace s @ [Rtos (SemTake m)]\<rparr>)"
| "run_prog (Give m k) s = run_prog k (s\<lparr>trace := trace s @ [Rtos (SemGive m)]\<rparr>)"
| "run_prog (Load f) s = run_prog (f (port_shadow s)) s"
| "run_prog (Store p l x k) s = run_prog k (s\<lparr>port_shadow := set_pin p l x\<rparr>)"
| "run_prog (Call c f) s = run_prog (f (err_of (ext s) (trace s) c)) (s\<lparr>trace := trace s @ [c]\<rparr>)"

definition mutexes_ready :: "'x io_expander_scheme \<Rightarrow> bool" where
  "mutexes_ready s \<longleftrightarrow> io_mutex s \<and> bus_mutex s \<and> take_ok (ext s)"

lemma mutexes_ready_fields [simp]:
  "mutexes_ready (s\<lparr>trace := t\<rparr>) = mutexes_ready s" "mutexes_ready (s\<lparr>port_shadow := sh\<rparr>) = mutexes_ready s"
  by (simp_all add: mutexes_ready_def)

lemma run_set_level_prog:
  assumes "mutexes_ready s"
  shows "run_prog (set_level_prog p l k) s =
    (let (err, s') = run_state (io_expander_set_level p l) s in run_prog (k err) s')"
  using assms
  by (simp add: set_level_prog_def commit_prog_def io_expander_set_level_def commit_to_hardware_def
      run_simps mutexes_ready_def set_pin_def)

lemma run_nibble_prog:
  assumes "mutexes_ready s"
  shows "run_prog (nibble_prog n m k) s =
    (let (err, s') = run_state (lcd_driver_write_nibble n m) s in run_prog (k err) s')"
  using assms
  by (simp add: nibble_prog_def lcd_driver_write_nibble_def run_simps mutexes_ready_def Let_def take_ok_bool)

lemma ready_nibble [simp]:
  "mutexes_ready (exec (lcd_driver_write_nibble n m) s) = mutexes_ready s"
  by (simp add: lcd_driver_write_nibble_def run_simps mutexes_ready_def Let_def)

lemma run_send_byte_prog:
  assumes "mutexes_ready s"
  shows "run_prog (send_byte_prog v m k) s =
    (let (err, s') = run_state (lcd_driver_send_byte v m) s in run_prog (k err) s')"
  using assms
  by (simp add: send_byte_prog_def lcd_driver_send_byte_def run_nibble_prog case_prod_beta Let_def)

lemma ready_send_byte [simp]:
  "mutexes_ready (exec (lcd_driver_send_byte v m) s) = mutexes_ready s"
  by (simp add: lcd_driver_send_byte_def case_prod_beta)

lemma run_send_data_prog:
  assumes "mutexes_ready s"
  shows "run_prog (send_data_prog bs k) s =
    (let (err, s') = run_state (lcd_send_data bs) s in run_prog (k err) s')"
  using assms
  by (induction bs arbitrary: s) (simp_all add: run_send_byte_prog case_prod_beta Let_def)

lemma ready_send_data [simp]: "mutexes_ready (exec (lcd_send_data bs) s) = mutexes_ready s"
  by (induction bs arbitrary: s) (simp_all add: case_prod_beta)

text \<open>What of the state a program sees.\<close>

definition bus_view :: "'x io_expander_scheme \<Rightarrow> ext_env \<times> call list \<times> byte" where
  "bus_view s = (ext s, trace s, port_shadow s)"

lemma run_prog_view: "bus_view s = bus_view s' \<Longrightarrow> bus_view (run_prog p s) = bus_view (run_prog p s')"
  by (induction p arbitrary: s s') (simp_all add: bus_view_def)

lemma run_calls_prog:
  "run_prog (calls_prog cs k) s = run_prog k (s\<lparr>trace := trace s @ cs\<rparr>)"
  by (induction cs arbitrary: s) (simp_all add: calls_prog_def)

lemma sensors_view:
  "bus_view (exec (env_sensors_read_all (Some d)) s) = (ext s, trace s @ sensor_calls, port_shadow s)"
  "mutexes_ready (exec (env_sensors_read_all (Some d)) s) = mutexes_ready s"
  by (simp_all add: env_sensors_read_all_def bmp280_comp_T_def bmp280_comp_P_def case_prod_beta Let_def
      bus_view_def sensor_calls_def mutexes_ready_def)

lemma job_alone:
  assumes "mutexes_ready s"
  shows "bus_view (run_prog (job_prog j k) s) = bus_view (run_prog k (exec (run_job j) s))"
    "mutexes_ready (exec (run_job j) s)"
proof -
  have "bus_view (run_prog (job_prog j k) s) = bus_view (run_prog k (exec (run_job j) s)) \<and>
    mutexes_ready (exec (run_job j) s)"
  proof (cases j)
    case (SetLevel p l)
    then show ?thesis using assms by (simp add: run_set_level_prog case_prod_beta exec_set_level)
  next
    case (ReadSensors d)
    have "bus_view (s\<lparr>trace := trace s @ sensor_calls\<rparr>) = bus_view (exec (env_sensors_read_all (Some d)) s)"
      unfolding sensors_view by (simp add: bus_view_def)
    from run_prog_view [OF this, of k] show ?thesis
      using ReadSensors assms by (simp add: run_calls_prog case_prod_beta sensors_view(2))
  qed (use assms in \<open>simp_all add: run_send_byte_prog run_send_data_prog lcd_driver_cmd_def
      lcd_driver_print_def run_calls_prog i2c_bus_pcf8574_read_byte_def case_prod_beta Let_def\<close>)
  then show "bus_view (run_prog (job_prog j k) s) = bus_view (run_prog k (exec (run_job j) s))"
    "mutexes_ready (exec (run_job j) s)" by simp_all
qed

lemma task_alone:
  assumes "mutexes_ready s"
  shows "bus_view (run_prog (task_prog js) s) = bus_view (exec (for_each js run_job) s)"
  using assms
proof (induction js arbitrary: s)
  case Nil
  then show ?case by (simp add: task_prog_def)
next
  case (Cons j js)
  from Cons.IH [OF job_alone(2) [OF Cons.prems, of j]] job_alone(1) [OF Cons.prems, of j "task_prog js"]
  show ?case by (simp add: task_prog_def case_prod_beta)
qed

section \<open>The protocol\<close>

text \<open>
  Where a task is: outside, in the steps of \<open>set_level_prog\<close>, or in a nibble with the bytes
  it has sent since it took the bus (\<open>None\<close> after an error).
\<close>

datatype phase =
    Idle
  | IoHeld
  | Loaded byte
  | Stored
  | Out byte
  | ExpBus byte
  | ExpSent
  | ExpDone
  | Nibble "byte list option"

definition nibble_bytes :: "byte \<Rightarrow> byte \<Rightarrow> byte list" where
  "nibble_bytes n m = [nibble_data n m, nibble_data n m OR 4, nibble_data n m AND NOT 4]"

definition whole_nibble :: "byte list \<Rightarrow> bool" where
  "whole_nibble ds \<longleftrightarrow> (\<exists>n m. m \<in> {0, 1} \<and> ds = nibble_bytes n m)"

fun after :: "phase \<Rightarrow> act \<Rightarrow> phase option" where
  "after Idle (ATake IoMutex) = Some IoHeld"
| "after IoHeld (ALoad x) = Some (Loaded x)"
| "after (Loaded x) (AStore p l y) = (if y = x then Some Stored else None)"
| "after Stored (ALoad x) = Some (Out (x OR EXPANDER_INIT_PINS_MASK))"
| "after (Out d) (ATake BusMutex) = Some (ExpBus d)"
| "after (ExpBus d) (ACall c e) = (if c = expander_write d then Some ExpSent else None)"
| "after ExpSent (AGive BusMutex) = Some ExpDone"
| "after ExpDone (AGive IoMutex) = Some Idle"
| "after Idle (ATake BusMutex) = Some (Nibble (Some []))"
| "after (Nibble b) (ACall c e) = (if pcf_byte EXPANDER_ADDR c = []
     then Some (Nibble (if e = ESP_OK then map_option (\<lambda>ds. ds @ pcf_byte LCD_I2C_ADDR c) b else None)) else None)"
| "after (Nibble b) (AGive BusMutex) = (if case b of None \<Rightarrow> True | Some ds \<Rightarrow> whole_nibble ds then Some Idle else None)"
| "after Idle (ACall c e) =
     (if pcf_byte EXPANDER_ADDR c = [] \<and> pcf_byte LCD_I2C_ADDR c = [] then Some Idle else None)"
| "after _ _ = None"

definition follow :: "phase option \<Rightarrow> (phase \<Rightarrow> bool) \<Rightarrow> bool" where
  "follow ph P \<longleftrightarrow> (case ph of None \<Rightarrow> False | Some ph' \<Rightarrow> P ph')"

lemma follow_simps [simp]: "follow None P = False" "follow (Some ph) P = P ph"
  by (simp_all add: follow_def)

primrec conforms :: "prog \<Rightarrow> phase \<Rightarrow> bool" where
  "conforms Halt = (\<lambda>ph. ph = Idle)"
| "conforms (Take m k) = (\<lambda>ph. follow (after ph (ATake m)) (conforms k))"
| "conforms (Give m k) = (\<lambda>ph. follow (after ph (AGive m)) (conforms k))"
| "conforms (Load f) = (\<lambda>ph. \<forall>x. follow (after ph (ALoad x)) (conforms (f x)))"
| "conforms (Store p l x k) = (\<lambda>ph. follow (after ph (AStore p l x)) (conforms k))"
| "conforms (Call c f) = (\<lambda>ph. \<forall>e. follow (after ph (ACall c e)) (conforms (f e)))"

lemma conforms_next:
  assumes "conforms p ph" "next_act e sh p = Some (a, k)"
  shows "\<exists>ph'. after ph a = Some ph' \<and> conforms k ph'"
  using assms by (cases p) (auto simp: follow_def split: option.splits)

lemma conforms_set_level:
  assumes "\<And>err. conforms (k err) Idle"
  shows "conforms (set_level_prog p l k) Idle"
  using assms by (simp add: set_level_prog_def commit_prog_def)

lemma conforms_nibble:
  assumes "\<And>err. conforms (k err) Idle" "m \<in> {0, 1}"
  shows "conforms (nibble_prog n m k) Idle"
proof -
  have "whole_nibble (nibble_bytes n m)" using assms(2) by (auto simp: whole_nibble_def)
  then show ?thesis
    using assms(1) by (auto simp: nibble_prog_def Let_def nibble_bytes_def nibble_data_def)
qed

lemma conforms_send_byte:
  assumes "\<And>err. conforms (k err) Idle" "m \<in> {0, 1}"
  shows "conforms (send_byte_prog v m k) Idle"
  unfolding send_byte_prog_def using assms by (intro conforms_nibble) (auto intro: conforms_nibble)

lemma conforms_send_data:
  assumes "\<And>err. conforms (k err) Idle"
  shows "conforms (send_data_prog bs k) Idle"
  using assms by (induction bs) (auto intro: conforms_send_byte)

lemma conforms_calls:
  assumes "conforms k Idle" "\<forall>c\<in>set cs. pcf_byte EXPANDER_ADDR c = [] \<and> pcf_byte LCD_I2C_ADDR c = []"
  shows "conforms (calls_prog cs k) Idle"
  using assms by (induction cs) (simp_all add: calls_prog_def)

lemma conforms_job: "conforms k Idle \<Longrightarrow> conforms (job_prog j k) Idle"
  by (cases j) (auto intro!: conforms_set_level conforms_send_byte conforms_send_data conforms_calls
      simp: sensor_calls_def)

lemma conforms_task: "conforms (task_prog js) Idle"
  by (induction js) (simp_all add: task_prog_def conforms_job)

end
