(* ===== verification/Bus_Protocol.thy ===== *)
theory Bus_Protocol
  imports Bus_Sharing
begin

text \<open>
  What the protocol gives under every schedule: each mutex has the one holder its phase
  says, the register a task has loaded is still the current one when it stores, every
  store is written to the expander once and in order, and the display receives whole
  nibbles.
\<close>

section \<open>Mutual exclusion\<close>

fun holds :: "phase \<Rightarrow> sem set" where
  "holds Idle = {}"
| "holds IoHeld = {IoMutex}"
| "holds (Loaded x) = {IoMutex}"
| "holds Stored = {IoMutex}"
| "holds (Out d) = {IoMutex}"
| "holds (ExpBus d) = {IoMutex, BusMutex}"
| "holds ExpSent = {IoMutex, BusMutex}"
| "holds ExpDone = {IoMutex}"
| "holds (Nibble b) = {BusMutex}"

lemma after_holds:
  assumes "after ph a = Some ph'"
  shows "holds ph' = (case a of ATake m \<Rightarrow> insert m (holds ph) | AGive m \<Rightarrow> holds ph - {m} | _ \<Rightarrow> holds ph)"
  using assms by (cases "(ph, a)" rule: after.cases) (auto split: if_splits)

lemma after_give: "after ph (AGive m) = Some ph' \<Longrightarrow> m \<in> holds ph"
  by (cases "(ph, AGive m)" rule: after.cases) (auto split: if_splits)

definition phases_inv :: "pool \<Rightarrow> phase list \<Rightarrow> bool" where
  "phases_inv c phs \<longleftrightarrow> list_all2 conforms (pool_tasks c) phs \<and>
     (\<forall>m i. pool_holder c m = Some i \<longleftrightarrow> i < length phs \<and> m \<in> holds (phs ! i))"

lemma phases_exclusive:
  assumes "phases_inv c phs" "i < length phs" "j < length phs" "m \<in> holds (phs ! i)" "m \<in> holds (phs ! j)"
  shows "i = j"
proof -
  have "pool_holder c m = Some i" "pool_holder c m = Some j" using assms by (auto simp: phases_inv_def)
  then show ?thesis by simp
qed

lemma holder_effect:
  "pool_holder (act_effect i a c) =
     (case a of ATake m \<Rightarrow> (pool_holder c)(m := Some i) | AGive m \<Rightarrow> (pool_holder c)(m := None) | _ \<Rightarrow> pool_holder c)"
  by (cases a) simp_all

lemma phases_step:
  assumes inv: "phases_inv c phs" and i: "i < length (pool_tasks c)"
    and a: "next_act e (pool_shadow c) (pool_tasks c ! i) = Some (a, k)" "act_ready a c"
    and c': "c' = (act_effect i a c)\<lparr>pool_tasks := (pool_tasks c)[i := k], pool_events := h\<rparr>"
  shows "\<exists>ph'. after (phs ! i) a = Some ph' \<and> phases_inv c' (phs[i := ph'])"
proof -
  have len: "length phs = length (pool_tasks c)" and conf: "conforms (pool_tasks c ! i) (phs ! i)"
    using inv i by (auto simp: phases_inv_def list_all2_conv_all_nth)
  from conforms_next [OF conf a(1)] obtain ph' where ph': "after (phs ! i) a = Some ph'" "conforms k ph'" by blast
  have "list_all2 conforms (pool_tasks c') (phs[i := ph'])"
    using inv ph'(2) unfolding c' by (simp add: phases_inv_def list_all2_update_cong)
  moreover have "pool_holder c' m = Some j \<longleftrightarrow> j < length phs \<and> m \<in> holds (phs[i := ph'] ! j)" for m j
  proof -
    have h: "pool_holder c m = Some j \<longleftrightarrow> j < length phs \<and> m \<in> holds (phs ! j)" for m j
      using inv by (simp add: phases_inv_def)
    have nth: "phs[i := ph'] ! j = (if j = i then ph' else phs ! j)" using i len by simp
    show ?thesis
    proof (cases a)
      case (ATake m')
      then show ?thesis
        unfolding c' nth using after_holds [OF ph'(1)] a(2) h [of m j] i len by (auto simp: holder_effect)
    next
      case (AGive m')
      then have "pool_holder c m' = Some i" using after_give ph'(1) h i len by simp
      moreover have "holds ph' = holds (phs ! i) - {m'}" using after_holds [OF ph'(1)] AGive by simp
      ultimately show ?thesis
        unfolding c' nth using AGive h [of m j] i len by (cases "m = m'"; cases "j = i") (simp_all add: holder_effect)
    qed (unfold c' nth, use after_holds [OF ph'(1)] h [of m j] i len in \<open>simp_all add: holder_effect\<close>)
  qed
  ultimately show ?thesis using ph'(1) by (auto simp: phases_inv_def)
qed

lemma phases_start: "phases_inv (tasks_start jss sh) (replicate (length jss) Idle)"
  by (auto simp: phases_inv_def tasks_start_def pool_start_def list_all2_conv_all_nth conforms_task)

text \<open>An invariant of pools and phases is proved act by act.\<close>

lemma phases_run:
  assumes start: "I (tasks_start jss sh) (replicate (length jss) Idle)"
    and step: "\<And>c phs i e a k ph' c'. I c phs \<Longrightarrow> phases_inv c phs \<Longrightarrow> (i, e) \<in> set sched \<Longrightarrow> i < length phs \<Longrightarrow>
      next_act e (pool_shadow c) (pool_tasks c ! i) = Some (a, k) \<Longrightarrow> after (phs ! i) a = Some ph' \<Longrightarrow>
      phases_inv c' (phs[i := ph']) \<Longrightarrow>
      c' = (act_effect i a c)\<lparr>pool_tasks := (pool_tasks c)[i := k], pool_events := pool_events c @ [(i, a)]\<rparr> \<Longrightarrow>
      I c' (phs[i := ph'])"
  shows "\<exists>phs. phases_inv (run_tasks sched (tasks_start jss sh)) phs \<and> I (run_tasks sched (tasks_start jss sh)) phs"
proof -
  have "\<exists>phs. phases_inv (tasks_start jss sh) phs \<and> I (tasks_start jss sh) phs"
    using start phases_start by blast
  then show ?thesis
  proof (induction rule: run_tasks_induct)
    case (step i e c)
    then obtain phs where phs: "phases_inv c phs" "I c phs" by blast
    show ?case
    proof (cases rule: task_step_cases [of i e c])
      case wait
      then show ?thesis using phs by auto
    next
      case (act a k)
      from phases_step [OF phs(1) act(1-4)] obtain ph' where
        "after (phs ! i) a = Some ph'" "phases_inv (task_step (i, e) c) (phs[i := ph'])" by blast
      moreover have "i < length phs" using phs(1) act(1) by (auto simp: phases_inv_def dest: list_all2_lengthD)
      ultimately show ?thesis
        using assms(2) [OF phs(2,1) step(2) _ act(2) _ _ act(4)] by blast
    qed
  qed
qed

section \<open>No deadlock\<close>

text \<open>A task that holds the bus never waits; one that holds the expander's mutex waits for the bus at most.\<close>

lemma bus_holder_ready:
  assumes "conforms p ph" "BusMutex \<in> holds ph"
  shows "\<exists>a k. next_act e sh p = Some (a, k) \<and> act_ready a c"
proof (cases p)
  case (Take m k)
  then show ?thesis using assms by (cases "(ph, ATake m)" rule: after.cases) auto
qed (use assms in auto)

lemma io_holder_ready:
  assumes "conforms p ph" "IoMutex \<in> holds ph" "pool_holder c BusMutex = None"
  shows "\<exists>a k. next_act e sh p = Some (a, k) \<and> act_ready a c"
proof (cases p)
  case (Take m k)
  then show ?thesis using assms by (cases "(ph, ATake m)" rule: after.cases) auto
qed (use assms in auto)

lemma some_task_moves:
  assumes inv: "phases_inv c phs" and "\<not> all_done c"
  shows "\<exists>i. \<forall>e. task_step (i, e) c \<noteq> c"
proof -
  have len: "length phs = length (pool_tasks c)" using inv by (auto simp: phases_inv_def dest: list_all2_lengthD)
  have conf: "i < length phs \<Longrightarrow> conforms (pool_tasks c ! i) (phs ! i)" for i
    using inv by (simp add: phases_inv_def list_all2_conv_all_nth)
  have hold: "pool_holder c m = Some i \<Longrightarrow> i < length phs \<and> m \<in> holds (phs ! i)" for m i
    using inv by (simp add: phases_inv_def)
  consider (bus) i where "pool_holder c BusMutex = Some i"
    | (io) i where "pool_holder c BusMutex = None" "pool_holder c IoMutex = Some i"
    | (free) "pool_holder c BusMutex = None" "pool_holder c IoMutex = None"
    by (cases "pool_holder c BusMutex"; cases "pool_holder c IoMutex") auto
  then obtain i where i: "i < length phs"
    "\<forall>e. \<exists>a k. next_act e (pool_shadow c) (pool_tasks c ! i) = Some (a, k) \<and> act_ready a c"
  proof cases
    case bus
    then show ?thesis using that hold conf bus_holder_ready by blast
  next
    case io
    then show ?thesis using that hold conf io_holder_ready by blast
  next
    case free
    from assms(2) obtain i where i: "i < length phs" "pool_tasks c ! i \<noteq> Halt"
      by (auto simp: all_done_def in_set_conv_nth len)
    have "pool_holder c m = None" for m using free by (cases m) auto
    then have "act_ready a c" for a by (cases a) auto
    moreover have "\<exists>a k. next_act e (pool_shadow c) (pool_tasks c ! i) = Some (a, k)" for e
      using i(2) next_act_None [of e "pool_shadow c" "pool_tasks c ! i"] by fastforce
    ultimately show ?thesis using that i(1) by blast
  qed
  then show ?thesis using task_step_moves len by fastforce
qed

lemma tasks_progress:
  "all_done (run_tasks sched (tasks_start jss sh)) \<or>
   (\<exists>i. \<forall>e. task_step (i, e) (run_tasks sched (tasks_start jss sh)) \<noteq> run_tasks sched (tasks_start jss sh))"
  using phases_run [of "\<lambda>_ _. True" jss sh sched] some_task_moves by blast

section \<open>No update of the register is lost\<close>

fun pin_requests :: "act \<Rightarrow> (nat \<times> int) list" where
  "pin_requests (AStore p l x) = [(p, l)]"
| "pin_requests _ = []"

text \<open>The values the register takes, and the bytes the expander gets for them.\<close>

fun pin_history :: "byte \<Rightarrow> (nat \<times> int) list \<Rightarrow> byte list" where
  "pin_history sh [] = []"
| "pin_history sh ((p, l) # us) = set_pin p l sh # pin_history (set_pin p l sh) us"

definition set_pins :: "(nat \<times> int) list \<Rightarrow> byte \<Rightarrow> byte" where
  "set_pins us sh = fold (\<lambda>(p, l). set_pin p l) us sh"

lemma set_pins_simps [simp]: "set_pins [] sh = sh" "set_pins ((p, l) # us) sh = set_pins us (set_pin p l sh)"
  "set_pins (us @ vs) sh = set_pins vs (set_pins us sh)"
  by (simp_all add: set_pins_def)

lemma pin_history_append [simp]: "pin_history sh (us @ vs) = pin_history sh us @ pin_history (set_pins us sh) vs"
  by (induction sh us rule: pin_history.induct) simp_all

fun phase_value :: "byte \<Rightarrow> phase \<Rightarrow> bool" where
  "phase_value sh (Loaded x) \<longleftrightarrow> x = sh"
| "phase_value sh (Out d) \<longleftrightarrow> d = sh OR EXPANDER_INIT_PINS_MASK"
| "phase_value sh (ExpBus d) \<longleftrightarrow> d = sh OR EXPANDER_INIT_PINS_MASK"
| "phase_value sh _ \<longleftrightarrow> True"

text \<open>The byte a task has yet to write for the value it has stored.\<close>

fun unsent :: "byte \<Rightarrow> phase \<Rightarrow> byte list" where
  "unsent sh Stored = [sh OR EXPANDER_INIT_PINS_MASK]"
| "unsent sh (Out d) = [sh OR EXPANDER_INIT_PINS_MASK]"
| "unsent sh (ExpBus d) = [sh OR EXPANDER_INIT_PINS_MASK]"
| "unsent sh _ = []"

lemma io_free: "IoMutex \<notin> holds ph \<Longrightarrow> phase_value sh ph \<and> unsent sh ph = []"
  by (cases ph) auto

definition shadow_after :: "act \<Rightarrow> byte \<Rightarrow> byte" where
  "shadow_after a sh = set_pins (pin_requests a) sh"

fun_cases after_SomeE: "after ph a = Some ph'"

lemma after_value:
  assumes "after ph a = Some ph'" "phase_value sh ph" "\<forall>x. a = ALoad x \<longrightarrow> x = sh"
  shows "phase_value (shadow_after a sh) ph'"
  using assms by (elim after_SomeE) (simp_all add: shadow_after_def split: if_splits)

lemma after_writes:
  assumes "after ph a = Some ph'" "phase_value sh ph"
  shows "pcf_writes EXPANDER_ADDR (act_calls a) @ unsent (shadow_after a sh) ph' =
    unsent sh ph @ map (\<lambda>x. x OR EXPANDER_INIT_PINS_MASK) (pin_history sh (pin_requests a))"
  using assms by (elim after_SomeE) (simp_all add: shadow_after_def push_bit_eq_mult split: if_splits)

lemma after_owner:
  assumes "after ph a = Some ph'"
  shows "pin_requests a \<noteq> [] \<or> pcf_writes EXPANDER_ADDR (act_calls a) \<noteq> [] \<Longrightarrow>
    IoMutex \<in> holds ph \<and> IoMutex \<in> holds ph'"
  using assms by (elim after_SomeE) (simp_all split: if_splits)

definition expander_inv :: "byte \<Rightarrow> pool \<Rightarrow> phase list \<Rightarrow> bool" where
  "expander_inv sh0 c phs \<longleftrightarrow> (\<forall>ph\<in>set phs. phase_value (pool_shadow c) ph) \<and>
     pool_shadow c = set_pins (contribution pin_requests (pool_events c)) sh0 \<and>
     pcf_writes EXPANDER_ADDR (pool_calls c) @ concat (map (unsent (pool_shadow c)) phs) =
       map (\<lambda>x. x OR EXPANDER_INIT_PINS_MASK) (pin_history sh0 (contribution pin_requests (pool_events c)))"

text \<open>A list of contributions only one task can make.\<close>

lemma concat_only:
  assumes "i < length xs" "\<And>j. j < length xs \<Longrightarrow> j \<noteq> i \<Longrightarrow> f (xs ! j) = []"
  shows "concat (map f (xs[i := y])) = f y"
proof -
  have "concat (map f (take i xs)) = []" "concat (map f (drop (Suc i) xs)) = []"
    using assms by (auto simp: in_set_conv_nth)
  then show ?thesis
    unfolding upd_conv_take_nth_drop [OF assms(1)]
    by (simp only: map_append list.map concat_append concat.simps append_Nil append_Nil2)
qed

lemma concat_same:
  assumes "i < length xs" "f y = f (xs ! i)"
  shows "concat (map f (xs[i := y])) = concat (map f xs)"
  using assms by (metis list_update_id map_update)

lemma next_load: "next_act e sh p = Some (ALoad x, k) \<Longrightarrow> x = sh"
  by (cases p) auto

lemma shadow_effect:
  assumes "after ph a = Some ph'" "phase_value (pool_shadow c) ph"
  shows "pool_shadow (act_effect i a c) = shadow_after a (pool_shadow c)"
  using assms by (elim after_SomeE) (simp_all add: shadow_after_def split: if_splits)

lemma pool_calls_eq: "pool_calls c = contribution act_calls (pool_events c)"
  by (simp add: pool_calls_def contribution_def)

lemma other_io_free:
  assumes "phases_inv c phs" "i < length phs" "m \<in> holds (phs ! i)" "j < length phs" "j \<noteq> i"
  shows "m \<notin> holds (phs ! j)"
  using phases_exclusive [OF assms(1,2,4,3)] assms(5) by auto

lemma expander_step:
  assumes inv: "expander_inv sh0 c phs" "phases_inv c phs" and i: "i < length phs"
    and a: "next_act e (pool_shadow c) (pool_tasks c ! i) = Some (a, k)" "after (phs ! i) a = Some ph'"
    and c': "c' = (act_effect i a c)\<lparr>pool_tasks := (pool_tasks c)[i := k], pool_events := pool_events c @ [(i, a)]\<rparr>"
  shows "expander_inv sh0 c' (phs[i := ph'])"
proof -
  let ?sh = "pool_shadow c" and ?us = "contribution pin_requests (pool_events c)"
  let ?E = "map (\<lambda>x :: byte. x OR EXPANDER_INIT_PINS_MASK)"
  have old: "phase_value ?sh ph" if "ph \<in> set phs" for ph
    using inv(1) that unfolding expander_inv_def by blast
  have sh: "?sh = set_pins ?us sh0" using inv(1) unfolding expander_inv_def by blast
  have sent: "pcf_writes EXPANDER_ADDR (pool_calls c) @ concat (map (unsent ?sh) phs) = ?E (pin_history sh0 ?us)"
    using inv(1) unfolding expander_inv_def by blast
  have val: "phase_value ?sh (phs ! i)" using old i by simp
  have sh': "pool_shadow c' = shadow_after a ?sh" unfolding c' using shadow_effect [OF a(2) val] by simp
  have us': "contribution pin_requests (pool_events c') = ?us @ pin_requests a"
    and calls': "pool_calls c' = pool_calls c @ act_calls a" by (simp_all add: c' pool_calls_eq)
  have new: "phase_value (shadow_after a ?sh) ph'"
    by (rule after_value [OF a(2) val]) (use next_load a(1) in blast)
  note writes = after_writes [OF a(2) val]
  have others: "phase_value (shadow_after a ?sh) (phs ! j) \<and>
      (pin_requests a \<noteq> [] \<or> pcf_writes EXPANDER_ADDR (act_calls a) \<noteq> [] \<longrightarrow> (\<forall>sh. unsent sh (phs ! j) = []))"
    if "j < length phs" "j \<noteq> i" for j
  proof (cases "pin_requests a \<noteq> [] \<or> pcf_writes EXPANDER_ADDR (act_calls a) \<noteq> []")
    case True
    then have "IoMutex \<notin> holds (phs ! j)"
      using after_owner [OF a(2)] other_io_free [OF inv(2) i _ that] by blast
    then show ?thesis using io_free by blast
  next
    case False
    then show ?thesis using old that by (simp add: shadow_after_def)
  qed
  have "pcf_writes EXPANDER_ADDR (act_calls a) @ concat (map (unsent (shadow_after a ?sh)) (phs[i := ph'])) =
    concat (map (unsent ?sh) phs) @ ?E (pin_history ?sh (pin_requests a))"
  proof (cases "pin_requests a \<noteq> [] \<or> pcf_writes EXPANDER_ADDR (act_calls a) \<noteq> []")
    case True
    then have "concat (map (unsent (shadow_after a ?sh)) (phs[i := ph'])) = unsent (shadow_after a ?sh) ph'"
      using others i by (intro concat_only) auto
    moreover have "concat (map (unsent ?sh) (phs[i := phs ! i])) = unsent ?sh (phs ! i)"
      using others i True by (intro concat_only) auto
    ultimately show ?thesis using writes by simp
  next
    case False
    then show ?thesis
      using writes concat_same [OF i, of "unsent ?sh" ph'] by (simp add: shadow_after_def)
  qed
  with sent have "pcf_writes EXPANDER_ADDR (pool_calls c') @ concat (map (unsent (pool_shadow c')) (phs[i := ph'])) =
      ?E (pin_history sh0 (?us @ pin_requests a))"
    unfolding sh' calls' pcf_writes_append append.assoc pin_history_append map_append sh [symmetric]
    by (metis append.assoc)
  moreover have "\<forall>ph\<in>set (phs[i := ph']). phase_value (pool_shadow c') ph"
    using others new i by (auto simp: sh' in_set_conv_nth nth_list_update)
  moreover have "pool_shadow c' = set_pins (?us @ pin_requests a) sh0"
    unfolding sh' shadow_after_def set_pins_simps sh [symmetric] ..
  ultimately show ?thesis unfolding expander_inv_def us' by blast
qed

lemma expander_run:
  "\<exists>phs. phases_inv (run_tasks sched (tasks_start jss sh)) phs \<and> expander_inv sh (run_tasks sched (tasks_start jss sh)) phs"
proof (rule phases_run)
  show "expander_inv sh (tasks_start jss sh) (replicate (length jss) Idle)"
    by (auto simp: expander_inv_def tasks_start_def pool_start_def pool_calls_eq)
qed (rule expander_step)

text \<open>Once nobody holds the expander's mutex, all stored values are on the expander, in order.\<close>

lemma expander_settled:
  assumes "pool_holder (run_tasks sched (tasks_start jss sh)) IoMutex = None"
  defines "c \<equiv> run_tasks sched (tasks_start jss sh)"
  defines "us \<equiv> contribution pin_requests (pool_events c)"
  shows "pool_shadow c = set_pins us sh"
    "pcf_writes EXPANDER_ADDR (pool_calls c) = map (\<lambda>x. x OR EXPANDER_INIT_PINS_MASK) (pin_history sh us)"
proof -
  from expander_run [of sched jss sh] obtain phs where
    p: "phases_inv c phs" "expander_inv sh c phs" unfolding c_def by blast
  have "IoMutex \<notin> holds (phs ! i)" if "i < length phs" for i
    using p(1) assms(1) that unfolding phases_inv_def c_def by (metis option.distinct(1))
  then have "\<forall>ph\<in>set phs. unsent (pool_shadow c) ph = []" using io_free by (auto simp: in_set_conv_nth)
  then have "concat (map (unsent (pool_shadow c)) phs) = []" by simp
  with p(2) show "pool_shadow c = set_pins us sh"
    "pcf_writes EXPANDER_ADDR (pool_calls c) = map (\<lambda>x. x OR EXPANDER_INIT_PINS_MASK) (pin_history sh us)"
    unfolding expander_inv_def us_def by simp_all
qed

lemma done_free:
  assumes "phases_inv c phs" "all_done c"
  shows "pool_holder c m = None"
proof (rule ccontr)
  assume "pool_holder c m \<noteq> None"
  then obtain i where i: "i < length phs" "m \<in> holds (phs ! i)" using assms(1) by (auto simp: phases_inv_def)
  then have "conforms (pool_tasks c ! i) (phs ! i)" "pool_tasks c ! i = Halt"
    using assms by (auto simp: phases_inv_def list_all2_conv_all_nth all_done_def)
  with i show False by simp
qed

end
