(* ===== verification/Shared_Bus.thy ===== *)
theory Shared_Bus
  imports Bus_Protocol
begin

text \<open>
  The outcome of concurrent tasks: it is the one of a sequential run of their requests, in
  an order that keeps each task's own. For the expander the requests are calls of
  \<open>io_expander_set_level\<close>; for the display they are nibbles, not bytes.
\<close>

section \<open>The requests of a task\<close>

fun job_pins :: "job \<Rightarrow> (nat \<times> int) list" where
  "job_pins (SetLevel p l) = [(p, l)]"
| "job_pins _ = []"

fun job_sections :: "job \<Rightarrow> (byte \<times> byte) list" where
  "job_sections (LcdCmd v) = lcd_sections v 0"
| "job_sections (LcdPrint str) = concat (map (\<lambda>b. lcd_sections b LCD_RS_BIT) (bytes_of_string str))"
| "job_sections _ = []"

definition task_pins :: "job list \<Rightarrow> (nat \<times> int) list" where
  "task_pins js = concat (map job_pins js)"

definition task_sections :: "job list \<Rightarrow> (byte \<times> byte) list" where
  "task_sections js = concat (map job_sections js)"

lemma peels_append [simp]: "peels xs P (xs @ ys) = P ys"
  by (auto simp: peels_def)

text \<open>Pins: whatever the calls return.\<close>

lemma emits_nibble_quiet:
  assumes "\<And>err. emits pin_requests ok (k err) us"
  shows "emits pin_requests ok (nibble_prog n m k) us"
  using assms by (simp add: nibble_prog_def Let_def)

lemma emits_send_byte_quiet:
  assumes "\<And>err. emits pin_requests ok (k err) us"
  shows "emits pin_requests ok (send_byte_prog v m k) us"
  unfolding send_byte_prog_def using assms by (auto intro!: emits_nibble_quiet)

lemma emits_send_data_quiet:
  assumes "\<And>err. emits pin_requests ok (k err) us"
  shows "emits pin_requests ok (send_data_prog bs k) us"
  using assms by (induction bs) (auto intro!: emits_send_byte_quiet)

lemma emits_calls:
  "(\<forall>c\<in>set cs. \<forall>e. g (ACall c e) = []) \<Longrightarrow> emits g ok k us \<Longrightarrow> emits g ok (calls_prog cs k) us"
  by (induction cs) (simp_all add: calls_prog_def)

lemma emits_pins_job:
  assumes "emits pin_requests ok k us"
  shows "emits pin_requests ok (job_prog j k) (job_pins j @ us)"
  using assms
  by (cases j) (auto intro!: emits_send_byte_quiet emits_send_data_quiet emits_calls
      simp: set_level_prog_def commit_prog_def)

lemma emits_pins: "emits pin_requests ok (task_prog js) (task_pins js)"
  by (induction js) (simp_all add: task_prog_def task_pins_def emits_pins_job)

section \<open>The expander\<close>

lemma set_levels_run:
  assumes "mutexes_ready s"
  shows "port_shadow (exec (for_each us (\<lambda>(p, l). do { io_expander_set_level p l; ret () })) s) = set_pins us (port_shadow s) \<and>
    pcf_writes EXPANDER_ADDR (trace (exec (for_each us (\<lambda>(p, l). do { io_expander_set_level p l; ret () })) s)) =
      pcf_writes EXPANDER_ADDR (trace s) @ map (\<lambda>x. x OR EXPANDER_INIT_PINS_MASK) (pin_history (port_shadow s) us)"
  using assms
proof (induction us arbitrary: s)
  case Nil
  then show ?case by simp
next
  case (Cons u us)
  obtain p l where u: "u = (p, l)" by (cases u)
  let ?s = "exec (io_expander_set_level p l) s"
  have s: "port_shadow ?s = set_pin p l (port_shadow s)"
    "pcf_writes EXPANDER_ADDR (trace ?s) = pcf_writes EXPANDER_ADDR (trace s) @ [set_pin p l (port_shadow s) OR 0xE0]"
    "mutexes_ready ?s"
    using Cons.prems by (simp_all add: exec_set_level mutexes_ready_def)
  from Cons.IH [OF s(3)] show ?case
    unfolding s(1,2) by (simp add: u case_prod_beta)
qed

text \<open>All tasks done: a sequential run of the model's function from a state with the same register.\<close>

lemma pins_linear:
  assumes "all_done (run_tasks sched (tasks_start jss (port_shadow s)))" "mutexes_ready s"
  defines "c \<equiv> run_tasks sched (tasks_start jss (port_shadow s))"
  shows "\<exists>us. interleaves us (map task_pins jss) \<and>
    (let s' = exec (for_each us (\<lambda>(p, l). do { io_expander_set_level p l; ret () })) s
     in pool_shadow c = port_shadow s' \<and>
        pcf_writes EXPANDER_ADDR (trace s @ pool_calls c) = pcf_writes EXPANDER_ADDR (trace s'))"
proof -
  have "interleaves (contribution pin_requests (pool_events c)) (map task_pins jss)"
    unfolding c_def tasks_start_def
    by (rule emits_run [where ok = "\<lambda>_. True"])
      (use assms(1) emits_pins in \<open>auto simp: list_all2_conv_all_nth tasks_start_def\<close>)
  moreover from expander_run [of sched jss "port_shadow s"] obtain phs where "phases_inv c phs"
    unfolding c_def by blast
  from done_free [OF this] assms(1) have "pool_holder c IoMutex = None" by (simp add: c_def)
  note settled = expander_settled [OF this [unfolded c_def], folded c_def]
  ultimately show ?thesis
    using set_levels_run [OF assms(2), of "contribution pin_requests (pool_events c)"] settled
    by (auto simp: Let_def)
qed

section \<open>The display\<close>

text \<open>A nibble is recognised by its byte with the enable line high.\<close>

definition section_of :: "byte \<Rightarrow> byte \<times> byte" where
  "section_of d = (d AND 0xF0, d AND 1)"

definition lcd_pulses :: "byte list \<Rightarrow> (byte \<times> byte) list" where
  "lcd_pulses ds = map section_of (filter (\<lambda>d. bit d 2) ds)"

definition act_pulses :: "act \<Rightarrow> (byte \<times> byte) list" where
  "act_pulses a = lcd_pulses (pcf_writes LCD_I2C_ADDR (act_calls a))"

lemma lcd_pulses_simps [simp]: "lcd_pulses [] = []" "lcd_pulses (ds @ es) = lcd_pulses ds @ lcd_pulses es"
  by (simp_all add: lcd_pulses_def)

lemma nibble_section:
  assumes "m \<in> {0, 1}"
  shows "lcd_pulses [nibble_data n m] = []" "lcd_pulses [nibble_data n m OR 4] = [(n AND 0xF0, m)]"
    "lcd_pulses [nibble_data n m AND NOT 4] = []"
proof -
  have low: "\<not> bit (nibble_data n m) 2" "bit (nibble_data n m OR 4) 2" "\<not> bit (nibble_data n m AND NOT 4) 2"
    using assms by (auto simp: nibble_data_def bit_or_iff bit_and_iff bit_not_iff bit_byte_masks)
  have "(nibble_data n m OR 4) AND 0xF0 = n AND 0xF0"
    using assms by (intro bit_word_eqI) (auto simp: nibble_data_def bit_or_iff bit_and_iff bit_byte_masks dest!: byte_bits)
  moreover have "(nibble_data n m OR 4) AND 1 = m"
    using assms by (intro bit_word_eqI) (auto simp: nibble_data_def bit_or_iff bit_and_iff bit_byte_masks bit_1_iff dest!: byte_bits)
  ultimately show "lcd_pulses [nibble_data n m] = []" "lcd_pulses [nibble_data n m OR 4] = [(n AND 0xF0, m)]"
    "lcd_pulses [nibble_data n m AND NOT 4] = []"
    using low by (simp_all add: lcd_pulses_def section_of_def)
qed

abbreviation (input) no_error :: "esp_err_t \<Rightarrow> bool" where "no_error \<equiv> \<lambda>e. e = ESP_OK"

lemma act_pulses_simps [simp]:
  "act_pulses (ATake m) = []" "act_pulses (AGive m) = []" "act_pulses (ALoad x) = []"
  "act_pulses (AStore p l x) = []" "act_pulses (ACall (lcd_write d) e) = lcd_pulses [d]"
  "act_pulses (ACall (expander_write d) e) = []" "act_pulses (ACall (Rtos r) e) = []"
  by (simp_all add: act_pulses_def push_bit_eq_mult)

lemma emits_nibble:
  assumes "emits act_pulses no_error (k ESP_OK) us" "m \<in> {0, 1}"
  shows "emits act_pulses no_error (nibble_prog n m k) ((n AND 0xF0, m) # us)"
  using assms(1) nibble_section [OF assms(2), of n]
  by (simp add: nibble_prog_def Let_def nibble_data_def)

lemma emits_send_byte:
  assumes "emits act_pulses no_error (k ESP_OK) us" "m \<in> {0, 1}"
  shows "emits act_pulses no_error (send_byte_prog v m k) (lcd_sections v m @ us)"
  using assms emits_nibble [of "\<lambda>err. if err \<noteq> ESP_OK then k err else nibble_prog (push_bit 4 v AND 0xF0) m k"
      "(push_bit 4 v AND 0xF0, m) # us" m "v AND 0xF0"]
    emits_nibble [of k us m "push_bit 4 v AND 0xF0"]
  by (simp add: send_byte_prog_def lcd_sections_def and.assoc)

lemma emits_send_data:
  assumes "emits act_pulses no_error (k ESP_OK) us"
  shows "emits act_pulses no_error (send_data_prog bs k) (concat (map (\<lambda>b. lcd_sections b LCD_RS_BIT) bs) @ us)"
  using assms by (induction bs) (simp_all add: emits_send_byte)

lemma emits_sections_job:
  assumes "emits act_pulses no_error k us"
  shows "emits act_pulses no_error (job_prog j k) (job_sections j @ us)"
proof (cases j)
  case (SetLevel p l)
  then show ?thesis using assms by (simp add: set_level_prog_def commit_prog_def)
qed (use assms in \<open>auto intro!: emits_send_byte emits_send_data emits_calls
    simp: sensor_calls_def act_pulses_def\<close>)

lemma emits_sections: "emits act_pulses no_error (task_prog js) (task_sections js)"
  by (induction js) (simp_all add: task_prog_def task_sections_def emits_sections_job)

text \<open>Whole nibbles: all that is on the bus, and the part of one that a task is sending.\<close>

fun sending :: "phase \<Rightarrow> byte list" where
  "sending (Nibble (Some ds)) = ds"
| "sending _ = []"

definition display_inv :: "pool \<Rightarrow> phase list \<Rightarrow> bool" where
  "display_inv c phs \<longleftrightarrow> Nibble None \<notin> set phs \<and>
     (\<exists>ws. (\<forall>w\<in>set ws. snd w \<in> {0, 1}) \<and>
       pcf_writes LCD_I2C_ADDR (pool_calls c) =
         concat (map (\<lambda>(n, m). nibble_bytes n m) ws) @ concat (map sending phs))"

lemma after_display:
  assumes "after ph a = Some ph'" "act_ok no_error a" "ph \<noteq> Nibble None"
  shows "ph' \<noteq> Nibble None \<and>
    (pcf_writes LCD_I2C_ADDR (act_calls a) = [] \<and> sending ph' = sending ph \<or>
     BusMutex \<in> holds ph \<and> sending ph' = sending ph @ pcf_writes LCD_I2C_ADDR (act_calls a) \<or>
     BusMutex \<in> holds ph \<and> pcf_writes LCD_I2C_ADDR (act_calls a) = [] \<and> sending ph' = [] \<and> whole_nibble (sending ph))"
  using assms by (elim after_SomeE) (auto simp: push_bit_eq_mult split: if_splits option.splits)

lemma display_step:
  assumes inv: "display_inv c phs" "phases_inv c phs" and i: "i < length phs" and ok: "act_ok no_error a"
    and a: "after (phs ! i) a = Some ph'"
    and c': "c' = (act_effect i a c)\<lparr>pool_tasks := (pool_tasks c)[i := k], pool_events := pool_events c @ [(i, a)]\<rparr>"
  shows "display_inv c' (phs[i := ph'])"
proof -
  let ?w = "pcf_writes LCD_I2C_ADDR (act_calls a)"
  from inv(1) obtain ws where ws: "\<forall>w\<in>set ws. snd w \<in> {0, 1}" "pcf_writes LCD_I2C_ADDR (pool_calls c) =
      concat (map (\<lambda>(n, m). nibble_bytes n m) ws) @ concat (map sending phs)" and none: "Nibble None \<notin> set phs"
    unfolding display_inv_def by blast
  have calls': "pcf_writes LCD_I2C_ADDR (pool_calls c') = pcf_writes LCD_I2C_ADDR (pool_calls c) @ ?w"
    by (simp add: c' pool_calls_eq)
  have "phs ! i \<noteq> Nibble None" using none i by (metis nth_mem)
  note cases = after_display [OF a ok this]
  have none': "Nibble None \<notin> set (phs[i := ph'])"
    using none cases set_update_subset_insert [of phs i ph'] by blast
  have alone: "concat (map sending (phs[i := q])) = sending q" if "BusMutex \<in> holds (phs ! i)" for q
  proof (rule concat_only [OF i])
    fix j assume "j < length phs" "j \<noteq> i"
    then have "BusMutex \<notin> holds (phs ! j)" using other_io_free [OF inv(2) i that] by blast
    then show "sending (phs ! j) = []" by (cases "phs ! j" rule: sending.cases) auto
  qed
  have old: "concat (map sending phs) = sending (phs ! i)" if "BusMutex \<in> holds (phs ! i)"
    using alone [OF that, of "phs ! i"] by simp
  from cases consider "?w = []" "sending ph' = sending (phs ! i)"
    | "BusMutex \<in> holds (phs ! i)" "sending ph' = sending (phs ! i) @ ?w"
    | "BusMutex \<in> holds (phs ! i)" "?w = []" "sending ph' = []" "whole_nibble (sending (phs ! i))" by blast
  then have "\<exists>ws'. (\<forall>w\<in>set ws'. snd w \<in> {0, 1}) \<and> pcf_writes LCD_I2C_ADDR (pool_calls c') =
      concat (map (\<lambda>(n, m). nibble_bytes n m) ws') @ concat (map sending (phs[i := ph']))"
  proof cases
    case 1
    then show ?thesis using ws concat_same [OF i 1(2)] unfolding calls' by (intro exI [of _ ws]) simp
  next
    case 2
    then show ?thesis using ws old alone unfolding calls' by (intro exI [of _ ws]) simp
  next
    case 3
    from 3(4) obtain n m where "m \<in> {0, 1}" "sending (phs ! i) = nibble_bytes n m" by (auto simp: whole_nibble_def)
    then show ?thesis
      using 3 ws old alone unfolding calls' by (intro exI [of _ "ws @ [(n, m)]"]) simp
  qed
  with none' show ?thesis unfolding display_inv_def by blast
qed

lemma display_run:
  assumes "\<forall>x\<in>set sched. snd x = ESP_OK"
  shows "\<exists>phs. phases_inv (run_tasks sched (tasks_start jss sh)) phs \<and> display_inv (run_tasks sched (tasks_start jss sh)) phs"
proof (rule phases_run)
  show "display_inv (tasks_start jss sh) (replicate (length jss) Idle)"
    by (auto simp: display_inv_def tasks_start_def pool_start_def pool_calls_eq intro: exI [of _ "[]"])
next
  fix c phs i e a k ph' c'
  assume a: "display_inv c phs" "phases_inv c phs" "(i, e) \<in> set sched" "i < length phs"
    "next_act e (pool_shadow c) (pool_tasks c ! i) = Some (a, k)" "after (phs ! i) a = Some ph'"
    "c' = (act_effect i a c)\<lparr>pool_tasks := (pool_tasks c)[i := k], pool_events := pool_events c @ [(i, a)]\<rparr>"
  have "act_ok no_error a" using a(3,5) assms by (cases "pool_tasks c ! i") auto
  then show "display_inv c' (phs[i := ph'])" by (rule display_step [OF a(1,2,4) _ a(6,7)])
qed

end
