(* ===== verification/Shared_Display.thy ===== *)
theory Shared_Display
  imports Shared_Bus
begin

text \<open>
  What concurrent tasks put on the display when the bus works: a shuffle of the nibbles of
  each. One task that draws gets its own text through unharmed whatever the others do;
  two that draw can mix their bytes.
\<close>

section \<open>A shuffle of nibbles\<close>

lemma section_calls_writes:
  "pcf_writes LCD_I2C_ADDR (section_calls ws) = concat (map (\<lambda>(n, m). nibble_bytes n m) ws)"
  by (induction ws) (auto simp: section_calls_def nibble_writes nibble_bytes_def)

lemma nibble_bytes_high: "nibble_bytes (n AND 0xF0) m = nibble_bytes n m"
  by (simp add: nibble_bytes_def nibble_data_def and.assoc)

lemma pulses_of_nibbles:
  assumes "\<forall>w\<in>set ws. snd w \<in> {0, 1}"
  shows "lcd_pulses (concat (map (\<lambda>(n, m). nibble_bytes n m) ws)) = map (\<lambda>(n, m). (n AND 0xF0, m)) ws"
  using assms
proof (induction ws)
  case Nil
  then show ?case by simp
next
  case (Cons w ws)
  obtain n m where w: "w = (n, m)" by (cases w)
  have m: "m \<in> {0, 1}" using Cons.prems by (simp add: w)
  have split: "nibble_bytes n m = [nibble_data n m] @ [nibble_data n m OR 4] @ [nibble_data n m AND NOT 4]"
    by (simp add: nibble_bytes_def)
  have "lcd_pulses (nibble_bytes n m) = [(n AND 0xF0, m)]"
    unfolding split lcd_pulses_simps nibble_section [OF m] by simp
  then show ?case using Cons by (simp add: w)
qed

lemma pool_pulses: "lcd_pulses (pcf_writes LCD_I2C_ADDR (pool_calls c)) = contribution act_pulses (pool_events c)"
proof -
  have "lcd_pulses (pcf_writes LCD_I2C_ADDR (contribution act_calls h)) = contribution act_pulses h" for h
    by (induction h) (simp_all add: contribution_def act_pulses_def)
  then show ?thesis by (simp add: pool_calls_eq)
qed

lemma display_settled:
  assumes "\<forall>x\<in>set sched. snd x = ESP_OK" "all_done (run_tasks sched (tasks_start jss sh))"
  defines "c \<equiv> run_tasks sched (tasks_start jss sh)"
  shows "\<exists>ws. interleaves ws (map task_sections jss) \<and>
    pcf_writes LCD_I2C_ADDR (pool_calls c) = pcf_writes LCD_I2C_ADDR (section_calls ws)"
proof -
  from display_run [OF assms(1), of jss sh] obtain phs where
    p: "phases_inv c phs" "display_inv c phs" unfolding c_def by blast
  have "BusMutex \<notin> holds (phs ! i)" if "i < length phs" for i
    using done_free [OF p(1), of BusMutex] assms(2) p(1) that unfolding phases_inv_def c_def
    by (metis option.distinct(1))
  then have "BusMutex \<notin> holds ph" if "ph \<in> set phs" for ph using that by (auto simp: in_set_conv_nth)
  then have "sending ph = []" if "ph \<in> set phs" for ph using that by (cases ph rule: sending.cases) force+
  then have "concat (map sending phs) = []" by simp
  with p(2) obtain ws where ws: "\<forall>w\<in>set ws. snd w \<in> {0, 1}"
    "pcf_writes LCD_I2C_ADDR (pool_calls c) = concat (map (\<lambda>(n, m). nibble_bytes n m) ws)"
    unfolding display_inv_def by (metis append_Nil2)
  have "contribution act_pulses (pool_events c) = map (\<lambda>(n, m). (n AND 0xF0, m)) ws"
    unfolding pool_pulses [symmetric] ws(2) using pulses_of_nibbles [OF ws(1)] .
  moreover have "interleaves (contribution act_pulses (pool_events c)) (map task_sections jss)"
    unfolding c_def tasks_start_def
    by (rule emits_run [where ok = no_error])
      (use assms(1,2) emits_sections in \<open>auto simp: list_all2_conv_all_nth tasks_start_def\<close>)
  moreover have "concat (map (\<lambda>(n, m). nibble_bytes n m) (map (\<lambda>(n, m). (n AND 0xF0, m)) ws)) =
      concat (map (\<lambda>(n, m). nibble_bytes n m) ws)"
    by (induction ws) (auto simp: nibble_bytes_high)
  ultimately show ?thesis
    unfolding section_calls_writes ws(2) by metis
qed

section \<open>One task that draws\<close>

lemma interleaves_single:
  assumes "interleaves ws us" "i < length us" "\<And>j. j < length us \<Longrightarrow> j \<noteq> i \<Longrightarrow> us ! j = []"
  shows "ws = us ! i"
proof -
  from assms(1) obtain log where log: "map snd log = ws" "\<forall>x\<in>set log. fst x < length us"
    "\<forall>i<length us. map snd (filter (\<lambda>x. fst x = i) log) = us ! i" unfolding interleaves_def by blast
  have "fst x = i" if x: "x \<in> set log" for x
  proof (rule ccontr)
    assume "fst x \<noteq> i"
    then have "map snd (filter (\<lambda>y. fst y = fst x) log) = []" using assms(3) log(2,3) x by simp
    then show False using x by (auto simp: filter_empty_conv)
  qed
  then have "filter (\<lambda>x. fst x = i) log = log" by simp
  then show ?thesis using log(1,3) assms(2) by auto
qed

lemma byte_calls_sections: "byte_calls v m = section_calls (lcd_sections v m)"
  by (simp add: byte_calls_def section_calls_def lcd_sections_def)

lemma data_calls_sections: "data_calls bs = section_calls (concat (map (\<lambda>b. lcd_sections b 1) bs))"
  by (induction bs) (simp_all add: data_calls_def byte_calls_sections section_calls_def)

lemma job_writes:
  assumes "lcd_ready s" "mutexes_ready s"
  shows "pcf_writes LCD_I2C_ADDR (trace (exec (run_job j) s)) =
      pcf_writes LCD_I2C_ADDR (trace s) @ pcf_writes LCD_I2C_ADDR (section_calls (job_sections j)) \<and>
    lcd_ready (exec (run_job j) s)"
proof (cases j)
  case (SetLevel p l)
  then show ?thesis
    using assms by (simp add: exec_set_level case_prod_beta set_level_calls_def section_calls_def lcd_ready_def push_bit_eq_mult)
next
  case (ReadSensors d)
  have "trace (exec (env_sensors_read_all (Some d)) s) = trace s @ sensor_calls"
    "ext (exec (env_sensors_read_all (Some d)) s) = ext s"
    using sensors_view(1) [of d s] by (simp_all add: bus_view_def)
  moreover have "lcd_ready (exec (env_sensors_read_all (Some d)) s)"
    using assms sensors_view(2) [of d s] calculation(2) by (simp add: lcd_ready_def mutexes_ready_def)
  ultimately show ?thesis
    using ReadSensors by (simp add: case_prod_beta section_calls_def sensor_calls_def)
qed (use assms in \<open>simp_all add: run_lcd_cmd run_lcd_print byte_calls_sections data_calls_sections
    i2c_bus_pcf8574_read_byte_def section_calls_def\<close>)

lemma section_calls_append [simp]: "section_calls (ws @ vs) = section_calls ws @ section_calls vs"
  by (simp add: section_calls_def)

lemma jobs_writes:
  assumes "lcd_ready s" "mutexes_ready s"
  shows "pcf_writes LCD_I2C_ADDR (trace (exec (for_each js run_job) s)) =
    pcf_writes LCD_I2C_ADDR (trace s) @ pcf_writes LCD_I2C_ADDR (section_calls (task_sections js))"
  using assms
proof (induction js arbitrary: s)
  case Nil
  then show ?case by (simp add: task_sections_def section_calls_def)
next
  case (Cons j js)
  from Cons.IH [of "exec (run_job j) s"] job_writes [OF Cons.prems, of j] job_alone(2) [OF Cons.prems(2), of j]
  show ?case by (simp add: task_sections_def case_prod_beta)
qed

lemma sole_drawer:
  assumes "\<forall>x\<in>set sched. snd x = ESP_OK" "all_done (run_tasks sched (tasks_start jss sh))"
    and "i < length jss" "\<And>j. j < length jss \<Longrightarrow> j \<noteq> i \<Longrightarrow> task_sections (jss ! j) = []"
    and "lcd_ready s" "mutexes_ready s"
  shows "pcf_writes LCD_I2C_ADDR (trace s @ pool_calls (run_tasks sched (tasks_start jss sh))) =
    pcf_writes LCD_I2C_ADDR (trace (exec (for_each (jss ! i) run_job) s))"
proof -
  from display_settled [OF assms(1,2)] obtain ws where ws: "interleaves ws (map task_sections jss)"
    "pcf_writes LCD_I2C_ADDR (pool_calls (run_tasks sched (tasks_start jss sh))) = pcf_writes LCD_I2C_ADDR (section_calls ws)"
    by blast
  have "ws = task_sections (jss ! i)" using interleaves_single [OF ws(1), of i] assms(3,4) by simp
  then show ?thesis using ws(2) jobs_writes [OF assms(5,6), of "jss ! i"] by simp
qed

section \<open>Two tasks that draw\<close>

text \<open>A task that is not interrupted sends a nibble in seven steps.\<close>

definition nibble_events :: "nat \<Rightarrow> byte \<Rightarrow> (nat \<times> act) list" where
  "nibble_events i d = [(i, ATake BusMutex), (i, ACall (lcd_write d) ESP_OK), (i, ACall (lcd_write (d OR 4)) ESP_OK),
     (i, ACall (Rtos (DelayUs 1)) ESP_OK), (i, ACall (lcd_write (d AND NOT 4)) ESP_OK), (i, AGive BusMutex),
     (i, ACall (Rtos (DelayUs 20)) ESP_OK)]"

lemma nibble_turn:
  assumes "i < length (pool_tasks c)" "pool_tasks c ! i = nibble_prog n m k" "pool_holder c BusMutex = None"
  shows "run_tasks (replicate 7 (i, ESP_OK)) c =
    c\<lparr>pool_tasks := (pool_tasks c)[i := k ESP_OK], pool_holder := (pool_holder c)(BusMutex := None),
      pool_events := pool_events c @ nibble_events i (nibble_data n m)\<rparr>"
  using assms
  by (simp add: numeral_eq_Suc task_step_def nibble_prog_def nibble_data_def nibble_events_def Let_def)

lemma nibble_event_calls: "contribution act_calls (nibble_events i d) = nibble_calls d"
  by (simp add: nibble_events_def contribution_def nibble_calls_def)

text \<open>Both send their first nibble before either sends its second.\<close>

definition mixing_schedule :: "(nat \<times> esp_err_t) list" where
  "mixing_schedule = replicate 7 (0, ESP_OK) @ replicate 7 (1, ESP_OK) @ replicate 7 (0, ESP_OK) @ replicate 7 (1, ESP_OK)"

lemma mixing_run:
  fixes a b sh :: byte
  defines "p \<equiv> \<lambda>v. send_byte_prog v LCD_RS_BIT (\<lambda>_. Halt)"
  defines "c \<equiv> run_tasks mixing_schedule (pool_start [p a, p b] sh)"
  shows "pool_tasks c = [Halt, Halt]"
    "pool_calls c = section_calls [(a AND 0xF0, 1), (b AND 0xF0, 1), (push_bit 4 a AND 0xF0, 1), (push_bit 4 b AND 0xF0, 1)]"
proof -
  define q where "q v = (\<lambda>err. if err \<noteq> ESP_OK then Halt else nibble_prog (push_bit 4 v AND 0xF0) LCD_RS_BIT (\<lambda>_. Halt))" for v
  have p: "p v = nibble_prog (v AND 0xF0) LCD_RS_BIT (q v)" for v by (simp add: p_def send_byte_prog_def q_def)
  have q: "q v ESP_OK = nibble_prog (push_bit 4 v AND 0xF0) LCD_RS_BIT (\<lambda>_. Halt)" for v by (simp add: q_def)
  define c1 where "c1 = run_tasks (replicate 7 (0, ESP_OK)) (pool_start [p a, p b] sh)"
  define c2 where "c2 = run_tasks (replicate 7 (1, ESP_OK)) c1"
  define c3 where "c3 = run_tasks (replicate 7 (0, ESP_OK)) c2"
  have c: "c = run_tasks (replicate 7 (1, ESP_OK)) c3"
    by (simp add: c_def mixing_schedule_def c1_def c2_def c3_def)
  have c1: "pool_tasks c1 = [q a ESP_OK, p b]" "pool_holder c1 BusMutex = None"
    "pool_events c1 = nibble_events 0 (nibble_data (a AND 0xF0) 1)"
    using nibble_turn [of 0 "pool_start [p a, p b] sh" "a AND 0xF0" LCD_RS_BIT "q a"]
    by (simp_all add: c1_def pool_start_def p)
  have c2: "pool_tasks c2 = [q a ESP_OK, q b ESP_OK]" "pool_holder c2 BusMutex = None"
    "pool_events c2 = pool_events c1 @ nibble_events 1 (nibble_data (b AND 0xF0) 1)"
    using nibble_turn [of 1 c1 "b AND 0xF0" LCD_RS_BIT "q b"] c1 by (simp_all add: c2_def p)
  have c3: "pool_tasks c3 = [Halt, q b ESP_OK]" "pool_holder c3 BusMutex = None"
    "pool_events c3 = pool_events c2 @ nibble_events 0 (nibble_data (push_bit 4 a AND 0xF0) 1)"
    using nibble_turn [of 0 c2 "push_bit 4 a AND 0xF0" LCD_RS_BIT "\<lambda>_. Halt"] c2 by (simp_all add: c3_def q)
  have "pool_tasks c = [Halt, Halt]"
    "pool_events c = pool_events c3 @ nibble_events 1 (nibble_data (push_bit 4 b AND 0xF0) 1)"
    using nibble_turn [of 1 c3 "push_bit 4 b AND 0xF0" LCD_RS_BIT "\<lambda>_. Halt"] c3 by (simp_all add: c q)
  then show "pool_tasks c = [Halt, Halt]"
    "pool_calls c = section_calls [(a AND 0xF0, 1), (b AND 0xF0, 1), (push_bit 4 a AND 0xF0, 1), (push_bit 4 b AND 0xF0, 1)]"
    using c3(3) c2(3) c1(3) by (simp_all add: pool_calls_eq nibble_event_calls section_calls_def)
qed

lemma printed_bytes_mix:
  "\<exists>sched. (\<forall>x\<in>set sched. snd x = ESP_OK) \<and>
     (let c = run_tasks sched (tasks_start [[LcdPrint [x]], [LcdPrint [y]]] sh);
          a = of_nat (of_char x) :: byte; b = of_nat (of_char y) :: byte
      in all_done c \<and> lcd_decode (pcf_writes LCD_I2C_ADDR (pool_calls c)) =
        [(True, a AND 0xF0 OR drop_bit 4 (b AND 0xF0)),
         (True, push_bit 4 a AND 0xF0 OR drop_bit 4 (push_bit 4 b AND 0xF0))])"
proof -
  let ?a = "of_nat (of_char x) :: byte" and ?b = "of_nat (of_char y) :: byte"
  have task: "task_prog [LcdPrint [z]] = send_byte_prog (of_nat (of_char z)) LCD_RS_BIT (\<lambda>_. Halt)" for z
    by (simp add: task_prog_def bytes_of_string_def cong: if_cong)
  let ?c = "run_tasks mixing_schedule (tasks_start [[LcdPrint [x]], [LcdPrint [y]]] sh)"
  have c: "?c = run_tasks mixing_schedule (pool_start
      [send_byte_prog ?a LCD_RS_BIT (\<lambda>_. Halt), send_byte_prog ?b LCD_RS_BIT (\<lambda>_. Halt)] sh)"
    by (simp add: tasks_start_def task)
  have "all_done ?c" unfolding c all_done_def mixing_run(1) by simp
  moreover have "lcd_decode (pcf_writes LCD_I2C_ADDR (pool_calls ?c)) =
      [(True, ?a AND 0xF0 OR drop_bit 4 (?b AND 0xF0)), (True, push_bit 4 ?a AND 0xF0 OR drop_bit 4 (push_bit 4 ?b AND 0xF0))]"
    unfolding c mixing_run(2) using sections_mixed [of 1 1 ?a ?b] by simp
  moreover have "\<forall>x\<in>set mixing_schedule. snd x = ESP_OK" by (auto simp: mixing_schedule_def)
  ultimately show ?thesis by (auto simp: Let_def)
qed

end
