(* ===== verification/Running_Tasks.thy ===== *)
theory Running_Tasks
  imports Security Shared_Display
begin

text \<open>
  The tasks of the running firmware: in every reachable state both mutexes exist, since the
  boot does not pass its first stage without them, and are free. So what holds of tasks
  that start with the mutexes ready holds from every reachable state.
\<close>

lemma io_mutex_app: "app_pred (io_mutex :: 'x ui_scheme \<Rightarrow> bool)"
  by (rule app_pred_frame)
    (auto simp: absorbs_on_def absorbs_def ignores_def ui_fields_free_def ind_fields_free_def)

lemma io_mutex_base: "base_pred (io_mutex :: 'x app_api_scheme \<Rightarrow> bool)"
  by (auto simp: base_pred_def io_mutex_app absorbs_on_def absorbs_def world_fields_free_def ignores_def)

lemma io_mutex_world:
  "world_pred (io_mutex :: 'x app_api_scheme \<Rightarrow> bool)" "keeps (io_mutex :: 'x app_api_scheme \<Rightarrow> bool) ui_manager_init"
  by (intro world_pred_intro io_mutex_base; auto simp: manager_fields_free_def ignores_def absorbs_def)+

lemma io_mutex_nvs: "absorbs_on nvs_write (io_mutex :: 'x app_api_scheme \<Rightarrow> bool)"
  by (simp add: absorbs_on_def absorbs_def)

lemma boot_io_mutex:
  fixes s s' :: "'x app_api_scheme"
  assumes "boot_hardware s = Some ((), s')"
  shows "io_mutex s'"
proof -
  let ?P = "io_mutex :: 'x app_api_scheme \<Rightarrow> bool"
  from assms obtain s1 s2 s3 s4 where
    r2: "run_state io_expander_init s1 = (ESP_OK, s2)" and r3: "run_state sys_ind_init s2 = (ESP_OK, s3)" and
    r4: "run_state ui_init s3 = (ESP_OK, s4)" and
    s': "s' = exec (vTaskDelay 100) (exec (ui_show_boot_progress ''Booting...'' 1 13) s4)"
    unfolding boot_hardware_Some by blast
  note hw = app_pred_hw [OF io_mutex_app]
  have "keeps ?P (lcd_driver_write_nibble n m)" for n m
    unfolding lcd_driver_write_nibble_def Let_def i2c_bus_lock_def i2c_bus_unlock_def i2c_bus_pcf8574_write_byte_def
    by (auto intro!: keeps_intro simp: absorbs_def)
  then have ui: "keeps ?P ui_init" by (intro ui_keeps hw) (auto simp: ui_fields_free_def ignores_def)
  have ind: "keeps ?P sys_ind_init"
    by (intro sys_ind_init_keeps hw app_pred_set_level [OF io_mutex_app]) (auto simp: ignores_def)
  have "io_mutex s2" using init_coherent(2) [of s1] r2 by simp
  then have "io_mutex s3" using keepsD [OF ind, of s2] r3 by simp
  then have "io_mutex s4" using keepsD [OF ui, of s3] r4 by simp
  then show ?thesis unfolding s' using keepsD [OF app_pred_ui(7) [OF io_mutex_app], of s4] by simp
qed

lemma reachable_ready:
  assumes "fw_reachable e c s" "take_ok e"
  shows "mutexes_ready s"
proof -
  have "io_mutex s"
  proof (rule reachable_pred [OF assms(1) io_mutex_world(1)])
    show "password_pred (io_mutex :: 'a app_api_scheme \<Rightarrow> bool)"
      by (intro password_pred_nvs io_mutex_nvs io_mutex_base)
  next
    fix s s' :: "'a app_api_scheme"
    assume "app_main s = Some (c, s')"
    then show "io_mutex s'"
      by (rule boot_invariant [OF _ io_mutex_base io_mutex_world(2) io_mutex_nvs])
        (auto simp: router_fields_free_def ignores_def intro: boot_io_mutex)
  qed
  then show ?thesis
    using reachable_machine [OF assms] by (simp add: mutexes_ready_def machine_inv_def bus_inv_def)
qed

lemma reachable_lcd:
  assumes "fw_reachable e c s" "take_ok e" "i2c_ok e"
  shows "lcd_ready s"
  using reachable_ready [OF assms(1,2)] reachable_ext [OF assms(1)] assms(3)
  by (simp add: lcd_ready_def mutexes_ready_def)

end
