(* ===== verification/Task_Liveness.thy ===== *)
theory Task_Liveness
  imports Bus_Protocol
begin

text \<open>
  Tasks on the bus finish: there is no deadlock (\<open>tasks_progress\<close>), every task takes a
  bounded number of steps, so a schedule that gives every task a turn often enough runs
  all of them to their end, whatever errors the bus returns.
\<close>

section \<open>How long the tasks run\<close>

fun job_steps :: "job \<Rightarrow> nat" where
  "job_steps (SetLevel p l) = 8"
| "job_steps (LcdCmd v) = 14"
| "job_steps (LcdPrint str) = 14 * length str"
| "job_steps ReadPort = 1"
| "job_steps (ReadSensors d) = 4"
| "job_steps (Pause ms) = 1"

definition task_steps :: "job list \<Rightarrow> nat" where
  "task_steps js = sum_list (map job_steps js)"

lemma within_nibble:
  assumes "\<And>err. halts_within (k err) n"
  shows "halts_within (nibble_prog v m k) (n + 7)"
proof -
  have "halts_within (k err) (n + d)" for err d using halts_later [OF assms] .
  from this [of _ 2] this [of _ 3] assms show ?thesis
    by (simp add: nibble_prog_def Let_def add.commute)
qed

lemma within_send_byte:
  assumes "\<And>err. halts_within (k err) n"
  shows "halts_within (send_byte_prog v m k) (n + 14)"
proof -
  have "halts_within (if err \<noteq> ESP_OK then k err else nibble_prog (push_bit 4 v AND 0xF0) m k) (n + 7)" for err
    using halts_later [OF assms, of err 7] within_nibble [of k n, OF assms] by simp
  from within_nibble [OF this] show ?thesis by (simp add: send_byte_prog_def add.assoc)
qed

lemma within_send_data:
  assumes "\<And>err. halts_within (k err) n"
  shows "halts_within (send_data_prog bs k) (n + 14 * length bs)"
proof (induction bs)
  case Nil
  then show ?case using assms by simp
next
  case (Cons b bs)
  have "halts_within (if err \<noteq> ESP_OK then k err else send_data_prog bs k) (n + 14 * length bs)" for err
    using halts_later [OF assms, of err] Cons by simp
  from within_send_byte [OF this] show ?case by (simp add: ac_simps)
qed

lemma within_job:
  assumes "halts_within k n"
  shows "halts_within (job_prog j k) (n + job_steps j)"
proof (cases j)
  case (LcdPrint str)
  then show ?thesis
    using within_send_data [of "\<lambda>_. k" n "bytes_of_string str"] assms by (simp add: length_bytes_of_string)
qed (use assms within_send_byte [of "\<lambda>_. k" n] in
    \<open>simp_all add: set_level_prog_def commit_prog_def calls_prog_def sensor_calls_def\<close>)

lemma within_task: "halts_within (task_prog js) (task_steps js)"
proof (induction js)
  case Nil
  then show ?case by (simp add: task_prog_def)
next
  case (Cons j js)
  from within_job [OF Cons, of j] show ?case by (simp add: task_prog_def task_steps_def add.commute)
qed

lemma tasks_bounded:
  "length (pool_events (run_tasks sched (tasks_start jss sh))) \<le> sum_list (map task_steps jss)"
  unfolding tasks_start_def
  by (rule events_bounded) (simp add: list_all2_conv_all_nth within_task)

section \<open>Fair schedules\<close>

lemma step_grows: "task_step x c = c \<or> length (pool_events (task_step x c)) = Suc (length (pool_events c))"
  by (cases x, rule task_step_cases [of "fst x" "snd x" c]) auto

lemma run_grows:
  "run_tasks xs c = c \<or> length (pool_events c) < length (pool_events (run_tasks xs c))"
proof (induction xs arbitrary: c)
  case Nil
  then show ?case by simp
next
  case (Cons x xs)
  from step_grows [of x c] show ?case
  proof
    assume "task_step x c = c"
    then show ?thesis using Cons.IH [of c] by simp
  next
    assume "length (pool_events (task_step x c)) = Suc (length (pool_events c))"
    then show ?thesis using Cons.IH [of "task_step x c"] by auto
  qed
qed

lemma all_done_stays:
  assumes "all_done c"
  shows "run_tasks xs c = c"
proof (induction xs)
  case Nil
  then show ?case by simp
next
  case (Cons x xs)
  have "pool_tasks c ! i = Halt" if "i < length (pool_tasks c)" for i
    using assms that by (simp add: all_done_def)
  then have "task_step x c = c" by (cases x) (simp add: task_step_def)
  then show ?case using Cons by simp
qed

text \<open>A round gives every task a turn.\<close>

lemma round_progress:
  assumes "phases_inv c phs" "\<not> all_done c" "{..<length (pool_tasks c)} \<subseteq> fst ` set r"
  shows "length (pool_events c) < length (pool_events (run_tasks r c))"
proof -
  from some_task_moves [OF assms(1,2)] obtain i where i: "\<forall>e. task_step (i, e) c \<noteq> c" by blast
  then have "i < length (pool_tasks c)" by (auto simp: task_step_def split: if_splits)
  then obtain e where "(i, e) \<in> set r" using assms(3) by force
  then obtain r1 r2 where r: "r = r1 @ (i, e) # r2" by (meson split_list)
  let ?c = "run_tasks r1 c"
  have "length (pool_events c) < length (pool_events (task_step (i, e) ?c))"
    using run_grows [of r1 c] step_grows [of "(i, e)" ?c] step_grows [of "(i, e)" c] i by auto
  then show ?thesis using run_grows [of r2 "task_step (i, e) ?c"] by (auto simp: r)
qed

lemma run_tasks_length [simp]: "length (pool_tasks (run_tasks xs c)) = length (pool_tasks c)"
proof (induction xs arbitrary: c)
  case Nil
  then show ?case by simp
next
  case (Cons x xs)
  have "length (pool_tasks (task_step x c)) = length (pool_tasks c)"
    by (cases x, rule task_step_cases [of "fst x" "snd x" c]) auto
  then show ?case using Cons by simp
qed

lemma rounds_finish:
  assumes "\<forall>r\<in>set rs. {..<length jss} \<subseteq> fst ` set r" "sum_list (map task_steps jss) \<le> length rs"
  shows "all_done (run_tasks (concat rs) (tasks_start jss sh))"
proof -
  let ?run = "\<lambda>rs. run_tasks (concat rs) (tasks_start jss sh)"
  have n: "length (pool_tasks (?run qs)) = length jss" for qs by (simp add: tasks_start_def pool_start_def)
  have inv: "\<exists>phs. phases_inv (?run qs) phs" for qs
    using phases_run [of "\<lambda>_ _. True" jss sh "concat qs"] by blast
  have "all_done (?run qs) \<or> length qs \<le> length (pool_events (?run qs))"
    if "\<forall>r\<in>set qs. {..<length jss} \<subseteq> fst ` set r" for qs
    using that
  proof (induction qs rule: rev_induct)
    case Nil
    then show ?case by simp
  next
    case (snoc r qs)
    show ?case
    proof (cases "all_done (?run qs)")
      case True
      then show ?thesis by (simp add: all_done_stays)
    next
      case False
      obtain phs where "phases_inv (?run qs) phs" using inv by blast
      moreover have "{..<length (pool_tasks (?run qs))} \<subseteq> fst ` set r" using snoc.prems unfolding n by simp
      ultimately have "length (pool_events (?run qs)) < length (pool_events (?run (qs @ [r])))"
        using round_progress False by simp
      then show ?thesis using snoc False by auto
    qed
  qed
  moreover have "all_done (?run rs)" if le: "length rs \<le> length (pool_events (?run rs))"
  proof (rule ccontr)
    assume undone: "\<not> all_done (?run rs)"
    obtain phs where "phases_inv (?run rs) phs" using inv by blast
    from some_task_moves [OF this undone] obtain i where "\<forall>e. task_step (i, e) (?run rs) \<noteq> ?run rs" by blast
    with step_grows [of "(i, ESP_OK)" "?run rs"]
    have "length (pool_events (run_tasks (concat rs @ [(i, ESP_OK)]) (tasks_start jss sh))) = Suc (length (pool_events (?run rs)))"
      by auto
    then show False using tasks_bounded [of "concat rs @ [(i, ESP_OK)]" jss sh] le assms(2) by linarith
  qed
  ultimately show ?thesis using assms(1) by blast
qed

end
