(* ===== verification/Client_Sharing.thy ===== *)
theory Client_Sharing
  imports Ws_Dispatcher
begin

text \<open>
  The registered client of the dispatcher is two plain variables: the dispatcher's task
  reads and clears them, the server's task writes them, and no mutex covers them. Here the
  two run at the same time, one access of a variable or one call at a step. A step is an
  operation of the model that returns what is left to do.
\<close>

section \<open>Operations in turns\<close>

datatype 's turns = Finished | Turn "('s, 's turns) op"

primrec run_turns :: "'s turns \<Rightarrow> 's \<Rightarrow> 's" where
  "run_turns Finished = (\<lambda>s. s)"
| "run_turns (Turn m) = (\<lambda>s. case run_state (map_state run_turns m) s of (f, s') \<Rightarrow> f s')"

lemma run_Turn [simp]: "run_turns (Turn m) s = run_turns (result m s) (exec m s)"
  by (cases m) (simp add: case_prod_beta)

declare run_turns.simps(2) [simp del]

definition take_turn :: "nat \<Rightarrow> 's turns list \<times> 's \<Rightarrow> 's turns list \<times> 's" where
  "take_turn i c = (case c of (ps, s) \<Rightarrow>
     if i < length ps then
       (case ps ! i of
          Finished \<Rightarrow> (ps, s)
        | Turn m \<Rightarrow> (ps[i := result m s], exec m s))
     else (ps, s))"

definition take_turns :: "nat list \<Rightarrow> 's turns list \<times> 's \<Rightarrow> 's turns list \<times> 's" where
  "take_turns sched c = fold take_turn sched c"

section \<open>The dispatcher and the registration\<close>

definition clear_client :: "'x ws_dispatcher_scheme turns \<Rightarrow> 'x ws_dispatcher_scheme turns" where
  "clear_client k = Turn (do { modify (\<lambda>s. s\<lparr>s_active_socket := - 1\<rparr>); ret k })"

definition send_ws_json_turns ::
  "nat \<Rightarrow> int \<Rightarrow> string \<Rightarrow> nat \<Rightarrow> 'x ws_dispatcher_scheme turns \<Rightarrow> 'x ws_dispatcher_scheme turns" where
  "send_ws_json_turns server socket event data k = Turn (do {
     info \<leftarrow> call_int (Httpd (WsFdInfo server socket));
     ret (if info \<noteq> HTTPD_WS_CLIENT_WEBSOCKET then clear_client k
     else Turn (do {
       d \<leftarrow> read_str data;
       let len = length event + length d + 30;
       buffer \<leftarrow> malloc_buf len (c_trunc len (frame_text event d));
       ret (case buffer of
          None \<Rightarrow> k
        | Some b \<Rightarrow> Turn (do {
            payload \<leftarrow> read_str b;
            r \<leftarrow> call_err (Httpd (WsSendAsync server socket payload));
            let release = Turn (do { free_str b; ret k });
            ret (if r \<noteq> ESP_OK then clear_client release else release)
          }))
     }))
   })"

text \<open>
  The condition reads both variables, the call reads both again; a null handle passed on
  would be a fault.
\<close>

definition ws_task_send_turns ::
  "string \<Rightarrow> nat \<Rightarrow> 'x ws_dispatcher_scheme turns \<Rightarrow> 'x ws_dispatcher_scheme turns" where
  "ws_task_send_turns event payload k = Turn (do {
     sock \<leftarrow> gets s_active_socket;
     ret (if sock = - 1 then k
     else Turn (do {
       server \<leftarrow> gets s_server_handle;
       ret (if server = None then k
       else Turn (do {
         server \<leftarrow> gets s_server_handle;
         ret (Turn (do {
           sock \<leftarrow> gets s_active_socket;
           (case server of
              Some h \<Rightarrow> ret (send_ws_json_turns h sock event payload k)
            | None \<Rightarrow> do { modify (\<lambda>s. s\<lparr>mem_fault := True\<rparr>); ret k })
         }))
       }))
     }))
   })"

definition add_client_turns ::
  "nat \<Rightarrow> int \<Rightarrow> 'x ws_dispatcher_scheme turns \<Rightarrow> 'x ws_dispatcher_scheme turns" where
  "add_client_turns server_handle new_sockfd k =
     (let register = Turn (do {
            modify (\<lambda>s. s\<lparr>s_active_socket := new_sockfd\<rparr>);
            ret (Turn (do { modify (\<lambda>s. s\<lparr>s_server_handle := Some server_handle\<rparr>); ret k }))
          })
      in Turn (do {
           sock \<leftarrow> gets s_active_socket;
           ret (if sock = - 1 then register
           else Turn (do {
             sock \<leftarrow> gets s_active_socket;
             ret (if sock = new_sockfd then register
             else Turn (do {
               sock \<leftarrow> gets s_active_socket;
               call_unit (Httpd (SessClose server_handle sock));
               ret register
             }))
           }))
         }))"

text \<open>Alone, they do what the operations of the model do.\<close>

lemma send_turns_alone:
  "run_turns (send_ws_json_turns h sock event payload k) s = run_turns k (exec (send_ws_json h sock event payload) s)"
  by (simp add: send_ws_json_turns_def send_ws_json_def clear_client_def case_prod_beta Let_def split: option.split)

lemma task_send_turns_alone:
  "run_turns (ws_task_send_turns event payload k) s = run_turns k (exec (ws_task_send event payload) s)"
  by (simp add: ws_task_send_turns_def ws_task_send_def send_turns_alone split: option.split)

lemma add_client_turns_alone:
  "run_turns (add_client_turns h sock k) s = run_turns k (exec (ws_dispatcher_add_client h sock) s)"
  by (simp add: add_client_turns_def ws_dispatcher_add_client_def Let_def)

section \<open>A client lost\<close>

text \<open>One after the other, in either order, the new client ends up registered.\<close>

lemma orders_register:
  fixes s :: "'x ws_dispatcher_scheme"
  assumes "s_server_handle s = Some h" "new \<noteq> - 1"
    and "\<And>t. int_of (ext s) t (Httpd (WsFdInfo h new)) = HTTPD_WS_CLIENT_WEBSOCKET"
    and "\<And>t txt. err_of (ext s) t (Httpd (WsSendAsync h new txt)) = ESP_OK"
  shows "s_active_socket (exec (do { ws_task_send ev p; ws_dispatcher_add_client h new }) s) = new"
    "s_active_socket (exec (do { ws_dispatcher_add_client h new; ws_task_send ev p }) s) = new"
proof -
  show "s_active_socket (exec (do { ws_task_send ev p; ws_dispatcher_add_client h new }) s) = new"
    by (simp add: ws_dispatcher_add_client_def case_prod_beta)
  have send: "s_active_socket (exec (send_ws_json h new ev p) u) = new"
    if "ext u = ext s" "s_active_socket u = new" for u :: "'x ws_dispatcher_scheme"
    using that assms(3,4)
    by (simp add: send_ws_json_def run_malloc_buf read_str_def free_str_def case_prod_beta Let_def split: option.split)
  then show "s_active_socket (exec (do { ws_dispatcher_add_client h new; ws_task_send ev p }) s) = new"
    using assms(1,2) by (simp add: ws_dispatcher_add_client_def ws_task_send_def)
qed

text \<open>
  Between the dispatcher's last look at the variables and its first call the panel, whose old
  connection is gone, connects again: the dispatcher then takes the news about the old
  connection for news about the new one.
\<close>

definition late_schedule :: "nat list" where
  "late_schedule = replicate 4 0 @ replicate 5 1 @ replicate 2 0"

lemma take_turns_Cons [simp]: "take_turns (i # is) c = take_turns is (take_turn i c)"
  by (simp add: take_turns_def)

lemma take_turns_Nil [simp]: "take_turns [] c = c"
  by (simp add: take_turns_def)

lemma late_failure:
  assumes "s_server_handle s = Some h" "s_active_socket s \<noteq> - 1" "new \<noteq> s_active_socket s"
    and "\<And>t. int_of (ext s) t (Httpd (WsFdInfo h (s_active_socket s))) \<noteq> HTTPD_WS_CLIENT_WEBSOCKET"
  shows "case take_turns late_schedule ([ws_task_send_turns ev p Finished, add_client_turns h new Finished], s) of
    (ps, s') \<Rightarrow> ps = [Finished, Finished] \<and> s_active_socket s' = - 1"
  using assms
  by (simp add: late_schedule_def numeral_eq_Suc take_turn_def ws_task_send_turns_def add_client_turns_def
      send_ws_json_turns_def clear_client_def Let_def)

end
