(* ===== verification/Stale_Server.thy ===== *)
theory Stale_Server
  imports Security Client_Sharing
begin

text \<open>
  A server that has stopped. When the link goes down the event handler stops the server,
  which frees it, and nothing tells the dispatcher: its client and its server handle stay
  as they were. The next message is sent through the handle of the freed server.
\<close>

lemma stop_client:
  "s_active_socket (exec https_server_stop s) = s_active_socket s"
  "s_server_handle (exec https_server_stop s) = s_server_handle s"
  by (simp_all add: https_server_stop_def free_opt_def free_str_def case_prod_beta split: option.split)

lemma stop_trace:
  assumes "server s"
  shows "prefix (trace s @ [Httpd SslStop]) (trace (exec https_server_stop s))"
  using assms by (auto simp: https_server_stop_def free_opt_def free_str_def case_prod_beta split: option.split)

lemma on_stop_client:
  fixes s :: "'x app_api_scheme"
  shows "s_active_socket (exec on_server_stop s) = s_active_socket s \<and> s_server_handle (exec on_server_stop s) = s_server_handle s \<and>
    s_ws_queue (exec on_server_stop s) = s_ws_queue s \<and> ext (exec on_server_stop s) = ext s"
proof -
  have "app_pred (\<lambda>u :: 'x app_api_scheme. s_active_socket u = s_active_socket s \<and> s_server_handle u = s_server_handle s \<and>
      s_ws_queue u = s_ws_queue s \<and> ext u = ext s)"
    by (rule app_pred_frame)
      (auto simp: absorbs_on_def absorbs_def ignores_def ui_fields_free_def ind_fields_free_def)
  from keepsD [OF callbacks_keep(2) [OF this], of s] show ?thesis by simp
qed

text \<open>The queue outlives the server, so messages still arrive.\<close>

lemma message_after_stop:
  fixes s :: "'x app_api_scheme" and c :: system_config
  assumes "s_ws_queue s" "\<And>t. bool_of (ext s) t (Queue QueueReceive)"
  shows "result ws_queue_receive (exec (https_server_connection_handler (Some (https_cfg c)) EthDisconnected) s) \<noteq> None"
proof -
  let ?s0 = "exec https_server_stop s"
  have "s_ws_queue ?s0 = s_ws_queue s" "ext ?s0 = ext s"
    by (simp_all add: https_server_stop_def free_opt_def free_str_def case_prod_beta split: option.split)
  then show ?thesis
    using assms on_stop_client [of ?s0]
    by (simp add: https_server_connection_handler_def https_cfg_def ws_queue_receive_def run_ask case_prod_beta)
qed

lemma on_stop_trace:
  fixes s :: "'x app_api_scheme"
  shows "prefix (trace s) (trace (exec on_server_stop s))"
proof -
  have "app_pred (\<lambda>u :: 'x app_api_scheme. prefix (trace s) (trace u))"
    by (rule app_pred_frame)
      (auto simp: absorbs_on_def absorbs_def ignores_def ui_fields_free_def ind_fields_free_def prefix_def)
  from keepsD [OF callbacks_keep(2) [OF this], of s] show ?thesis by simp
qed

lemma send_asks_first:
  "\<exists>v. trace (exec (send_ws_json h sock ev p) s) = trace s @ Httpd (WsFdInfo h sock) # v"
  by (auto simp: send_ws_json_def run_malloc_buf read_str_def free_str_def case_prod_beta Let_def split: option.split)

lemma stale_handle_used:
  fixes s :: "'x app_api_scheme" and c :: system_config
  assumes "server s" "s_server_handle s = Some h" "s_active_socket s \<noteq> - 1"
  defines "s1 \<equiv> exec (https_server_connection_handler (Some (https_cfg c)) EthDisconnected) s"
  assumes "result ws_queue_receive s1 \<noteq> None"
  shows "\<exists>u v. trace (exec ws_task_round s1) = trace s @ Httpd SslStop # u @ Httpd (WsFdInfo h (s_active_socket s)) # v"
proof -
  let ?s0 = "exec https_server_stop s"
  have s1: "s1 = exec on_server_stop ?s0"
    by (simp add: s1_def https_server_connection_handler_def https_cfg_def case_prod_beta)
  have client: "s_active_socket s1 = s_active_socket s" "s_server_handle s1 = Some h"
    using on_stop_client [of ?s0] assms(2) by (simp_all add: s1 stop_client)
  from stop_trace [OF assms(1)] on_stop_trace [of ?s0] have "prefix (trace s @ [Httpd SslStop]) (trace s1)"
    unfolding s1 by (rule prefix_order.trans)
  then obtain u where u: "trace s1 = trace s @ Httpd SslStop # u" by (auto simp: prefix_def)
  obtain ev p where m: "result ws_queue_receive s1 = Some (ev, p)" using assms(5) by auto
  let ?s2 = "exec ws_queue_receive s1"
  have s2: "trace ?s2 = trace s1 @ [Queue QueueReceive]" "s_active_socket ?s2 = s_active_socket s" "s_server_handle ?s2 = Some h"
    using m client by (auto simp: ws_queue_receive_def run_ask case_prod_beta split: if_splits)
  have "exec ws_task_round s1 = exec (free_str p) (exec (send_ws_json h (s_active_socket s) ev p) ?s2)"
    using m s2 assms(3) by (simp add: ws_task_round_def ws_task_send_def case_prod_beta)
  moreover obtain v where "trace (exec (send_ws_json h (s_active_socket s) ev p) ?s2) =
      trace ?s2 @ Httpd (WsFdInfo h (s_active_socket s)) # v" using send_asks_first by blast
  ultimately have "trace (exec ws_task_round s1) =
      trace s @ Httpd SslStop # (u @ [Queue QueueReceive]) @ Httpd (WsFdInfo h (s_active_socket s)) # (v @ [Mem (Free p)])"
    using s2(1) u by (simp add: free_str_def)
  then show ?thesis by blast
qed

end
