(* ===== verification/Sample_Tasks.thy ===== *)
theory Sample_Tasks
  imports Sample Running_Tasks Task_Liveness Stale_Server
begin

text \<open>
  A concrete run of two tasks for the witnesses: one draws, one sets a pin, in rounds that
  give each a turn. And a panel that connects again after it lost its connection.
\<close>

definition draw_and_set :: "job list list" where
  "draw_and_set = [[LcdPrint ''A''], [SetLevel 1 0]]"

definition turns_each :: "(nat \<times> esp_err_t) list list" where
  "turns_each = replicate 22 [(0, ESP_OK), (1, ESP_OK)]"

lemma turns_each_fair:
  "\<forall>r\<in>set turns_each. {..<length draw_and_set} \<subseteq> fst ` set r"
  "sum_list (map task_steps draw_and_set) \<le> length turns_each"
  "\<forall>x\<in>set (concat turns_each). snd x = ESP_OK"
  by (auto simp: turns_each_def draw_and_set_def task_steps_def)

lemma draw_and_set_done: "all_done (run_tasks (concat turns_each) (tasks_start draw_and_set sh))"
  by (rule rounds_finish [OF turns_each_fair(1,2)])

definition ready_board :: app_api where
  "ready_board = sample_board (sample_env (\<lambda>_. None))\<lparr>io_mutex := True, bus_mutex := True\<rparr>"

lemma ready_board [simp]: "mutexes_ready ready_board" "lcd_ready ready_board" "port_shadow ready_board = 0xFF"
  using sample_laws [of "\<lambda>_. None"]
  by (simp_all add: mutexes_ready_def lcd_ready_def ready_board_def) (simp_all add: sample_board_def)

text \<open>Socket 7 is the new connection; the old one is gone.\<close>

definition reconnect_env :: ext_env where
  "reconnect_env = idle_env\<lparr>int_of := (\<lambda>t c. case c of Httpd (WsFdInfo h sock) \<Rightarrow> (if sock = 7 then 2 else 0) | _ \<Rightarrow> 0)\<rparr>"

definition reconnect_board :: app_api where
  "reconnect_board = sample_board reconnect_env
     \<lparr>s_active_socket := 5, s_server_handle := Some 1, server := True, s_ws_queue := True\<rparr>"

lemma reconnect_board [simp]:
  "s_active_socket reconnect_board = 5" "s_server_handle reconnect_board = Some 1" "server reconnect_board"
  "s_ws_queue reconnect_board" "ext reconnect_board = reconnect_env"
  by (simp_all add: reconnect_board_def)

lemma reconnect_env [simp]:
  "int_of reconnect_env t (Httpd (WsFdInfo h sock)) = (if sock = 7 then 2 else 0)"
  "err_of reconnect_env t c = ESP_OK" "bool_of reconnect_env t c"
  by (simp_all add: reconnect_env_def idle_env_def)

end
