(* ===== verification/Sample_Network.thy ===== *)
theory Sample_Network
  imports Sample
begin

text \<open>
  The board of \<open>Sample\<close> with a cable that is plugged in late: the connected bit is seen by
  the third wait of the boot.
\<close>

definition late_link_env :: ext_env where
  "late_link_env = idle_env\<lparr>word_of :=
     (\<lambda>t c. if 2 \<le> length (filter (\<lambda>x. x = Net EventGroupDelete) t) then 1 else 0)\<rparr>"

text \<open>A callback that leaves a mark in the trace.\<close>

definition mark_link :: "bool \<Rightarrow> (app_api, unit) op" where
  "mark_link up = call_unit (Net (if up then EthStart else NetifNew))"

abbreviation one_wait :: "nat \<Rightarrow> call list" where
  "one_wait ms \<equiv> [Net EventGroupCreate, Net StartupHandlerRegister, Net (EventGroupWait ms),
     Net StartupHandlerUnregister, Net EventGroupDelete]"

definition late_link_trace :: "call list" where
  "late_link_trace = one_wait 2500 @ one_wait 1000 @ [Net NetifNew, Rtos (TaskDelay 100)] @
     one_wait 1000 @ [Net EthStart]"

lemma late_link_rounds:
  defines "s \<equiv> sample_board late_link_env"
  shows "\<not> link_up (ext s) (trace s) 2500"
    "\<not> link_up (ext (unlinked_rounds mark_link s 0)) (trace (unlinked_rounds mark_link s 0)) 1000"
    "link_up (ext (unlinked_rounds mark_link s 1)) (trace (unlinked_rounds mark_link s 1)) 1000"
    "exec (mark_link True) (waited 1000 (unlinked_rounds mark_link s 1)) = s\<lparr>trace := late_link_trace\<rparr>"
proof -
  have s: "ext s = late_link_env" "trace s = []" by (simp_all add: s_def sample_board_def)
  have w0: "waited 2500 s = s\<lparr>trace := one_wait 2500\<rparr>"
    by (simp add: waited_def wait_calls_def s late_link_env_def idle_env_def)
  have w1: "unlinked_rounds mark_link s 1 =
      s\<lparr>trace := one_wait 2500 @ one_wait 1000 @ [Net NetifNew, Rtos (TaskDelay 100)]\<rparr>"
    by (simp add: w0 mark_link_def waited_def wait_calls_def s late_link_env_def idle_env_def Let_def)
  show "\<not> link_up (ext s) (trace s) 2500"
    by (simp add: link_up_def s late_link_env_def)
  show "\<not> link_up (ext (unlinked_rounds mark_link s 0)) (trace (unlinked_rounds mark_link s 0)) 1000"
    by (simp add: w0 link_up_def s late_link_env_def)
  show "link_up (ext (unlinked_rounds mark_link s 1)) (trace (unlinked_rounds mark_link s 1)) 1000"
    unfolding w1 by (simp add: link_up_def s late_link_env_def idle_env_def)
  show "exec (mark_link True) (waited 1000 (unlinked_rounds mark_link s 1)) = s\<lparr>trace := late_link_trace\<rparr>"
    unfolding w1
    by (simp add: mark_link_def waited_def wait_calls_def late_link_trace_def s late_link_env_def idle_env_def)
qed

end
