(* ===== verification/Unchecked_Context.thy ===== *)
theory Unchecked_Context
  imports Sample_Requests
begin

text \<open>
  A request whose context could not be allocated. \<open>http_middleware\<close> runs the handler all
  the same, with \<open>req->user_ctx\<close> still pointing to the endpoint it was registered with,
  and the handler writes its result there as if it were a context.
\<close>

section \<open>A handler without its context\<close>

text \<open>Whatever comes before it, a report through the endpoint's pointer is a fault.\<close>

lemma stray_update:
  assumes "req_user_ctx req = UcEndpoint"
  shows "triple (\<lambda>_. True) (app_api_return_err req st e n) (\<lambda>_. mem_fault)"
    "triple (\<lambda>_. True) (app_api_return_ok req) (\<lambda>_. mem_fault)"
    "triple (\<lambda>_. True) (app_api_return_json req j) (\<lambda>_. mem_fault)"
    "triple (\<lambda>_. True) (app_api_return_err req st e n \<bind> (\<lambda>r. ret (g r))) (\<lambda>x s. C x \<longrightarrow> mem_fault s)"
  using assms by (simp_all add: api_defs triple_def)

lemma after_any: "(\<And>a. triple (\<lambda>_. True) (f a) Q) \<Longrightarrow> triple (\<lambda>_. True) (m \<bind> f) Q"
  by (rule triple_bind_keeps) (simp_all add: keeps_def)

lemmas stray_intro = after_any triple_ret triple_if triple_case_prod

lemma stray_handlers:
  assumes "req_user_ctx req = UcEndpoint"
  shows "triple (\<lambda>_. True) (app_api_auth_change_password req) (\<lambda>_. mem_fault)"
    "triple (\<lambda>_. True) (app_api_auth_reset_password req) (\<lambda>_. mem_fault)"
    "triple (\<lambda>_. True) (ota_begin req) (\<lambda>r s. r \<noteq> None \<longrightarrow> mem_fault s)"
    "triple (\<lambda>_. True) (ota_pass req n rem cur pct) (\<lambda>r s. (\<exists>x. r = OtaReturn x) \<longrightarrow> mem_fault s)"
    "triple (\<lambda>_. True) (ota_finish req) (\<lambda>_. mem_fault)"
  unfolding app_api_auth_change_password_def app_api_auth_reset_password_def ota_begin_def ota_pass_def
    ota_finish_def Let_def
  by (auto intro!: stray_update [OF assms] stray_intro)

lemma always_fault: "triple (\<lambda>_. True) m (\<lambda>_. mem_fault) \<Longrightarrow> mem_fault (exec m s)"
  by (simp add: triple_def)

lemma stray_run:
  assumes "req_user_ctx req = UcEndpoint"
  shows "mem_fault (exec (app_api_auth_change_password req) s)"
    "mem_fault (exec (app_api_auth_reset_password req) s)" "mem_fault (exec (ota_finish req) s)"
    "run_state (ota_begin req) s = (Some q, s') \<Longrightarrow> mem_fault s'"
    "run_state (ota_pass req n rem cur pct) s = (OtaReturn q, s') \<Longrightarrow> mem_fault s'"
proof -
  show "mem_fault (exec (app_api_auth_change_password req) s)"
    "mem_fault (exec (app_api_auth_reset_password req) s)" "mem_fault (exec (ota_finish req) s)"
    by (rule always_fault, rule stray_handlers [OF assms])+
  show "run_state (ota_begin req) s = (Some q, s') \<Longrightarrow> mem_fault s'"
    by (drule tripleD [OF stray_handlers(3) [OF assms] TrueI]) simp
  show "run_state (ota_pass req n rem cur pct) s = (OtaReturn q, s') \<Longrightarrow> mem_fault s'"
    by (drule tripleD [OF stray_handlers(4) [OF assms] TrueI]) simp
qed

lemma stray_loop:
  assumes "ota_loop req n rem cur pct s = Some out" "out = (Inl r, s')" "req_user_ctx req = UcEndpoint"
  shows "mem_fault s'"
  using assms
proof (induction rule: ota_loop.raw_induct [rotated 1, consumes 1])
  case (1 loop req n rem cur pct s out)
  obtain nxt s1 where p: "run_state (ota_pass req n rem cur pct) s = (nxt, s1)"
    by (cases "run_state (ota_pass req n rem cur pct) s")
  with stray_run(5) [OF 1(4)] have "nxt = OtaReturn q \<Longrightarrow> mem_fault s1" for q by simp
  with 1 p show ?case by (cases nxt) (auto split: if_splits)
qed

lemma stray_update_request:
  assumes "req_user_ctx req = UcEndpoint" "app_api_ota_update req s = Some (r, s')"
  shows "mem_fault s'"
proof -
  obtain early s1 where b: "run_state (ota_begin req) s = (early, s1)" by (cases "run_state (ota_begin req) s")
  show ?thesis
  proof (cases early)
    case (Some q)
    with stray_run(4) [OF assms(1), of s q s1] b assms(2) show ?thesis by (simp add: app_api_ota_update_def)
  next
    case None
    with assms(2) b obtain v s2 where l: "ota_loop req (ota_total req) (ota_total req) 0 (- 1) s1 = Some (v, s2)"
      and f: "(case v of Inl r \<Rightarrow> run_op (ret r) | Inr _ \<Rightarrow> run_op (ota_finish req)) s2 = Some (r, s')"
      by (auto simp: app_api_ota_update_def then_pop_Some)
    show ?thesis
      using f stray_loop [OF l _ assms(1)] stray_run(3) [OF assms(1), of s2]
      by (cases v) (auto simp: prod_eq_iff)
  qed
qed

text \<open>Nothing after the handler clears the fault.\<close>

lemma app_pred_fault: "app_pred (mem_fault :: 'x app_api_scheme \<Rightarrow> bool)"
  by (rule app_pred_frame)
    (auto simp: absorbs_on_def absorbs_def ignores_def ui_fields_free_def ind_fields_free_def)

lemma stray_finish:
  "keeps mem_fault (middleware_finish (Some (https_cfg c)) ep req None lr)"
  unfolding middleware_finish_def https_cfg_def app_api_handle_response_def
  by (auto intro!: keeps_intro callbacks_keep [OF app_pred_fault] simp: absorbs_def)

theorem unallocated_context:
  assumes "ep \<in> set app_api_get_endpoints" "\<not> ep_is_ws ep" "req_user_ctx req = UcEndpoint"
    and "run_state (app_api_check_auth req) s = (True, s1)"
    and "\<not> bool_of (ext s1) (trace s1) (Mem (Malloc 20))"
    and "http_middleware (Some (https_cfg c)) (Some ep) req s = Some (r, s')"
  shows "mem_fault s'"
  using assms(1,6)
proof (cases rule: middleware_run)
  case (refused s2)
  with assms(4) show ?thesis by simp
next
  case (served h s2 p s3 lr s4)
  then have "p = None" using assms(4,5) by (simp add: app_api_create_ctx_def)
  then have "h (req\<lparr>req_user_ctx := req_user_ctx req\<rparr>) s3 = Some (lr, s4)" using served(4) by simp
  then have h: "h req s3 = Some (lr, s4)" by simp
  have "mem_fault s4"
    using assms(1,2) served(1) h stray_run(1,2) [OF assms(3), of s3] stray_update_request [OF assms(3), of s3 lr s4]
    by (auto simp: app_api_get_endpoints_def prod_eq_iff)
  from keepsD [OF stray_finish this, of c ep req lr] served(5) \<open>p = None\<close> show ?thesis by simp
qed

section \<open>A board without memory\<close>

text \<open>The sample environment, except that a request context is never allocated.\<close>

definition scarce_env :: ext_env where
  "scarce_env = sample_env secret_store
     \<lparr>bool_of := (\<lambda>t c. c \<noteq> Mem (Malloc 20) \<and> bool_of (sample_env secret_store) t c)\<rparr>"

lemma scarce_nvs_view: "nvs_view scarce_env f t = nvs_view idle_env f t"
proof (induction t rule: rev_induct)
  case (snoc c t)
  have "nvs_step scarce_env t st c = nvs_step idle_env t st c" for st
    by (cases "(scarce_env, t, st, c)" rule: nvs_step.cases)
      (auto simp: scarce_env_def sample_env_def idle_env_def sample_int_def)
  with snoc show ?case by simp
qed (simp add: nvs_view_def)

lemma scarce_law: "nvs_law secret_store scarce_env"
  unfolding nvs_law_def scarce_nvs_view by (auto simp: scarce_env_def sample_env_def split: option.splits)

lemma scarce_authorised:
  obtains s1 where "run_state (app_api_check_auth sample_change) (sample_board scarce_env) = (True, s1)"
    "ext s1 = scarce_env"
proof -
  let ?s = "sample_board scarce_env :: app_api"
  have "auth_token ?s = Some ''secret''"
    by (simp add: auth_token_def sample_board_def) (simp add: scarce_env_def sample_env_def sample_int_def)
  moreover have "stored secret_store ?s AUTH_NVS_NS AUTH_NVS_KEY = Some ''secret''"
    by (simp add: stored_def sample_board_def nvs_view_def)
  moreover have "err_of scarce_env t (Nvs (NvsOpen ns w)) = ESP_OK" for t ns w
    by (simp add: scarce_env_def sample_open)
  ultimately have "result (app_api_check_auth sample_change) ?s"
    using check_auth_stored [of secret_store ?s] by (simp add: scarce_law)
  moreover have "keeps (\<lambda>s :: app_api. ext s = scarce_env) (app_api_check_auth sample_change)"
    by (rule world_ctx(7) [OF base_ext])
  from keepsD [OF this, of ?s] have "ext (exec (app_api_check_auth sample_change) ?s) = scarce_env" by simp
  ultimately show thesis
    using that by (cases "run_state (app_api_check_auth sample_change) ?s") simp
qed

lemma scarce_run:
  obtains r s' where "http_middleware (Some (https_cfg config_defaults)) (Some (hd app_api_get_endpoints))
    sample_change (sample_board scarce_env) = Some (r, s' :: app_api)"
proof -
  have "\<exists>r s'. http_middleware (Some (https_cfg c)) (Some (hd app_api_get_endpoints)) req s = Some (r, s')"
    for c req and s :: app_api
    by (simp add: http_middleware_def app_api_get_endpoints_def prod_eq_iff)
  then show thesis using that by blast
qed

end
