(* ===== verification/Spec2Isabelle.thy ===== *)
theory Spec2Isabelle
  imports Sample_Requests Sample_Tasks Sample_Network Unchecked_Context
begin

text \<open>
  The ESP32 firmware of the home theater automation system
  (\<open>src/esp32_firmware\<close>): a shallow embedding of its C code and the theorems about it.

  The program. \<open>main/main.c\<close> boots thirteen stages one after the other and starts the
  tasks; after that the device reacts to timers, task rounds, network events and HTTPS
  requests. A panel talks to it over a WebSocket (JSON commands in, JSON events out) and
  three HTTPS endpoints (change and reset the password, update the firmware). It drives a
  projector over RS232, a projection screen over RS485, LEDs and a buzzer over a PCF8574
  port expander, and a two-row HD44780 display over a second one, and it reads two
  climate sensors and three buttons.

  The model. \<open>Platform\<close> explains it: the state is a record which every component extends
  with its own file-level variables, an operation is a term of the state monad, and every
  call to FreeRTOS, ESP-IDF, cJSON or the network stack is appended to \<open>trace\<close> and answered
  by \<open>ext\<close>, a record of arbitrary functions of the calls so far. So a theorem holds for
  every behaviour of those libraries, except where a hypothesis states a documented one:
    \<^item> \<open>take_ok\<close>, \<open>i2c_ok\<close>, \<open>ui_timer_ok\<close>: a mutex with an unbounded wait is obtained, the
      bus transfers succeed, the popup timer can be created;
    \<^item> \<open>nvs_law\<close>: \<open>nvs_get_str\<close> returns what was last set, if it fits;
    \<^item> \<open>queue_law\<close>: a FreeRTOS queue of ten messages is first in, first out;
    \<^item> \<open>recv_law\<close>: \<open>httpd_req_recv\<close> returns as many bytes as it says, and no more than asked for;
    \<^item> \<open>recv_live\<close>: a client that uploads does not stop for ever, so that after finitely many
      timeouts \<open>httpd_req_recv\<close> returns bytes or another error;
    \<^item> \<open>answers_allocated\<close>: the 20 bytes of a request's context and the text of an answer can be
      allocated (the code checks neither, and faults without the context:
      \<open>unallocated_context_faults\<close>);
    \<^item> \<open>parsed_strings_ok\<close>: a string item that cJSON parsed has a text;
    \<^item> \<open>boot_ok\<close>: the calls of the boot succeed (only for the theorem that the boot ends).
  Null pointers are \<open>None\<close>, heap blocks are entries of \<open>heap\<close>, and a use after free, a double
  free or a null dereference of one of those, or of a request context, sets \<open>mem_fault\<close>. What
  the libraries allocate is not in \<open>heap\<close>: using the handle of the stopped server, which the
  dispatcher does (\<open>stopped_server_still_used\<close>), does not set it. Machine integers wrap at
  their width.
  A loop that may not end is a \<open>partial_function (option)\<close>: the update's receive loop
  (\<open>ota_loop\<close>), the wait for the link (\<open>link_wait_loop\<close>) and the halt after a critical
  error (\<open>halt_loop\<close>); \<open>None\<close> means that it does not return. No fuel is used. The endless
  loop of a task is its body, one round of which is an operation.

  The theories, by part of the firmware (\<open>components/\<close> unless said otherwise):
    \<^item> \<open>Prelude\<close>, \<open>Platform\<close>: C strings, \<open>printf\<close>, the monad, calls, heap; the rules \<open>keeps_intro\<close>
      (an operation keeps a predicate) and \<open>run_simps\<close> (what an operation does to a state).
    \<^item> \<open>Helper\<close> (\<open>helper\<close>), \<open>C_Float\<close> (binary32 arithmetic), \<open>Nvs_Manager\<close> (\<open>nvs_manager\<close>),
      \<open>Storage\<close> (\<open>storage\<close>), \<open>Ntp_Service\<close> (\<open>ntp_service\<close>), \<open>Uart_Bus\<close> (\<open>uart_bus\<close>),
      \<open>Peripheral_Control\<close> (\<open>peripheral_control\<close>), \<open>Env_Sensor\<close> (\<open>env_sensor\<close>),
      \<open>Eth_W5500\<close> (\<open>eth_w5500\<close>).
    \<^item> \<open>I2c_Bus\<close> (\<open>i2c_bus\<close>), \<open>Io_Expander\<close> (\<open>io_expander\<close>), \<open>Sys_Ind\<close> (\<open>sys_ind\<close>),
      \<open>Lcd_Driver\<close> (\<open>lcd_driver\<close>), \<open>Ui\<close> (\<open>ui\<close>): the outputs. \<open>Machine\<close> puts their invariants
      together and says which predicates the parts above cannot break (\<open>app_pred\<close>).
    \<^item> \<open>Ui_Manager\<close> (\<open>ui_manager\<close>), \<open>Io_Button\<close> (\<open>io_button\<close>, \<open>io_input\<close>), \<open>Cyclic_Task\<close>
      (\<open>cyclic_task\<close>): the pages, the buttons, the sensors' task.
    \<^item> \<open>Ws_Queue\<close> (\<open>ws_queue\<close>), \<open>Ws_Dispatcher\<close> (\<open>ws_dispatcher\<close>), \<open>Ws_Cmd_Router\<close>
      (\<open>ws_cmd_router\<close>): messages to and from the panel. \<open>owned B s\<close> is the ownership of the
      heap: the payloads in the queue, the blocks \<open>B\<close> others hold, and nothing else.
    \<^item> \<open>Https_Server\<close> (\<open>https_server\<close>), \<open>App_Api\<close> and \<open>App_Api_Ota\<close> (\<open>app_api\<close>): the server, the
      middleware, the endpoints.
    \<^item> \<open>Main_Callbacks\<close>, \<open>App_Main\<close> (\<open>main/main.c\<close>): the callbacks and the boot.
    \<^item> \<open>Firmware\<close>, \<open>System\<close>: which predicates every operation of the program keeps
      (\<open>world_pred\<close>), and the firmware as a transition system: \<open>fw_step\<close> has a rule per task
      round, timer, event and request, and \<open>fw_reachable\<close> starts from a finished boot.
      \<open>Security\<close>, \<open>Request_Contexts\<close>, \<open>Runtime\<close>, \<open>Memory\<close> prove invariants of it: the flash store,
      the request contexts, the command table and the carousel's timer, the heap. \<open>Answers\<close>
      shows that every request returns and is answered once, \<open>Reset_Button\<close> that a held RESET
      button restores the default password.
      \<open>Stale_Server\<close>: what the dispatcher does after the server has stopped.
      \<open>Unchecked_Context\<close>: what a handler does without its request context.
    \<^item> Tasks that preempt one another. \<open>Task_Steps\<close>: programs of undivided steps (\<open>prog\<close>), pools
      of tasks and schedules. \<open>Bus_Sharing\<close>: the functions of \<open>io_expander\<close> and \<open>lcd_driver\<close> as
      such programs, with the input task's and the sensors' transfers; they are the functions
      of the model (\<open>task_alone\<close>). \<open>Bus_Protocol\<close>: the automaton of the two mutexes (\<open>after\<close>)
      and its invariants. \<open>Shared_Bus\<close>, \<open>Lcd_Sharing\<close>, \<open>Shared_Display\<close>: the outcome on the
      expander and on the display. \<open>Task_Liveness\<close>: every task finishes. \<open>Running_Tasks\<close>: the
      hypotheses hold in every reachable state. \<open>Client_Sharing\<close>: the dispatcher and the
      registration of its client, step by step.
    \<^item> \<open>Boot_Completes\<close>: the boot ends when nothing fails. \<open>Sample\<close>, \<open>Sample_Requests\<close>,
      \<open>Sample_Tasks\<close>, \<open>Sample_Network\<close>: a concrete board and environment on which the hypotheses hold, for the
      witnesses.

  Interfaces between components are locales, interpreted on the code's model:
  \<open>secure_compare\<close> (\<open>memcmp\<close>), \<open>output_pins\<close> (\<open>expander\<close>), \<open>uart_channel\<close> (\<open>rs485\<close>,
  \<open>rs232\<close>), \<open>kv_store\<close> (\<open>nvs\<close>) and \<open>payload_queue\<close> (\<open>wsq\<close>).

  What is shown, in this theory: invariants of every reachable state (the use of the two
  mutexes, the expander's register, the picture on the display against the nibbles on the
  bus, the carousel's timer, the passwords, the heap); that tasks on the bus neither
  deadlock nor lose an update, and where tasks do harm one another; who can change the stored password
  and how requests are refused, answered and cleaned up; that an update flashes exactly
  what it received; the serial frames of each command, against a table of the protocol; the
  queue and its dispatcher; the outputs; texts, configuration, sensors, network, buttons and the boot.

  Not modelled. \<open>fw_step\<close> runs an operation to its end. Preemption inside an operation is
  modelled for what tasks share on the bus (the mutexes, the shadow register, the expander
  and the display) and for the dispatcher's client; the plain variables of \<open>ui\<close>, \<open>ui_manager\<close>
  and \<open>sys_ind\<close> are not divided into steps, so the theorem about the picture on the display is
  about tasks that do not draw at the same time. A step there is one access of a variable or
  one call, and a transfer on the bus is one call. \<open>ESP_LOGx\<close> output. The content of FreeRTOS, ESP-IDF,
  cJSON, lwIP and the C library beyond the functions spelt out in \<open>Prelude\<close>. Task stack
  sizes and priorities. A timer command with block time 0 (\<open>xTimerStart\<close>, \<open>xTimerReset\<close>,
  \<open>xTimerStop\<close> and a tick count of 0) is taken as accepted: a full command queue of the timer
  service is not represented, and \<open>scroll_running\<close> reads the commands that way. Registration of the ISR service and of the SPI and UART drivers is
  the recorded call without its structure argument. The Android client
  (\<open>src/android_control_client\<close>) and the provisioning tool (\<open>src/esp32_provisioning_tool\<close>) are
  programs of their own in other languages.
\<close>

section \<open>The machine over a whole run\<close>

text \<open>C1: In every reachable state both mutexes are free, the nesting rule (the expander's
  mutex before the bus mutex, none taken twice, no byte to a PCF8574 without the bus mutex)
  was never broken, every byte ever written to the port expander kept its three input pins
  high, and the last one agrees with the shadow register of the driver.\<close>

theorem run_keeps_hardware_discipline:
  assumes "fw_reachable e c s" "take_ok e"
  shows "mutex_mon (trace s) = (False, False, True) \<and>
    (\<forall>d \<in> set (pcf_writes 0x20 (trace s)). d AND 0xE0 = 0xE0) \<and>
    pcf_writes 0x20 (trace s) \<noteq> [] \<and> last (pcf_writes 0x20 (trace s)) = port_shadow s OR 0xE0"
  using reachable_machine [OF assms]
  by (auto simp: machine_inv_def bus_inv_def inputs_high_def expander_coherent_def)

theorem run_keeps_hardware_discipline_witness:
  "\<exists>c s. fw_reachable (sample_env (\<lambda>_. None)) c (s :: app_api) \<and> mutex_mon (trace s) = (False, False, True)"
  using sample_reachable [of "\<lambda>_. None"] run_keeps_hardware_discipline [OF _ sample_laws(1)] by blast

text \<open>C2: Decoding the nibbles the driver clocked into the HD44780 gives a display whose two
  rows are the two saved lines, 16 characters each, in every reachable state in which no
  popup and no error is on the screen.\<close>

theorem run_shows_saved_lines:
  assumes "fw_reachable e c s" "take_ok e" "i2c_ok e" "ui_timer_ok e"
    and "\<not> is_error_active s" "\<not> is_temp_active s"
  shows "screen_row (trace s) 0 = bytes_of_string (saved_line_0 s) \<and>
    screen_row (trace s) 1 = bytes_of_string (saved_line_1 s) \<and>
    length (saved_line_0 s) = 16 \<and> length (saved_line_1 s) = 16"
  using reachable_ui_inv [OF assms(1-4)] assms(5,6)
  by (simp add: ui_inv_def shows_lines_def ui_lines_wf_def)

theorem run_shows_saved_lines_witness:
  "\<exists>c s. fw_reachable (sample_env (\<lambda>_. None)) c (s :: app_api) \<and>
     screen_row (trace s) 0 = bytes_of_string (saved_line_0 s) \<and> length (saved_line_1 s) = 16"
  using sample_idle [of "\<lambda>_. None"] run_shows_saved_lines [OF _ sample_laws(1-3)] by blast



text \<open>C4: Without that the code does fault: when the context of an authorised request cannot be
  allocated, the handler runs all the same and writes its result through \<open>req->user_ctx\<close>,
  which still points to the endpoint. Every plain endpoint does so on every path that
  returns.\<close>

theorem unallocated_context_faults:
  assumes "ep \<in> set app_api_get_endpoints" "\<not> ep_is_ws ep" "req_user_ctx req = UcEndpoint"
    and "run_state (app_api_check_auth req) s = (True, s1)"
    and "\<not> bool_of (ext s1) (trace s1) (Mem (Malloc 20))"
    and "http_middleware (Some (https_cfg c)) (Some ep) req s = Some (r, s')"
  shows "mem_fault s'"
  by (rule unallocated_context [OF assms])

theorem unallocated_context_faults_witness:
  "\<exists>r s'. http_middleware (Some (https_cfg config_defaults)) (Some (hd app_api_get_endpoints)) sample_change
      (sample_board scarce_env) = Some (r, s') \<and> mem_fault s'"
proof -
  obtain r and s' :: app_api where run: "http_middleware (Some (https_cfg config_defaults))
      (Some (hd app_api_get_endpoints)) sample_change (sample_board scarce_env) = Some (r, s')"
    by (rule scarce_run)
  obtain s1 :: app_api where a: "run_state (app_api_check_auth sample_change) (sample_board scarce_env) = (True, s1)"
    and e: "ext s1 = scarce_env" by (rule scarce_authorised)
  have "mem_fault s'"
    by (rule unallocated_context_faults [OF _ _ _ a _ run])
      (simp_all add: app_api_get_endpoints_def sample_change_def e scarce_env_def)
  with run show ?thesis by blast
qed

text \<open>C5: The carousel's timer runs exactly when the carousel is in automatic mode and not
  suspended by a firmware update, in every reachable state.\<close>

theorem run_carousel_timer:
  assumes "fw_reachable e c s"
  shows "scroll_running (trace s) \<longleftrightarrow> auto_mode s \<and> \<not> is_suspended s"
  by (rule reachable_carousel [OF assms])

theorem run_carousel_timer_witness:
  "\<exists>c s. fw_reachable (sample_env (\<lambda>_. None)) c (s :: app_api) \<and>
     (scroll_running (trace s) \<longleftrightarrow> auto_mode s \<and> \<not> is_suspended s)"
  using sample_reachable [of "\<lambda>_. None"] run_carousel_timer by blast

section \<open>Tasks at the same time\<close>

text \<open>C6: Any number of tasks that use the expander, the display and the sensors, preempted at
  any step and whatever errors the bus returns, all come to their end when every task gets a
  turn in each of as many rounds as they have steps: the two mutexes cannot deadlock.\<close>

theorem tasks_finish:
  assumes "\<forall>r\<in>set rs. {..<length jss} \<subseteq> fst ` set r" "sum_list (map task_steps jss) \<le> length rs"
  shows "all_done (run_tasks (concat rs) (tasks_start jss sh))"
  by (rule rounds_finish [OF assms])

theorem tasks_finish_witness:
  "all_done (run_tasks (concat turns_each) (tasks_start draw_and_set 0xFF))"
  by (rule tasks_finish [OF turns_each_fair(1,2)])

text \<open>C7: No change of a pin is lost: when tasks that ran at the same time, from any reachable
  state, are done, the shadow register and all that the expander received are those of calls
  of \<open>io_expander_set_level\<close> one after the other, in an order that keeps the order of every task.\<close>

theorem pin_changes_not_lost:
  assumes "fw_reachable e cfg s" "take_ok e" "all_done (run_tasks sched (tasks_start jss (port_shadow s)))"
  shows "\<exists>us. interleaves us (map task_pins jss) \<and>
    (let c = run_tasks sched (tasks_start jss (port_shadow s));
         s' = exec (for_each us (\<lambda>(p, l). do { io_expander_set_level p l; ret () })) s
     in pool_shadow c = port_shadow s' \<and>
        pcf_writes 0x20 (trace s @ pool_calls c) = pcf_writes 0x20 (trace s'))"
  using pins_linear [OF assms(3) reachable_ready [OF assms(1,2)]] by (simp only: Let_def)

theorem pin_changes_not_lost_witness:
  "\<exists>cfg s us. fw_reachable (sample_env (\<lambda>_. None)) cfg (s :: app_api) \<and> interleaves us [[], [(1, 0)]] \<and>
     pool_shadow (run_tasks (concat turns_each) (tasks_start draw_and_set (port_shadow s))) =
       port_shadow (exec (for_each us (\<lambda>(p, l). do { io_expander_set_level p l; ret () })) s)"
proof -
  obtain cfg and s :: app_api where s: "fw_reachable (sample_env (\<lambda>_. None)) cfg s" using sample_reachable by blast
  from pin_changes_not_lost [OF s sample_laws(1) draw_and_set_done] show ?thesis
    using s by (auto simp: Let_def draw_and_set_def task_pins_def)
qed

text \<open>C8: While one task draws, tasks that do not draw cannot harm its text: from any reachable
  state the display receives the bytes the drawing functions send when nothing else runs.\<close>

theorem sole_drawer_undisturbed:
  assumes "fw_reachable e cfg s" "take_ok e" "i2c_ok e"
    and "\<forall>x\<in>set sched. snd x = ESP_OK" "all_done (run_tasks sched (tasks_start jss (port_shadow s)))"
    and "i < length jss" "\<forall>j<length jss. j \<noteq> i \<longrightarrow> task_sections (jss ! j) = []"
  shows "pcf_writes 0x27 (trace s @ pool_calls (run_tasks sched (tasks_start jss (port_shadow s)))) =
    pcf_writes 0x27 (trace (exec (for_each (jss ! i) run_job) s))"
  by (rule sole_drawer [OF assms(4-6) _ reachable_lcd [OF assms(1-3)] reachable_ready [OF assms(1,2)]])
    (use assms(7) in blast)

theorem sole_drawer_undisturbed_witness:
  "\<exists>cfg s. fw_reachable (sample_env (\<lambda>_. None)) cfg (s :: app_api) \<and>
     pcf_writes 0x27 (trace s @ pool_calls (run_tasks (concat turns_each) (tasks_start draw_and_set (port_shadow s)))) =
     pcf_writes 0x27 (trace (exec (for_each [LcdPrint ''A''] run_job) s))"
proof -
  obtain cfg and s :: app_api where s: "fw_reachable (sample_env (\<lambda>_. None)) cfg s" using sample_reachable by blast
  from sole_drawer_undisturbed [OF s sample_laws(1,2) turns_each_fair(3) draw_and_set_done, of 0] show ?thesis
    using s by (auto simp: draw_and_set_def task_sections_def less_Suc_eq)
qed

text \<open>C9: Two tasks that draw at the same time can garble the display: the bus mutex is held for
  a nibble, and a schedule exists in which the display receives, instead of the two
  characters, the first halves of both and the second halves of both.\<close>

theorem display_bytes_can_mix:
  "\<exists>sched. (\<forall>x\<in>set sched. snd x = ESP_OK) \<and>
     (let c = run_tasks sched (tasks_start [[LcdPrint [x]], [LcdPrint [y]]] sh);
          a = of_nat (of_char x) :: byte; b = of_nat (of_char y) :: byte
      in all_done c \<and> lcd_decode (pcf_writes 0x27 (pool_calls c)) =
        [(True, a AND 0xF0 OR drop_bit 4 (b AND 0xF0)),
         (True, push_bit 4 a AND 0xF0 OR drop_bit 4 (push_bit 4 b AND 0xF0))])"
  by (rule printed_bytes_mix)

theorem display_bytes_can_mix_witness:
  "\<exists>sched. lcd_decode (pcf_writes 0x27 (pool_calls (run_tasks sched
     (tasks_start [[LcdPrint ''E''], [LcdPrint ''C'']] 0xFF)))) = [(True, 0x44), (True, 0x53)]"
  using display_bytes_can_mix [of "CHR ''E''" "CHR ''C''" "0xFF"] by (auto simp: Let_def)

text \<open>C10: The registered client is not protected either: the panel lost its connection and
  connects again while the dispatcher is about to send. In either order the two operations
  leave the new connection registered; interleaved, they can leave none, and the panel
  receives nothing more.\<close>

theorem late_failure_drops_client:
  assumes "s_server_handle s = Some h" "s_active_socket s \<noteq> - 1" "new \<noteq> - 1" "new \<noteq> s_active_socket s"
    and "\<forall>t. int_of (ext s) t (Httpd (WsFdInfo h (s_active_socket s))) \<noteq> 2"
    and "\<forall>t. int_of (ext s) t (Httpd (WsFdInfo h new)) = 2"
    and "\<forall>t txt. err_of (ext s) t (Httpd (WsSendAsync h new txt)) = ESP_OK"
  shows "s_active_socket (exec (do { ws_task_send ev p; ws_dispatcher_add_client h new }) s) = new \<and>
    s_active_socket (exec (do { ws_dispatcher_add_client h new; ws_task_send ev p }) s) = new \<and>
    (\<exists>sched s'. take_turns sched ([ws_task_send_turns ev p Finished, add_client_turns h new Finished], s) =
       ([Finished, Finished], s') \<and> s_active_socket s' = - 1)"
proof -
  have "\<exists>s'. take_turns late_schedule ([ws_task_send_turns ev p Finished, add_client_turns h new Finished], s) =
       ([Finished, Finished], s') \<and> s_active_socket s' = - 1"
    using late_failure [OF assms(1,2,4), of ev p] assms(5) by (auto split: prod.splits)
  then show ?thesis using orders_register [OF assms(1,3), of ev p] assms(6,7) by blast
qed

theorem late_failure_drops_client_witness:
  "\<exists>sched s'. take_turns sched ([ws_task_send_turns ''env'' 0 Finished, add_client_turns 1 7 Finished], reconnect_board) =
     ([Finished, Finished], s') \<and> s_active_socket s' = - 1"
  using late_failure_drops_client [of reconnect_board 1 7 "''env''" 0] by simp

text \<open>C11: When the link goes down the server is stopped and freed, but the dispatcher keeps its
  handle: the next message it takes is sent through the handle of the stopped server.\<close>

theorem stopped_server_still_used:
  fixes s :: "'x app_api_scheme" and c :: system_config
  assumes "server s" "s_server_handle s = Some h" "s_active_socket s \<noteq> - 1"
    and "result ws_queue_receive (exec (https_server_connection_handler (Some (https_cfg c)) EthDisconnected) s) \<noteq> None"
  shows "\<exists>u v. trace (exec ws_task_round (exec (https_server_connection_handler (Some (https_cfg c)) EthDisconnected) s)) =
    trace s @ Httpd SslStop # u @ Httpd (WsFdInfo h (s_active_socket s)) # v"
  by (rule stale_handle_used [OF assms])

theorem stopped_server_still_used_witness:
  "\<exists>u v. trace (exec ws_task_round (exec (https_server_connection_handler (Some (https_cfg config_defaults)) EthDisconnected) reconnect_board)) =
    trace reconnect_board @ Httpd SslStop # u @ Httpd (WsFdInfo 1 5) # v"
proof -
  have "result ws_queue_receive (exec (https_server_connection_handler (Some (https_cfg config_defaults)) EthDisconnected) reconnect_board) \<noteq> None"
    by (rule message_after_stop) simp_all
  from stopped_server_still_used [OF _ _ _ this] show ?thesis by simp
qed

section \<open>Passwords\<close>

text \<open>C12: A step changes the flash store only if it is a change or reset request whose header
  carried the stored password, or a scan of the buttons that brings the default password
  back. Every other event leaves the store as it was.\<close>

theorem store_changes_authorised:
  assumes "fw_step c s s'" "nvs_law f (ext s)"
  shows "stored f s' = stored f s \<or>
    (\<exists>ep req r tok. ep \<in> set app_api_get_endpoints \<and>
      ep_uri ep \<in> {''/api/change-password'', ''/api/reset-password''} \<and>
      http_middleware (Some (https_cfg c)) (Some ep) req s = Some (r, s') \<and>
      auth_token s = Some tok \<and> stored f s AUTH_NVS_NS AUTH_NVS_KEY = Some tok) \<or>
    s' = exec io_input_round s \<and>
      stored f s' AUTH_NVS_NS AUTH_NVS_KEY = stored f s AUTH_NVS_NS AUTH_NVS_DEFAULT_KEY"
  using step_password [OF assms] by blast

theorem store_changes_authorised_witness:
  "\<exists>s' tok. fw_step config_defaults (sample_board (sample_env secret_store)) s' \<and>
     stored secret_store s' AUTH_NVS_NS AUTH_NVS_KEY = Some ''fresh'' \<and>
     (s' = exec io_input_round (sample_board (sample_env secret_store)) \<or>
      auth_token (sample_board (sample_env secret_store)) = Some tok \<and>
      stored secret_store (sample_board (sample_env secret_store)) AUTH_NVS_NS AUTH_NVS_KEY = Some tok)"
proof -
  let ?s = "sample_board (sample_env secret_store)"
  obtain r s' where run: "http_middleware (Some (https_cfg config_defaults)) (Some (hd app_api_get_endpoints)) sample_change ?s = Some (r, s')"
    and fresh: "stored secret_store s' AUTH_NVS_NS AUTH_NVS_KEY = Some ''fresh''"
    by (rule sample_change_run [OF refl])
  have step: "fw_step config_defaults ?s s'"
    by (rule fw_step.request [OF _ _ run]) (simp_all add: app_api_get_endpoints_def)
  have "stored secret_store s' AUTH_NVS_NS AUTH_NVS_KEY \<noteq> stored secret_store ?s AUTH_NVS_NS AUTH_NVS_KEY"
    by (simp add: fresh stored_sample)
  then have "stored secret_store s' \<noteq> stored secret_store ?s" by auto
  with store_changes_authorised [OF step, of secret_store] step fresh show ?thesis by auto
qed

text \<open>C13: The default password of the configuration stays in the store from the end of the
  boot on, and there is always an active password.\<close>

theorem run_keeps_passwords:
  assumes "fw_reachable e c s"
  shows "stored f s AUTH_NVS_NS AUTH_NVS_DEFAULT_KEY = Some (cfg_default_password c) \<and>
    stored f s AUTH_NVS_NS AUTH_NVS_KEY \<noteq> None"
  using reachable_store [OF assms] by (simp add: passwords_kept_def)

theorem run_keeps_passwords_witness:
  "\<exists>c s. fw_reachable (sample_env (\<lambda>_. None)) c (s :: app_api) \<and>
     stored (\<lambda>_. None) s AUTH_NVS_NS AUTH_NVS_DEFAULT_KEY = Some (cfg_default_password c)"
  using sample_reachable [of "\<lambda>_. None"] run_keeps_passwords by blast

text \<open>C14: A request is authorised exactly when its header carries a password of 1 to 63
  characters that equals the stored one and the store can be opened.\<close>

theorem authorised_iff_password:
  assumes "nvs_law f (ext s)"
  shows "result (app_api_check_auth req) s \<longleftrightarrow>
    (\<exists>tok. auth_token s = Some tok \<and> tok \<noteq> [] \<and> length tok < 64 \<and>
      stored f s AUTH_NVS_NS AUTH_NVS_KEY = Some tok \<and>
      err_of (ext s) (trace s @ auth_calls) (Nvs (NvsOpen AUTH_NVS_NS False)) = ESP_OK)"
  by (rule check_auth_stored [OF assms])

theorem authorised_iff_password_witness:
  "result (app_api_check_auth sample_change) (sample_board (sample_env (\<lambda>_. Some ''secret''))) \<and>
   \<not> result (app_api_check_auth sample_change) (sample_board (sample_env (\<lambda>_. Some ''other'')))"
  using authorised_iff_password [of "\<lambda>_. Some ''secret''" "sample_board (sample_env (\<lambda>_. Some ''secret''))" sample_change]
    authorised_iff_password [of "\<lambda>_. Some ''other''" "sample_board (sample_env (\<lambda>_. Some ''other''))" sample_change]
  by (simp add: stored_sample sample_token sample_open)

text \<open>C15: No handler of the firmware runs for a request that is not authorised: the
  middleware answers 401 and nothing of the request has any further effect.\<close>

theorem unauthorised_refused:
  assumes "ep \<in> set app_api_get_endpoints" "run_state (app_api_check_auth req) s = (False, s1)"
  shows "http_middleware (Some (https_cfg c)) (Some ep) req s =
    Some (ESP_FAIL, s1\<lparr>trace := trace s1 @ [Httpd (RespSendErr 401)]\<rparr>)"
proof (rule middleware_refused)
  show "ep_handler ep = Some (the (ep_handler ep))" "\<not> ep_is_public ep"
    using assms(1) by (auto simp: app_api_get_endpoints_def)
qed (use assms(2) in \<open>simp add: https_cfg_def\<close>)

theorem unauthorised_refused_witness:
  "\<exists>s1. http_middleware (Some (https_cfg config_defaults)) (Some (hd app_api_get_endpoints)) sample_change
     (sample_board (sample_env (\<lambda>_. Some ''other''))) =
     Some (ESP_FAIL, s1\<lparr>trace := trace s1 @ [Httpd (RespSendErr 401)]\<rparr>)"
proof -
  obtain s1 where "run_state (app_api_check_auth sample_change) (sample_board (sample_env (\<lambda>_. Some ''other''))) = (False, s1)"
    using sample_refused [of sample_change]
    by (cases "run_state (app_api_check_auth sample_change) (sample_board (sample_env (\<lambda>_. Some ''other'')))") simp
  then show ?thesis
    using unauthorised_refused [of "hd app_api_get_endpoints" sample_change _ s1 config_defaults]
    by (auto simp: app_api_get_endpoints_def)
qed

text \<open>C16: A change request that alters the store carried an old and a new password, the old
  one was the stored one, and exactly the active password becomes the new one.\<close>

theorem change_needs_old_password:
  assumes "nvs_law f (ext s)"
  shows "stored f (exec (app_api_auth_change_password req) s) = stored f s \<or>
    (\<exists>old_pass new_pass. change_request req s = Some (old_pass, new_pass) \<and>
       stored f s AUTH_NVS_NS AUTH_NVS_KEY = Some old_pass \<and>
       stored f (exec (app_api_auth_change_password req) s) AUTH_NVS_NS AUTH_NVS_KEY = Some new_pass \<and>
       (\<forall>ns k. (ns, k) \<noteq> (AUTH_NVS_NS, AUTH_NVS_KEY) \<longrightarrow>
          stored f (exec (app_api_auth_change_password req) s) ns k = stored f s ns k))"
  by (rule change_password_store [OF assms])

theorem change_needs_old_password_witness:
  "let s = sample_board (sample_env secret_store); s' = exec (app_api_auth_change_password sample_change) s
   in stored secret_store s' AUTH_NVS_NS AUTH_NVS_KEY = Some ''fresh'' \<and>
      stored secret_store s' AUTH_NVS_NS AUTH_NVS_DEFAULT_KEY = Some ''secret''"
proof -
  let ?s = "sample_board (sample_env secret_store)"
  have "stored secret_store (exec (app_api_auth_change_password sample_change) ?s) AUTH_NVS_NS AUTH_NVS_KEY =
      Some ''fresh''"
    by (rule sample_change_stores [OF sample_ext]) (simp_all add: stored_sample sample_change_def)
  then show ?thesis
    using change_needs_old_password [of secret_store ?s sample_change] by (auto simp: stored_sample)
qed

text \<open>C17: A reset request either leaves the store alone or makes the default password the
  active one, and touches nothing else.\<close>

theorem reset_restores_default:
  assumes "nvs_law f (ext s)"
  shows "stored f (exec (app_api_auth_reset_password req) s) = stored f s \<or>
    stored f (exec (app_api_auth_reset_password req) s) =
      (stored f s)(AUTH_NVS_NS := (stored f s AUTH_NVS_NS)(AUTH_NVS_KEY :=
        stored f s AUTH_NVS_NS AUTH_NVS_DEFAULT_KEY))"
  using reset_password_store [OF assms, of req] by (simp add: key_or_default_def)

theorem reset_restores_default_witness:
  "stored secret_store (exec (app_api_auth_reset_password sample_change) (sample_board (sample_env secret_store)))
     AUTH_NVS_NS AUTH_NVS_KEY = Some ''secret''"
  using reset_restores_default [of secret_store "sample_board (sample_env secret_store)" sample_change]
  by (auto simp: stored_sample)

text \<open>C18: The way back into a device whose password is lost: when the default password is
  readable and the store can be written, forty rounds of the input task with the RESET button
  held, from a state where it was released, make the default password the active one. This
  is what the code does with a press of two seconds; the comment in \<open>io_button_handlers.h\<close>
  calls that press ignored and promises instead that one of five seconds wipes the store and
  restarts the device, for which there is no code.\<close>

theorem reset_button_restores:
  fixes s :: "'x app_api_scheme"
  assumes "nvs_law f (ext s)" "nvs_writable (ext s)" "reset_held (ext s)"
    and "map btn_cfg (btns s) = io_button_get_buttons" "hold_timer (btns s ! 0) = 0"
    and "stored f s AUTH_NVS_NS AUTH_NVS_DEFAULT_KEY = Some d" "length d < 64"
  shows "stored f ((exec io_input_round ^^ 40) s) AUTH_NVS_NS AUTH_NVS_KEY = Some d"
  by (rule held_reset_stores [OF assms])

theorem reset_button_restores_witness:
  "stored lost_store sample_held_board AUTH_NVS_NS AUTH_NVS_KEY = Some ''other'' \<and>
   stored lost_store ((exec io_input_round ^^ 40) sample_held_board) AUTH_NVS_NS AUTH_NVS_KEY = Some ''secret''"
  using reset_button_restores [of lost_store sample_held_board "''secret''"]
  by (simp add: sample_held sample_held_start)

section \<open>Firmware update\<close>

text \<open>C19: An update that makes the new image bootable has written to the partition exactly
  the bytes it received from the client, in their order, as many as the request announced.\<close>

theorem booted_image_is_received:
  assumes "app_api_ota_update req s = Some (r, s')" "\<not> boot_set (ext s) (trace s)"
    and "recv_law (ext s)" "boot_set (ext s) (trace s')"
  shows "\<exists>b. received (ext s) (trace s') = received (ext s) (trace s) @ b \<and>
    flashed (trace s') = flashed (trace s) @ b \<and> length b = nat (ota_total req)"
  by (rule booted_flash [OF assms])

theorem booted_image_is_received_witness:
  "\<exists>s'. app_api_ota_update sample_upload busy_board = Some (ESP_OK, s') \<and>
     received (ext busy_board) (trace s') = [0x41] \<and> flashed (trace s') = [0x41]"
proof -
  obtain s' where s': "app_api_ota_update sample_upload busy_board = Some (ESP_OK, s')"
      "boot_set (ext busy_board) (trace s')" "flashed (trace s') = [0x41]"
    using sample_update by blast
  moreover have "recv_law (ext busy_board)" "trace busy_board = []"
    by (simp_all add: busy_board_def sample_board_def)
  ultimately show ?thesis
    using booted_image_is_received [OF s'(1)] by (auto simp: received_def boot_set_def)
qed

text \<open>C20: However an update ends, the carousel stays suspended exactly when the image was
  made bootable; every failure resumes it.\<close>

theorem update_resumes_on_failure:
  assumes "app_api_ota_update req s = Some (r, s')" "\<not> boot_set (ext s) (trace s)"
  shows "is_suspended s' \<longleftrightarrow> boot_set (ext s) (trace s')"
  by (rule update_suspended [OF assms])

theorem update_resumes_on_failure_witness:
  "\<exists>s'. app_api_ota_update sample_upload busy_board = Some (ESP_OK, s') \<and> is_suspended s'"
  using sample_update update_resumes_on_failure [of sample_upload busy_board]
  by (auto simp: busy_board_def sample_board_def boot_set_def)

text \<open>C21: Against a client that announces bytes and stops sending, an update that got past its
  checks never returns: the receive is retried after every timeout, without a bound.\<close>

theorem stalled_update_hangs:
  assumes "recv_stalls (ext s)" "result (ota_begin req) s = None" "0 < ota_total req"
  shows "app_api_ota_update req s = None"
  by (rule stalled_update [OF assms])

theorem stalled_update_hangs_witness: "app_api_ota_update sample_upload stalled_board = None"
  using stalled_update_hangs [OF stalled_begin] by simp

section \<open>Requests\<close>

text \<open>C22: The middleware returns from every request to a plain endpoint, and it has sent exactly
  one answer, provided a client that uploads does not stall for ever and two small
  allocations succeed.\<close>

theorem request_answered_once:
  assumes "ep \<in> set app_api_get_endpoints" "\<not> ep_is_ws ep" "recv_live (ext s)" "answers_allocated (ext s)"
  shows "\<exists>r s'. http_middleware (Some (https_cfg c)) (Some ep) req s = Some (r, s') \<and>
    answers_sent (trace s') = answers_sent (trace s) + 1"
proof -
  obtain r s' where run: "http_middleware (Some (https_cfg c)) (Some ep) req s = Some (r, s')"
    using middleware_returns [OF assms(1,3)] by blast
  from request_answered [OF assms(4) _ assms(1,2) run, of "answers_sent (trace s)"] run
  show ?thesis by (simp add: answered_def)
qed

theorem request_answered_once_witness:
  "\<exists>r s'. http_middleware (Some (https_cfg config_defaults)) (Some (hd app_api_get_endpoints)) sample_change
      (sample_board (sample_env secret_store)) = Some (r, s') \<and> answers_sent (trace s') = 1"
  using request_answered_once [of "hd app_api_get_endpoints" "sample_board (sample_env secret_store)" config_defaults sample_change]
  by (simp add: app_api_get_endpoints_def) (simp add: sample_board_def answers_sent_def)

text \<open>C23: Whatever happens to a request that the server hands to the middleware, no request
  context outlives it: the table of live contexts is the one before.\<close>

theorem request_frees_context:
  assumes "ep \<in> set app_api_get_endpoints" "\<not> ep_is_ws ep" "ctx_wf s" "req_user_ctx req = UcEndpoint"
    and "http_middleware (Some (https_cfg c)) (Some ep) req s = Some (r, s')"
  shows "api_ctxs s' = api_ctxs s"
  by (rule middleware_ctxs [OF assms])

theorem request_frees_context_witness:
  "\<exists>r s'. http_middleware (Some (https_cfg config_defaults)) (Some (hd app_api_get_endpoints)) sample_change
      (sample_board (sample_env secret_store)) = Some (r, s') \<and> api_ctxs s' = Map.empty"
proof -
  obtain r s' where "http_middleware (Some (https_cfg config_defaults)) (Some (hd app_api_get_endpoints)) sample_change
      (sample_board (sample_env secret_store)) = Some (r, s')"
    by (rule sample_change_run [OF refl])
  then show ?thesis
    using request_frees_context [of "hd app_api_get_endpoints" "sample_board (sample_env secret_store)" sample_change config_defaults r s']
    by (simp add: app_api_get_endpoints_def ctx_wf_def sample_board_def sample_change_def)
qed

text \<open>C24: What a handler reports is what the client reads. A refusal answers with its status and
  the JSON object of its code (\<open>0x\<close> and upper-case hexadecimal) and its name, which is the text
  the handler wrote for the code, or the library's name of the code where that text is just
  the name of a variable; success answers 204, a value 200 and the value, an error that the
  handler returns 500 and the object of that error. Nothing else is sent, the report's code
  is what the middleware sees, and the context's block and its entry in the table are gone.
  (\<open>middleware_serves\<close>: \<open>served\<close> is what the middleware runs.)\<close>

theorem report_is_answered:
  assumes "report_wf rep" "bool_of (ext s) (trace s) (Mem (Malloc 20))"
  shows "result (served rep req) s = report_code rep \<and>
    trace (exec (served rep req) s) = trace s @ Mem (Malloc 20) # reply (ext s) rep @ [Mem (Free (next_ctx s))] \<and>
    api_ctxs (exec (served rep req) s) = (api_ctxs s)(next_ctx s := None)"
  by (rule served_reply [OF assms])

theorem report_is_answered_witness:
  "trace (exec (served (Refusal 403 0x10001 ''APP_ERR_INVALID_PASSWORD'') sample_change)
      (sample_board (sample_env secret_store))) =
    [Mem (Malloc 20), Httpd (RespSetStatus ''403''), Httpd (RespSetType ''application/json''),
     Httpd (RespSend ''{}''), Mem (Free 0)]"
proof -
  have "dec_str 403 = ''403''" by code_simp
  then show ?thesis
    using report_is_answered [of "Refusal 403 0x10001 ''APP_ERR_INVALID_PASSWORD''"
        "sample_board (sample_env secret_store)" sample_change]
    by (simp add: json_reply_def error_body_def sample_board_def sample_env_def idle_env_def)
qed

section \<open>Commands\<close>

text \<open>C25: In every reachable state a message of the panel causes exactly the serial frames that
  the protocol (\<open>serial_protocol\<close>, a table of names and bytes) has for the action it names, in
  their order, on their line, and no other frame. The field with the name is \<open>action\<close>, as in
  the README and the panel's messages; the comment in \<open>ws_cmd_router.h\<close> calls it \<open>cmd\<close>.\<close>

theorem command_sends_its_frames:
  assumes "fw_reachable e c s" "parsed_strings_ok e"
  shows "uart_writes (trace (exec (ws_cmd_handle payload) s)) =
    uart_writes (trace s) @ action_frames e payload"
  using handle_frames [OF reachable_router [OF assms(1)], of payload] reachable_ext [OF assms(1)] assms(2)
  by simp

theorem command_sends_its_frames_witness:
  "\<exists>c s. fw_reachable (sample_env (\<lambda>_. None)) c (s :: app_api) \<and>
     uart_writes (trace (exec (ws_cmd_handle ''cmd_screen_up'') s)) =
       uart_writes (trace s) @ [(2, screen_frame 0xDD)]"
proof -
  have "action_frames (sample_env (\<lambda>_. None)) ''cmd_screen_up'' = [(2, screen_frame 0xDD)]"
    by (simp add: action_frames_def message_action_def sample_env_def idle_env_def sample_json_item_def
        serial_protocol_def c_string_def Let_def)
  then show ?thesis
    using sample_reachable [of "\<lambda>_. None"] command_sends_its_frames [OF _ sample_laws(5)] by metis
qed

text \<open>C26: A message that is not JSON, has no \<open>action\<close> or names an unknown one changes nothing in
  a running device. In particular one that names a command in a \<open>cmd\<close> field only, which
  \<open>ws_cmd_router.h\<close> documents as the field to route by, is ignored.\<close>

theorem unknown_command_ignored:
  assumes "fw_reachable e c s" "parsed_strings_ok e"
    and "\<forall>a. message_action e payload = Some a \<longrightarrow> a \<notin> fst ` set ws_cmd_table"
  shows "exec (ws_cmd_handle payload) s = s"
  by (rule run_handle_ignored)
    (use assms reachable_ext [OF assms(1)] reachable_router [OF assms(1)] in simp_all)

theorem unknown_command_ignored_witness:
  "\<exists>c s. fw_reachable (sample_env (\<lambda>_. None)) c (s :: app_api) \<and> exec (ws_cmd_handle ''cmd_dance'') s = s"
proof -
  have "\<forall>a. message_action (sample_env (\<lambda>_. None)) ''cmd_dance'' = Some a \<longrightarrow> a \<notin> fst ` set ws_cmd_table"
    by (simp add: message_action_def sample_env_def idle_env_def sample_json_item_def
        ws_cmd_table_def c_string_def Let_def)
  moreover obtain c and s :: app_api where s: "fw_reachable (sample_env (\<lambda>_. None)) c s"
    using sample_reachable by blast
  ultimately have "exec (ws_cmd_handle ''cmd_dance'') s = s" by (intro unknown_command_ignored [OF s]) simp_all
  with s show ?thesis by blast
qed

section \<open>The queue to the panel\<close>

text \<open>C27: Sending copies the text to a fresh block, the only change of the heap, and appends the
  block to the queue under its name cut to 15 characters; when there is no memory or the
  queue is full, the queue and the heap are exactly as before. The caller keeps its own text
  (\<open>ws_queue.h\<close> says that the queue takes it over and frees it).\<close>

theorem queue_send_appends:
  assumes "owned B s"
  shows "owned B (exec (ws_queue_send ev d) s) \<and>
    (if result (ws_queue_send ev d) s
     then \<exists>p. heap s p = None \<and> heap (exec (ws_queue_send ev d) s) = (heap s)(p := Some d) \<and>
            pending (exec (ws_queue_send ev d) s) = pending s @ [(c_trunc 16 ev, p)]
     else heap (exec (ws_queue_send ev d) s) = heap s \<and> pending (exec (ws_queue_send ev d) s) = pending s)"
  using send_cases [OF assms] send_heap [OF assms] by blast

theorem queue_send_appends_witness:
  "\<exists>p. pending (exec (ws_queue_send ''env'' ''{}'') (sample_board (sample_env secret_store)\<lparr>s_ws_queue := True\<rparr>)) = [(''env'', p)]"
proof -
  let ?s = "sample_board (sample_env secret_store)\<lparr>s_ws_queue := True\<rparr>"
  have "result (ws_queue_send ''env'' ''{}'') ?s" "pending ?s = []"
    by (simp_all add: ws_queue_send_def malloc_str_def run_malloc_buf sample_board_def sample_env_def pending_def)
  then show ?thesis
    using queue_send_appends [OF sample_owned [of secret_store], of "''env''" "''{}''"] by (auto simp: c_trunc_def)
qed

text \<open>C28: One round of the dispatcher leaves every block with its owner and puts on the wire at
  most one frame: the message at the head of the queue, to the one registered client. There
  is no list of clients and no broadcast to all of them, as \<open>ws_dispatcher.h\<close> describes.\<close>

theorem dispatcher_sends_head:
  assumes "owned B s"
  shows "owned B (exec ws_task_round s) \<and>
    (\<exists>fs. sent_frames (trace (exec ws_task_round s)) = sent_frames (trace s) @ fs \<and>
      (fs = [] \<or> (\<exists>ev p d h rest. pending s = (ev, p) # rest \<and> heap s p = Some d \<and>
         s_server_handle s = Some h \<and> s_active_socket s \<noteq> - 1 \<and>
         fs = [(h, s_active_socket s, frame_text ev d)])))"
  using task_round_owned [OF assms] round_sends [OF assms] by blast

theorem dispatcher_sends_head_witness:
  "\<not> mem_fault (exec ws_task_round (sample_board (sample_env secret_store)\<lparr>s_ws_queue := True\<rparr>))"
  using dispatcher_sends_head [OF sample_owned [of secret_store]] by (auto simp: owned_def)

section \<open>Outputs\<close>

text \<open>C29: A sound of n beeps (below 2^30, where the counter would overflow) is n phases on and n
  off, whatever its length, and the buzzer's pin follows: after k ticks of its timer bit 4 of
  the byte last sent to the port expander, like that of the shadow register, is low (the
  buzzer sounds) exactly when k is even and below 2n.\<close>

theorem buzzer_beeps_n_times:
  assumes "0 < n" "n < 2 ^ 30" "buzzer_timer s" "io_mutex s"
  shows "let u = exec (buzzer_ticks k) (exec (sys_ind_buzzer_sound n t) s)
    in (\<not> bit (last (pcf_writes 0x20 (trace u))) 4 \<longleftrightarrow> even k \<and> int k < 2 * n) \<and>
      (\<not> bit (port_shadow u) 4 \<longleftrightarrow> even k \<and> int k < 2 * n) \<and>
      (buzzer_state u \<longleftrightarrow> even k \<and> int k < 2 * n)"
  using buzzer_phases [OF assms(1-3), of k t] buzzer_ticks_driven [OF buzzer_sound_driven [OF assms(4,3)], of k n t]
  unfolding Let_def buzzer_driven_def pin_level_def by blast

theorem buzzer_beeps_n_times_witness:
  "let s = exec (sys_ind_buzzer_sound 2 100) (sample_board (sample_env secret_store)\<lparr>buzzer_timer := True, io_mutex := True\<rparr>)
   in \<not> bit (last (pcf_writes 0x20 (trace (exec (buzzer_ticks 2) s)))) 4 \<and>
      bit (last (pcf_writes 0x20 (trace (exec (buzzer_ticks 4) s)))) 4"
  using buzzer_beeps_n_times [of 2 "sample_board (sample_env secret_store)\<lparr>buzzer_timer := True, io_mutex := True\<rparr>" 2 100]
    buzzer_beeps_n_times [of 2 "sample_board (sample_env secret_store)\<lparr>buzzer_timer := True, io_mutex := True\<rparr>" 4 100]
  by (simp add: Let_def)

section \<open>Texts and configuration\<close>

text \<open>C30: The comparison of passwords answers 0 exactly when the two buffers agree on their
  first n bytes, and it reads all of those: for any n it is defined exactly when both buffers
  have n bytes, so a difference does not end it early.\<close>

theorem comparison_decides_equality:
  assumes "n \<le> length a" "n \<le> length b"
  shows "(\<exists>r. helper_secure_memcmp a b n = Some r \<and> (r = 0 \<longleftrightarrow> take n a = take n b)) \<and>
    (\<forall>m. helper_secure_memcmp a b m \<noteq> None \<longleftrightarrow> m \<le> length a \<and> m \<le> length b)"
proof -
  obtain r where r: "helper_secure_memcmp a b n = Some r" using memcmp.compare_in_range [OF assms] by blast
  moreover have "r = 0 \<longleftrightarrow> take n a = take n b" using secure_memcmp_zero_iff [OF assms] r by simp
  ultimately show ?thesis using secure_memcmp_defined by (intro conjI allI exI [of _ r]) simp_all
qed

theorem comparison_decides_equality_witness:
  "\<exists>r. helper_secure_memcmp [1, 2] [1, 3] 2 = Some r \<and> r \<noteq> 0"
  using comparison_decides_equality [of 2 "[1, 2]" "[1, 3]"] by auto

text \<open>C31: The uptime text is never cut by the buffers it is written to and reads back as the
  whole minutes of the counter, over the counter's full range.\<close>

theorem uptime_text_round_trip:
  assumes "12 \<le> n"
  shows "uptime_minutes (helper_format_uptime t n) = unat t div 60"
proof -
  have "length (uptime_text (unat t)) \<le> 11" by (rule length_uptime_text) (use unsigned_less [of t, where ?'a = nat] in simp)
  with assms show ?thesis by (simp add: format_uptime_eq c_trunc_def uptime_minutes_text)
qed

theorem uptime_text_round_trip_witness:
  "uptime_minutes (helper_format_uptime 4294967295 12) = 71582788"
  using uptime_text_round_trip [of 12 4294967295] by simp

text \<open>C32: Loading the configuration gives one whose texts fit their buffers and whose port is
  a TCP port, whatever the file holds or whether it can be read at all.\<close>

theorem loaded_configuration_fits:
  "\<exists>c. snd (result (storage_load_system_config (Some c0)) s) = Some c \<and> config_wf c"
  using load_config_wf [of c0 s] by (simp split: option.splits)

section \<open>Sensors\<close>

text \<open>C33: The compensation of the temperature in 32-bit arithmetic is the exact integer
  formula, for calibrations around the data sheet's and every 20-bit sample.\<close>

theorem temperature_is_exact:
  assumes "calib_moderate c" "0 \<le> adc" "adc < 2 ^ 20"
  shows "comp_T c adc = (T_fine_exact c adc, (T_fine_exact c adc * 5 + 128) div 256)"
  by (rule comp_T_exact [OF assms])

theorem temperature_is_exact_witness:
  "comp_T (bmp_calib (sample_board idle_env)) 519888 = (128422, 2508)"
  using temperature_is_exact [of "bmp_calib (sample_board idle_env)" 519888]
  by (simp add: calib_moderate_def T_fine_exact_def sample_board_def)

text \<open>C34: Whatever the bus returns, the reading the sensors' task sends has a humidity between 0
  and 100 percent and an AHT20 temperature between -50 and 150 degrees, up to a thousandth
  for rounding. When the transfer from the BMP280 succeeds, its pressure is a finite number
  from 0 to 167773 hPa and its temperature within 227 degrees for a calibration around the
  data sheet's and within 83887 for any: the bounds of the arithmetic, the sensor's own range
  is not checked. When it fails, its two fields are the caller's. The text of the reading is
  never cut by the buffer of 128 bytes.\<close>

theorem reading_in_range_and_whole:
  assumes "float_wf (pres_bmp d0)"
  shows "\<exists>d. result (env_sensors_read_all (Some d0)) s = (ESP_OK, Some d) \<and> aht_in_range d \<and>
    (if err_of (ext s) (trace s @ aht_calls) (I2c (I2cWriteRead 0x77 [0xF7] 6 100)) = ESP_OK
     then bmp_in_range (bmp_calib s) d
     else temp_bmp d = temp_bmp d0 \<and> pres_bmp d = pres_bmp d0) \<and>
    (\<forall>free up. c_trunc 128 (env_json d free up) = env_json d free up)"
proof -
  obtain d where d: "result (env_sensors_read_all (Some d0)) s = (ESP_OK, Some d)" "aht_in_range d"
    "if err_of (ext s) (trace s @ aht_calls) (I2c (I2cWriteRead 0x77 [0xF7] 6 100)) = ESP_OK
     then bmp_in_range (bmp_calib s) d else temp_bmp d = temp_bmp d0 \<and> pres_bmp d = pres_bmp d0"
    using read_all_ok [of d0 s] by blast
  then have "reading_printable d"
    using bmp_printable [OF d(2)] assms by (auto simp: reading_printable_def split: if_splits)
  with d env_json_not_cut show ?thesis by blast
qed

theorem reading_in_range_and_whole_witness:
  "\<exists>d. result (env_sensors_read_all (Some (stack_env (sample_board idle_env) []))) (sample_board idle_env) = (ESP_OK, Some d) \<and>
     aht_in_range d \<and> bmp_in_range (bmp_calib (sample_board idle_env)) d"
  using reading_in_range_and_whole [of "stack_env (sample_board idle_env) []" "sample_board idle_env"]
  by (auto simp: sample_board_def idle_env_def)

section \<open>Network\<close>

text \<open>C35: The boot's wait for the link, in terms of what the network answers: it returns exactly
  when the first wait of 2.5 s or one of the waits of 1 s after it sees the connected bit of
  the event group. Until then every wait is followed by the callback with \<open>false\<close> and a delay
  of 100 ms (none after the first wait); the callback is called with \<open>true\<close> once, at the end,
  right after the first wait that saw the link. Without a link the boot waits for ever.\<close>

theorem link_wait_returns_iff:
  "eth_w5500_force_link_blocking (Some cb) s = Some s' \<longleftrightarrow>
    (if link_up (ext s) (trace s) 2500 then s' = exec (cb True) (waited 2500 s)
     else (\<exists>k. (\<forall>j<k. \<not> link_up (ext (unlinked_rounds cb s j)) (trace (unlinked_rounds cb s j)) 1000) \<and>
       link_up (ext (unlinked_rounds cb s k)) (trace (unlinked_rounds cb s k)) 1000 \<and>
       s' = exec (cb True) (waited 1000 (unlinked_rounds cb s k))))"
  by (rule force_link_value)

theorem link_wait_returns_iff_witness:
  "eth_w5500_force_link_blocking (Some mark_link) (sample_board late_link_env) =
     Some (sample_board late_link_env\<lparr>trace := late_link_trace\<rparr>)"
  using late_link_rounds
    link_wait_returns_iff [of mark_link "sample_board late_link_env" "sample_board late_link_env\<lparr>trace := late_link_trace\<rparr>"]
  by (auto intro!: exI [of _ 1])

text \<open>C36: Starting the server and stopping it again leaves the heap as it was, whether the
  start went through or failed at any of its steps.\<close>

theorem server_gives_blocks_back:
  assumes "server_down s" "heap_wf s"
  shows "heap (exec https_server_stop (exec (https_server_start cfg) s)) = heap s"
  using start_facts(3) [OF assms, of _ "result (https_server_start cfg) s"] assms
  by (cases cfg) (simp_all add: https_server_start_def stop_heap held_def server_down_def)

theorem server_gives_blocks_back_witness:
  "heap (exec https_server_stop (exec (https_server_start (Some (https_cfg config_defaults))) (sample_board (sample_env secret_store)))) =
     Map.empty"
  using server_gives_blocks_back [of "sample_board (sample_env secret_store)" "Some (https_cfg config_defaults)"]
  by (simp add: server_down_def heap_wf_def) (simp add: sample_board_def)

section \<open>Buttons and pages\<close>

text \<open>C37: A button held for n rounds of the input task fires its short action first, the long
  one at 2 seconds and the factory one at 5, each once, and nothing after it is released.\<close>

theorem hold_fires_once_each:
  assumes "n \<le> 40000000"
  shows "button_actions t (False # replicate n True @ [False]) = hold_actions 0 n"
  by (rule press_actions [OF assms])

theorem hold_fires_once_each_witness:
  "button_actions 0 (False # replicate 45 True @ [False]) = [BTN_CLICK_SHORT, BTN_CLICK_LONG]"
  using hold_fires_once_each [of 45 0] by (simp add: hold_actions_def)

text \<open>C38: k ticks of the carousel's timer move it k pages on, modulo six, in automatic mode
  outside an update, and do not turn a page otherwise.\<close>

theorem carousel_visits_pages:
  "page_index (current_page ((exec auto_scroll_callback ^^ k) s)) =
     (if auto_mode s \<and> \<not> is_suspended s then (page_index (current_page s) + k) mod 6
      else page_index (current_page s))"
  using scroll_ticks [of k s] by (simp add: page_index_rounds)

section \<open>Boot\<close>

text \<open>C39: A powered board whose calls succeed boots to its end.\<close>

theorem boot_reaches_end:
  assumes "power_on s" "boot_ok (ext s)"
  shows "\<exists>c s'. app_main s = Some (c, s')"
  using boot_completes [OF assms] by blast

theorem boot_reaches_end_witness:
  "\<exists>c s'. app_main (sample_board (sample_env secret_store)) = Some (c, s')"
  using boot_reaches_end [of "sample_board (sample_env secret_store)"] by simp

text \<open>C40: After every boot that ends, the active and the default password are the one of the
  configuration, whatever was stored before.\<close>

theorem boot_installs_password:
  assumes "app_main s = Some (c, s')"
  shows "stored f s' AUTH_NVS_NS AUTH_NVS_KEY = Some (cfg_default_password c) \<and>
    stored f s' AUTH_NVS_NS AUTH_NVS_DEFAULT_KEY = Some (cfg_default_password c)"
  using boot_stores [OF assms, of f] by (simp add: boot_passwords_def)

theorem boot_installs_password_witness:
  "\<exists>c s'. app_main (sample_board (sample_env secret_store)) = Some (c, s') \<and>
     stored secret_store s' AUTH_NVS_NS AUTH_NVS_KEY = Some (cfg_default_password c)"
  using boot_completes [of "sample_board (sample_env secret_store)"] boot_installs_password by fastforce

end
